(* ===== verification/Prelude.thy ===== *)
theory Prelude
  imports Main "HOL-Library.Word"
begin

text \<open>
  The shared base of the development: the exceptions of the program, the two ways a Python
  function is modelled (a pure function that may raise is a value of \<open>exn + 'a\<close>, a function
  that also reads and writes state is a state transformer \<open>('s, 'a) exec\<close> that returns,
  raises or never returns), the loops of both kinds, frame and invariant predicates with
  their composition rules, and the generic lemmas on tables (lists of rows) that the
  components share.
\<close>

section \<open>Collections\<close>

named_theorems exec_simps \<open>equations that evaluate state transformers\<close>
named_theorems exec_dest \<open>what a successful run says of its parts\<close>
named_theorems frame_rules \<open>composition rules of frame conditions\<close>

section \<open>Values\<close>

type_synonym byte = "8 word"
type_synonym bytes = "byte list"

text \<open>
  A Python \<open>str\<close> is the \<open>string\<close> of its UTF-8 bytes, so \<open>.encode()\<close> reads the same
  bytes as numbers. A UUID is a natural number below \<open>2 ^ 128\<close>, an instant is an integer
  number of microseconds since the epoch.
\<close>

type_synonym uuid = nat
type_synonym time = int

text \<open>\<open>timedelta(seconds=n)\<close>, \<open>timedelta(hours=n)\<close> and \<open>timedelta(days=n)\<close>.\<close>

definition seconds :: "int \<Rightarrow> time" where "seconds n = n * 1000000"

definition hours :: "int \<Rightarrow> time" where "hours n = n * 3600000000"

definition days :: "int \<Rightarrow> time" where "days n = n * 86400000000"

definition utf8 :: "string \<Rightarrow> bytes" where
  "utf8 s = map of_char s"

lemma length_utf8 [simp]: "length (utf8 s) = length s"
  by (simp add: utf8_def)

text \<open>\<open>range(a, b)\<close> and \<open>range(a, b, k)\<close> with a positive step.\<close>

definition py_range :: "int \<Rightarrow> int \<Rightarrow> int list" where
  "py_range a b = [a..b - 1]"

lemma set_py_range [simp]: "set (py_range a b) = {a..<b}"
  by (auto simp: py_range_def)

definition range_step :: "nat \<Rightarrow> nat \<Rightarrow> nat \<Rightarrow> nat list" where
  "range_step a b k = map (\<lambda>i. a + i * k) [0..<(b - a + (k - 1)) div k]"

section \<open>Exceptions\<close>

text \<open>
  The exception classes the program raises or that the library calls raise into it. The
  message is not part of the value: no handler reads it.
\<close>

datatype exn =
    TypeError | ValueError | ZeroDivisionError | KeyError | AssertionError
  | InvalidBetError
  | ValidationError \<comment> \<open>a pydantic model refuses a field\<close>
  | IntegrityError \<comment> \<open>a database constraint refuses a row\<close>
  | DataError \<comment> \<open>a value out of a column's range\<close>
  | NoResultFound | MultipleResultsFound
  | DataIntegrityError
  | InsufficientFundsError
  | EmailAlreadyExistsError | InvalidCredentialsError | UserSuspendedError
  | RefreshTokenReusedError
  | TokenExpiredError | InvalidTokenError
  | IdempotencyKeyConflictError | IdempotencyInProgressError
  | InvalidCursorError
  | OtherError \<comment> \<open>any other exception\<close>

section \<open>Pure functions that may raise\<close>

definition sbind :: "exn + 'a \<Rightarrow> ('a \<Rightarrow> exn + 'b) \<Rightarrow> exn + 'b" where
  "sbind r f = (case r of Inl e \<Rightarrow> Inl e | Inr x \<Rightarrow> f x)"

lemma sbind_simps [simp]: "sbind (Inl e) f = Inl e" "sbind (Inr x) f = f x"
  by (simp_all add: sbind_def)

lemma sbind_Inr_iff: "sbind r f = Inr y \<longleftrightarrow> (\<exists>x. r = Inr x \<and> f x = Inr y)"
  by (cases r) auto

text \<open>A loop that appends one result per element and stops at the first exception.\<close>

fun smap :: "('a \<Rightarrow> exn + 'b) \<Rightarrow> 'a list \<Rightarrow> exn + 'b list" where
  "smap f [] = Inr []"
| "smap f (x # xs) = sbind (f x) (\<lambda>y. sbind (smap f xs) (\<lambda>ys. Inr (y # ys)))"

lemma smap_Inr_iff:
  "smap f xs = Inr ys \<longleftrightarrow> list_all2 (\<lambda>x y. f x = Inr y) xs ys"
  by (induction xs arbitrary: ys) (auto simp: sbind_Inr_iff list_all2_Cons1)

lemma smap_all_Inr: "(\<And>x. x \<in> set xs \<Longrightarrow> f x = Inr (g x)) \<Longrightarrow> smap f xs = Inr (map g xs)"
  by (induction xs) auto

lemma smap_Inl: "smap f xs = Inl e \<Longrightarrow> \<exists>x \<in> set xs. f x = Inl e"
proof (induction xs)
  case (Cons x xs)
  then show ?case by (cases "f x"; cases "smap f xs") auto
qed simp

section \<open>State transformers\<close>

datatype 'a result = Val 'a | Exc exn | NoReturn

type_synonym ('s, 'a) exec = "'s \<Rightarrow> 'a result \<times> 's"

definition ret :: "'a \<Rightarrow> ('s, 'a) exec" where
  "ret x = (\<lambda>s. (Val x, s))"

definition throw :: "exn \<Rightarrow> ('s, 'a) exec" where
  "throw e = (\<lambda>s. (Exc e, s))"

definition diverge :: "('s, 'a) exec" where
  "diverge = (\<lambda>s. (NoReturn, s))"

definition bind :: "('s, 'a) exec \<Rightarrow> ('a \<Rightarrow> ('s, 'b) exec) \<Rightarrow> ('s, 'b) exec" where
  "bind m f = (\<lambda>s. case m s of
      (Val x, t) \<Rightarrow> f x t
    | (Exc e, t) \<Rightarrow> (Exc e, t)
    | (NoReturn, t) \<Rightarrow> (NoReturn, t))"

definition gets :: "('s \<Rightarrow> 'a) \<Rightarrow> ('s, 'a) exec" where
  "gets f = (\<lambda>s. (Val (f s), s))"

definition modify :: "('s \<Rightarrow> 's) \<Rightarrow> ('s, unit) exec" where
  "modify f = (\<lambda>s. (Val (), f s))"

definition lift_sum :: "exn + 'a \<Rightarrow> ('s, 'a) exec" where
  "lift_sum r = (case r of Inl e \<Rightarrow> throw e | Inr x \<Rightarrow> ret x)"

definition unless_raise :: "bool \<Rightarrow> exn \<Rightarrow> ('s, unit) exec" where
  "unless_raise b e = (if b then ret () else throw e)"

fun mapx :: "('a \<Rightarrow> ('s, 'b) exec) \<Rightarrow> 'a list \<Rightarrow> ('s, 'b list) exec" where
  "mapx f [] = ret []"
| "mapx f (x # xs) = bind (f x) (\<lambda>y. bind (mapx f xs) (\<lambda>ys. ret (y # ys)))"

lemma exec_apply [exec_simps]:
  "ret x s = (Val x, s)"
  "throw e s = (Exc e, s)"
  "diverge s = (NoReturn, s)"
  "gets f s = (Val (f s), s)"
  "modify g s = (Val (), g s)"
  by (simp_all add: ret_def throw_def diverge_def gets_def modify_def)

lemma bind_Val: "m s = (Val x, t) \<Longrightarrow> bind m f s = f x t"
  by (simp add: bind_def)

lemma bind_Exc: "m s = (Exc e, t) \<Longrightarrow> bind m f s = (Exc e, t)"
  by (simp add: bind_def)

lemma bind_NoReturn: "m s = (NoReturn, t) \<Longrightarrow> bind m f s = (NoReturn, t)"
  by (simp add: bind_def)

lemma bind_simps [exec_simps]:
  "bind (ret x) f = f x"
  "bind (throw e) g = throw e"
  "bind (gets h) k s = k (h s) s"
  "bind (modify u) l s = l () (u s)"
  by (simp_all add: bind_def ret_def throw_def gets_def modify_def)

lemma bind_assoc: "bind (bind m f) g = bind m (\<lambda>x. bind (f x) g)"
  by (auto simp: bind_def fun_eq_iff split: prod.splits result.splits)

lemma lift_sum_simps [exec_simps]:
  "lift_sum (Inl e) = throw e" "lift_sum (Inr x) = ret x"
  by (simp_all add: lift_sum_def)

lemma unless_raise_simps [exec_simps]:
  "b \<Longrightarrow> unless_raise b e = ret ()" "\<not> b \<Longrightarrow> unless_raise b e = throw e"
  by (simp_all add: unless_raise_def)

lemma bind_Val_iff:
  "bind m f s = (Val y, u) \<longleftrightarrow> (\<exists>x t. m s = (Val x, t) \<and> f x t = (Val y, u))"
  by (auto simp: bind_def split: prod.splits result.splits)

lemma lift_sum_Val_iff: "lift_sum r s = (Val x, t) \<longleftrightarrow> r = Inr x \<and> t = s"
  by (cases r) (auto simp: exec_simps)

lemma unless_raise_Val_iff: "unless_raise b e s = (Val x, t) \<longleftrightarrow> b \<and> t = s"
  by (auto simp: unless_raise_def exec_simps)

lemma option_throw_Val_iff:
  "(case x of None \<Rightarrow> throw e | Some y \<Rightarrow> f y) s = (Val z, t) \<longleftrightarrow> (\<exists>y. x = Some y \<and> f y s = (Val z, t))"
  by (cases x) (auto simp: exec_apply)

lemmas Val_iffs = bind_Val_iff lift_sum_Val_iff unless_raise_Val_iff

lemma mapx_length: "mapx f xs s = (Val ys, t) \<Longrightarrow> length ys = length xs"
  by (induction xs arbitrary: s ys t) (auto simp: bind_Val_iff exec_simps)

subsection \<open>Frame conditions and invariants\<close>

text \<open>
  \<open>keeps f m\<close>: however \<open>m\<close> ends, the part \<open>f\<close> of the state is what it was.
  \<open>maintains I m\<close>: however \<open>m\<close> ends, the invariant \<open>I\<close> still holds.
\<close>

definition keeps :: "('s \<Rightarrow> 'p) \<Rightarrow> ('s, 'a) exec \<Rightarrow> bool" where
  "keeps f m \<longleftrightarrow> (\<forall>s. f (snd (m s)) = f s)"

definition maintains :: "('s \<Rightarrow> bool) \<Rightarrow> ('s, 'a) exec \<Rightarrow> bool" where
  "maintains I m \<longleftrightarrow> (\<forall>s. I s \<longrightarrow> I (snd (m s)))"

lemma keepsD: "keeps f m \<Longrightarrow> m s = (r, t) \<Longrightarrow> f t = f s"
  by (auto simp: keeps_def dest: spec [of _ s])

lemma maintainsD: "maintains I m \<Longrightarrow> m s = (r, t) \<Longrightarrow> I s \<Longrightarrow> I t"
  by (auto simp: maintains_def dest: spec [of _ s])

lemma keeps_basic [frame_rules]:
  "keeps f (ret x)" "keeps f (throw e)" "keeps f diverge" "keeps f (gets g)"
  "keeps f (lift_sum r)" "keeps f (unless_raise b e)"
  by (auto simp: keeps_def exec_simps lift_sum_def unless_raise_def split: sum.splits)

lemma keeps_bind [frame_rules]:
  "keeps f m \<Longrightarrow> (\<And>x. keeps f (g x)) \<Longrightarrow> keeps f (bind m g)"
  unfolding keeps_def bind_def
  by (auto split: prod.splits result.splits) (metis snd_conv)+

lemma keeps_modify [frame_rules]: "(\<And>s. f (u s) = f s) \<Longrightarrow> keeps f (modify u)"
  by (simp add: keeps_def exec_simps)

lemma keeps_if [frame_rules]: "(b \<Longrightarrow> keeps f m) \<Longrightarrow> (\<not> b \<Longrightarrow> keeps f n) \<Longrightarrow> keeps f (if b then m else n)"
  by simp

lemma keeps_option [frame_rules]:
  "keeps f m \<Longrightarrow> (\<And>x. keeps f (g x)) \<Longrightarrow> keeps f (case o' of None \<Rightarrow> m | Some x \<Rightarrow> g x)"
  by (cases o') auto

lemma keeps_mapx [frame_rules]: "(\<And>x. keeps f (g x)) \<Longrightarrow> keeps f (mapx g xs)"
  by (induction xs) (auto intro!: frame_rules)

lemma maintains_keeps: "keeps f m \<Longrightarrow> (\<And>s. I s = J (f s)) \<Longrightarrow> maintains I m"
  by (auto simp: keeps_def maintains_def)

lemma maintains_bind: "maintains I m \<Longrightarrow> (\<And>x. maintains I (g x)) \<Longrightarrow> maintains I (bind m g)"
  unfolding maintains_def bind_def by (fastforce split: prod.splits result.splits)

section \<open>Tables\<close>

text \<open>
  A table is the list of its rows, in the order of insertion. \<open>update_where\<close> is an
  \<open>UPDATE ... WHERE\<close>; \<open>scalar_one_or_none\<close> and \<open>scalar_one\<close> are SQLAlchemy's readings of
  a result.
\<close>

definition update_where :: "('r \<Rightarrow> bool) \<Rightarrow> ('r \<Rightarrow> 'r) \<Rightarrow> 'r list \<Rightarrow> 'r list" where
  "update_where p f rows = map (\<lambda>r. if p r then f r else r) rows"

definition scalar_one_or_none :: "'a list \<Rightarrow> exn + 'a option" where
  "scalar_one_or_none xs =
     (case xs of [] \<Rightarrow> Inr None | [x] \<Rightarrow> Inr (Some x) | _ \<Rightarrow> Inl MultipleResultsFound)"

definition scalar_one :: "'a list \<Rightarrow> exn + 'a" where
  "scalar_one xs =
     (case xs of [] \<Rightarrow> Inl NoResultFound | [x] \<Rightarrow> Inr x | _ \<Rightarrow> Inl MultipleResultsFound)"

lemma scalar_simps [simp]:
  "scalar_one_or_none [] = Inr None" "scalar_one_or_none [x] = Inr (Some x)"
  "scalar_one [] = Inl NoResultFound" "scalar_one [x] = Inr x"
  by (simp_all add: scalar_one_or_none_def scalar_one_def)

lemma scalar_one_or_none_Some_iff [simp]: "scalar_one_or_none xs = Inr (Some x) \<longleftrightarrow> xs = [x]"
  by (auto simp: scalar_one_or_none_def split: list.splits)

lemma scalar_one_or_none_None_iff [simp]: "scalar_one_or_none xs = Inr None \<longleftrightarrow> xs = []"
  by (auto simp: scalar_one_or_none_def split: list.splits)

lemma scalar_one_Inr_iff [simp]: "scalar_one xs = Inr x \<longleftrightarrow> xs = [x]"
  by (auto simp: scalar_one_def split: list.splits)

lemma update_where_simps [simp]:
  "update_where p f [] = []"
  "update_where p f (r # rs) = (if p r then f r else r) # update_where p f rs"
  "update_where p f (xs @ ys) = update_where p f xs @ update_where p f ys"
  "length (update_where p f rows) = length rows"
  by (simp_all add: update_where_def)

lemma set_update_where: "set (update_where p f rows) = (\<lambda>r. if p r then f r else r) ` set rows"
  by (simp add: update_where_def)

lemma map_update_where [simp]:
  "(\<And>r. p r \<Longrightarrow> g (f r) = g r) \<Longrightarrow> map g (update_where p f rows) = map g rows"
  by (auto simp: update_where_def)

lemma update_where_none: "(\<And>r. r \<in> set rows \<Longrightarrow> \<not> p r) \<Longrightarrow> update_where p f rows = rows"
  by (induction rows) auto

lemma filter_update_where:
  "(\<And>r. p r \<Longrightarrow> q (f r) = q r) \<Longrightarrow>
     filter q (update_where p f rows) = update_where p f (filter q rows)"
  by (induction rows) auto

text \<open>With distinct keys, the rows that have a given key are the one row, or none.\<close>

lemma filter_key_singleton:
  "distinct (map k rows) \<Longrightarrow> r \<in> set rows \<Longrightarrow> filter (\<lambda>x. k x = k r) rows = [r]"
proof (induction rows)
  case (Cons a rows)
  show ?case
  proof (cases "r = a")
    case True
    with Cons.prems(1) have "filter (\<lambda>x. k x = k r) rows = []"
      by (force simp: filter_empty_conv image_iff)
    with True show ?thesis by simp
  next
    case False
    with Cons show ?thesis by (auto simp: image_iff)
  qed
qed simp

lemma filter_key_cases [consumes 1, case_names none one]:
  assumes "distinct (map k rows)"
  obtains (none) "filter (\<lambda>x. k x = a) rows = []" "a \<notin> k ` set rows"
  | (one) r where "filter (\<lambda>x. k x = a) rows = [r]" "r \<in> set rows" "k r = a"
proof (cases "a \<in> k ` set rows")
  case True
  then obtain r where "r \<in> set rows" "k r = a" by auto
  then show ?thesis using one filter_key_singleton [OF assms] by metis
next
  case False
  then have "filter (\<lambda>x. k x = a) rows = []" by (auto simp: filter_empty_conv)
  with False show ?thesis using none by blast
qed

lemma filter_key_eq: "distinct (map k rows) \<Longrightarrow> filter (\<lambda>x. k x = a) rows = [r] \<Longrightarrow>
    x \<in> set rows \<Longrightarrow> k x = a \<Longrightarrow> x = r"
  by (metis filter_key_singleton list.inject)

lemma filter_eq_single: "filter p rows = [r] \<Longrightarrow> r \<in> set rows \<and> p r"
  by (metis filter_set list.set_intros(1) mem_Collect_eq set_filter)

section \<open>State machines\<close>

text \<open>
  The states a machine can reach from its initial states, and the contract of an inductive
  invariant: a machine that meets it has the invariant in every reachable state.
\<close>

inductive reach :: "('s \<Rightarrow> bool) \<Rightarrow> ('s \<Rightarrow> 's \<Rightarrow> bool) \<Rightarrow> 's \<Rightarrow> bool"
  for init :: "'s \<Rightarrow> bool" and step :: "'s \<Rightarrow> 's \<Rightarrow> bool" where
  reach_init: "init s \<Longrightarrow> reach init step s"
| reach_step: "reach init step s \<Longrightarrow> step s t \<Longrightarrow> reach init step t"

locale inductive_invariant =
  fixes init :: "'s \<Rightarrow> bool"
    and step :: "'s \<Rightarrow> 's \<Rightarrow> bool"
    and inv :: "'s \<Rightarrow> bool"
  assumes inv_init: "init s \<Longrightarrow> inv s"
    and inv_step: "inv s \<Longrightarrow> step s t \<Longrightarrow> inv t"
begin

lemma inv_reach: "reach init step s \<Longrightarrow> inv s"
  by (induction rule: reach.induct) (auto intro: inv_init inv_step)

lemma inv_rtranclp: "step\<^sup>*\<^sup>* s t \<Longrightarrow> inv s \<Longrightarrow> inv t"
  by (induction rule: rtranclp_induct) (auto intro: inv_step)

end

end
