(* ===== verification/Codec.thy ===== *)
theory Codec
  imports Prelude
begin

text \<open>
  The text encodings of the standard library the program uses: decimal numerals of
  \<open>f"{n}"\<close>, \<open>bytes.hex()\<close>, \<open>int.from_bytes(..., "big")\<close>, and the URL-safe base64 of
  \<open>secrets.token_urlsafe\<close>. The lemmas say that each is injective, which is what the
  commitment and the message format of the provably-fair scheme rest on.
\<close>

section \<open>Decimal numerals\<close>

definition digit_char :: "nat \<Rightarrow> char" where
  "digit_char d = ''0123456789'' ! d"

fun dec_nat :: "nat \<Rightarrow> string" where
  "dec_nat n = (if n < 10 then [digit_char n] else dec_nat (n div 10) @ [digit_char (n mod 10)])"

declare dec_nat.simps [simp del]

definition dec_int :: "int \<Rightarrow> string" where
  "dec_int i = (if i < 0 then CHR ''-'' # dec_nat (nat (- i)) else dec_nat (nat i))"

definition digit_val :: "char \<Rightarrow> nat" where
  "digit_val c = of_char c - 48"

definition read_dec :: "string \<Rightarrow> nat" where
  "read_dec s = foldl (\<lambda>n c. 10 * n + digit_val c) 0 s"

lemma less_ten_cases:
  assumes "d < (10::nat)"
  shows "d = 0 \<or> d = 1 \<or> d = 2 \<or> d = 3 \<or> d = 4 \<or> d = 5 \<or> d = 6 \<or> d = 7 \<or> d = 8 \<or> d = 9"
  using assms by arith

lemma digit_val_char [simp]: "d < 10 \<Longrightarrow> digit_val (digit_char d) = d"
  using less_ten_cases [of d] by (auto simp: digit_val_def digit_char_def)

lemma digit_char_not_sep [simp]:
  "d < 10 \<Longrightarrow> digit_char d \<noteq> CHR '':''" "d < 10 \<Longrightarrow> digit_char d \<noteq> CHR ''-''"
  using less_ten_cases [of d] by (auto simp: digit_char_def)

lemma read_dec_nat [simp]: "read_dec (dec_nat n) = n"
proof (induction n rule: dec_nat.induct)
  case (1 n)
  then show ?case
    by (subst dec_nat.simps) (auto simp: read_dec_def)
qed

lemma dec_nat_inject [simp]: "dec_nat m = dec_nat n \<longleftrightarrow> m = n"
  by (metis read_dec_nat)

lemma dec_nat_digits: "c \<in> set (dec_nat n) \<Longrightarrow> \<exists>d < 10. c = digit_char d"
proof (induction n rule: dec_nat.induct)
  case (1 n)
  show ?case
  proof (cases "n < 10")
    case True
    with "1.prems" show ?thesis by (auto simp: dec_nat.simps [of n])
  next
    case False
    with "1.prems" consider "c \<in> set (dec_nat (n div 10))" | "c = digit_char (n mod 10)"
      by (auto simp: dec_nat.simps [of n])
    then show ?thesis
    proof cases
      case 1
      with "1.IH" [OF False] show ?thesis by blast
    next
      case 2
      then show ?thesis by (intro exI [of _ "n mod 10"]) simp
    qed
  qed
qed

lemma dec_nat_no_sep [simp]: "CHR '':'' \<notin> set (dec_nat n)" "CHR ''-'' \<notin> set (dec_nat n)"
  using dec_nat_digits digit_char_not_sep by metis+

lemma dec_nat_nonempty [simp]: "dec_nat n \<noteq> []"
  by (subst dec_nat.simps) simp

lemma dec_int_inject [simp]: "dec_int i = dec_int j \<longleftrightarrow> i = j"
proof -
  have "\<And>s t. CHR ''-'' # s = dec_nat t \<Longrightarrow> False"
    by (metis dec_nat_no_sep(2) list.set_intros(1))
  then show ?thesis
    by (auto simp: dec_int_def eq_nat_nat_iff split: if_splits) (metis)+
qed

lemma dec_int_no_colon [simp]: "CHR '':'' \<notin> set (dec_int i)"
  by (simp add: dec_int_def)

section \<open>Hexadecimal and big-endian numbers\<close>

definition hex_digit :: "nat \<Rightarrow> char" where
  "hex_digit d = ''0123456789abcdef'' ! d"

definition hex_byte :: "byte \<Rightarrow> string" where
  "hex_byte b = [hex_digit (unat b div 16), hex_digit (unat b mod 16)]"

definition hex :: "bytes \<Rightarrow> string" where
  "hex bs = concat (map hex_byte bs)"

definition from_bytes_big :: "bytes \<Rightarrow> int" where
  "from_bytes_big bs = foldl (\<lambda>v b. 256 * v + uint b) 0 bs"

lemma less_sixteen_cases:
  assumes "d < (16::nat)"
  shows "d < 10 \<or> d = 10 \<or> d = 11 \<or> d = 12 \<or> d = 13 \<or> d = 14 \<or> d = 15"
  using assms by arith

definition hex_val :: "char \<Rightarrow> nat" where
  "hex_val c = (if of_char c < (58::nat) then of_char c - 48 else of_char c - 87)"

lemma hex_val_digit [simp]: "d < 16 \<Longrightarrow> hex_val (hex_digit d) = d"
proof -
  assume "d < 16"
  then consider "d < 10" | "d = 10" | "d = 11" | "d = 12" | "d = 13" | "d = 14" | "d = 15"
    using less_sixteen_cases [of d] by blast
  then show ?thesis
    using less_ten_cases [of d] by cases (auto simp: hex_val_def hex_digit_def)
qed

fun unhex :: "string \<Rightarrow> bytes" where
  "unhex (a # b # s) = of_nat (16 * hex_val a + hex_val b) # unhex s"
| "unhex _ = []"

lemma hex_simps [simp]: "hex [] = []" "hex (b # bs) = hex_byte b @ hex bs"
  by (simp_all add: hex_def)

lemma unhex_hex [simp]: "unhex (hex bs) = bs"
proof (induction bs)
  case (Cons b bs)
  have "unat b < 256" using unsigned_less [of b] by simp
  then have "unat b div 16 < 16" "unat b mod 16 < 16" by auto
  with Cons show ?case by (simp add: hex_byte_def)
qed simp

lemma hex_inject [simp]: "hex xs = hex ys \<longleftrightarrow> xs = ys"
  by (metis unhex_hex)

lemma length_hex [simp]: "length (hex bs) = 2 * length bs"
  by (induction bs) (auto simp: hex_byte_def)

lemma from_bytes_big_bounds:
  "0 \<le> from_bytes_big bs \<and> from_bytes_big bs < 256 ^ length bs"
proof (induction bs rule: rev_induct)
  case (snoc b bs)
  have b: "uint b \<le> 255" "0 \<le> uint b"
    using uint_bounded [of b] by auto
  have eq: "from_bytes_big (bs @ [b]) = 256 * from_bytes_big bs + uint b"
    by (simp add: from_bytes_big_def)
  from snoc have "from_bytes_big bs \<le> 256 ^ length bs - 1" by simp
  then have "256 * from_bytes_big bs \<le> 256 * (256 ^ length bs - 1)"
    by (rule mult_left_mono) simp
  with b have "256 * from_bytes_big bs + uint b < 256 * 256 ^ length bs"
    by (simp add: algebra_simps)
  with eq b snoc show ?case by simp
qed (simp add: from_bytes_big_def)

section \<open>URL-safe base64\<close>

definition b64_char :: "int \<Rightarrow> char" where
  "b64_char d = ''ABCDEFGHIJKLMNOPQRSTUVWXYZabcdefghijklmnopqrstuvwxyz0123456789-_'' ! nat d"

text \<open>\<open>base64.urlsafe_b64encode\<close>: three bytes become four characters, \<open>=\<close> pads the last group.\<close>

fun b64url :: "bytes \<Rightarrow> string" where
  "b64url [] = []"
| "b64url [a] = (let n = uint a * 16 in
     [b64_char (n div 64), b64_char (n mod 64), CHR ''='', CHR ''=''])"
| "b64url [a, b] = (let n = (uint a * 256 + uint b) * 4 in
     [b64_char (n div 4096), b64_char (n div 64 mod 64), b64_char (n mod 64), CHR ''=''])"
| "b64url (a # b # c # r) = (let n = (uint a * 256 + uint b) * 256 + uint c in
     [b64_char (n div 262144), b64_char (n div 4096 mod 64), b64_char (n div 64 mod 64),
      b64_char (n mod 64)] @ b64url r)"

end
