(* ===== verification/Spin_Vector.thy ===== *)
theory Spin_Vector
  imports Sha256
begin

text \<open>
  One spin recomputed inside the kernel: the HMAC-SHA256 of a fixed server seed and the first
  message of a fixed client seed, eight rounds of the compression function per lemma. It
  checks the transcription of SHA-256 and HMAC end to end against the value the Python
  library gives, and it is the concrete spin the witnesses of the betting service use.
\<close>

lemma sha_K_split:
  "sha_K = [1116352408, 1899447441, 3049323471, 3921009573, 961987163, 1508970993, 2453635748, 2870763221] @
     [3624381080, 310598401, 607225278, 1426881987, 1925078388, 2162078206, 2614888103, 3248222580] @
     [3835390401, 4022224774, 264347078, 604807628, 770255983, 1249150122, 1555081692, 1996064986] @
     [2554220882, 2821834349, 2952996808, 3210313671, 3336571891, 3584528711, 113926993, 338241895] @
     [666307205, 773529912, 1294757372, 1396182291, 1695183700, 1986661051, 2177026350, 2456956037] @
     [2730485921, 2820302411, 3259730800, 3345764771, 3516065817, 3600352804, 4094571909, 275423344] @
     [430227734, 506948616, 659060556, 883997877, 958139571, 1322822218, 1537002063, 1747873779] @
     [1955562222, 2024104815, 2227730452, 2361852424, 2428436474, 2756734187, 3204031479, 3329325298]"
  by (simp add: sha_K_def)

section \<open>The four blocks\<close>

lemma inner_key_0:
  "foldl sha_step ([909587509, 842215473, 1044331581, 976959545, 640099365, 572727329, 774843437, 707471401, 909522486, 909522486, 909522486, 909522486, 909522486, 909522486, 909522486, 909522486],
      (1779033703, 3144134277, 1013904242, 2773480762, 1359893119, 2600822924, 528734635, 1541459225))
    [1116352408, 1899447441, 3049323471, 3921009573, 961987163, 1508970993, 2453635748, 2870763221] =
   ([909522486, 909522486, 909522486, 909522486, 909522486, 909522486, 909522486, 909522486, 4067166117, 4176383271, 2999824102, 2398915197, 1290338683, 3242135600, 2718093803, 1844219505],
    (1999566511, 270054630, 4062207115, 1653871370, 894768441, 2999880827, 506265191, 1589791647))"
  by (simp add: sha_eval)

lemma inner_key_1:
  "foldl sha_step ([909522486, 909522486, 909522486, 909522486, 909522486, 909522486, 909522486, 909522486, 4067166117, 4176383271, 2999824102, 2398915197, 1290338683, 3242135600, 2718093803, 1844219505],
      (1999566511, 270054630, 4062207115, 1653871370, 894768441, 2999880827, 506265191, 1589791647))
    [3624381080, 310598401, 607225278, 1426881987, 1925078388, 2162078206, 2614888103, 3248222580] =
   ([4067166117, 4176383271, 2999824102, 2398915197, 1290338683, 3242135600, 2718093803, 1844219505, 1227624569, 2803428523, 914075281, 3593453612, 2167640230, 3615926634, 1169279017, 1431321512],
    (2315667903, 1134260424, 3867317684, 3153345574, 3181853139, 2692298906, 4199967343, 3343982269))"
  by (simp add: sha_eval)

lemma inner_key_2:
  "foldl sha_step ([4067166117, 4176383271, 2999824102, 2398915197, 1290338683, 3242135600, 2718093803, 1844219505, 1227624569, 2803428523, 914075281, 3593453612, 2167640230, 3615926634, 1169279017, 1431321512],
      (2315667903, 1134260424, 3867317684, 3153345574, 3181853139, 2692298906, 4199967343, 3343982269))
    [3835390401, 4022224774, 264347078, 604807628, 770255983, 1249150122, 1555081692, 1996064986] =
   ([1227624569, 2803428523, 914075281, 3593453612, 2167640230, 3615926634, 1169279017, 1431321512, 1781255409, 4205064694, 4048981401, 1854228292, 2036132464, 2311105338, 2897577467, 412764600],
    (2756075205, 3176375401, 3703742551, 32871773, 2080840879, 2054582108, 3862190041, 903955860))"
  by (simp add: sha_eval)

lemma inner_key_3:
  "foldl sha_step ([1227624569, 2803428523, 914075281, 3593453612, 2167640230, 3615926634, 1169279017, 1431321512, 1781255409, 4205064694, 4048981401, 1854228292, 2036132464, 2311105338, 2897577467, 412764600],
      (2756075205, 3176375401, 3703742551, 32871773, 2080840879, 2054582108, 3862190041, 903955860))
    [2554220882, 2821834349, 2952996808, 3210313671, 3336571891, 3584528711, 113926993, 338241895] =
   ([1781255409, 4205064694, 4048981401, 1854228292, 2036132464, 2311105338, 2897577467, 412764600, 784438950, 3580130081, 1374677696, 3227248919, 2015756974, 906775098, 1951645390, 1293362608],
    (395850609, 1841721628, 3462771892, 3034112804, 2317477278, 1869965230, 3607919434, 2937990776))"
  by (simp add: sha_eval)

lemma inner_key_4:
  "foldl sha_step ([1781255409, 4205064694, 4048981401, 1854228292, 2036132464, 2311105338, 2897577467, 412764600, 784438950, 3580130081, 1374677696, 3227248919, 2015756974, 906775098, 1951645390, 1293362608],
      (395850609, 1841721628, 3462771892, 3034112804, 2317477278, 1869965230, 3607919434, 2937990776))
    [666307205, 773529912, 1294757372, 1396182291, 1695183700, 1986661051, 2177026350, 2456956037] =
   ([784438950, 3580130081, 1374677696, 3227248919, 2015756974, 906775098, 1951645390, 1293362608, 3876622674, 1371506835, 3779730373, 4047516105, 1290832117, 2695311653, 814766833, 2859819742],
    (3713966936, 340655794, 2547692450, 1464583525, 2875531059, 3533508274, 3705084094, 154516304))"
  by (simp add: sha_eval)

lemma inner_key_5:
  "foldl sha_step ([784438950, 3580130081, 1374677696, 3227248919, 2015756974, 906775098, 1951645390, 1293362608, 3876622674, 1371506835, 3779730373, 4047516105, 1290832117, 2695311653, 814766833, 2859819742],
      (3713966936, 340655794, 2547692450, 1464583525, 2875531059, 3533508274, 3705084094, 154516304))
    [2730485921, 2820302411, 3259730800, 3345764771, 3516065817, 3600352804, 4094571909, 275423344] =
   ([3876622674, 1371506835, 3779730373, 4047516105, 1290832117, 2695311653, 814766833, 2859819742, 3967413600, 1140515592, 3693464887, 245455775, 3623513352, 1798160813, 976128765, 805531999],
    (3929076448, 3605241681, 1804262437, 2764532351, 2284692342, 2152778970, 3492211706, 2155382633))"
  by (simp add: sha_eval)

lemma inner_key_6:
  "foldl sha_step ([3876622674, 1371506835, 3779730373, 4047516105, 1290832117, 2695311653, 814766833, 2859819742, 3967413600, 1140515592, 3693464887, 245455775, 3623513352, 1798160813, 976128765, 805531999],
      (3929076448, 3605241681, 1804262437, 2764532351, 2284692342, 2152778970, 3492211706, 2155382633))
    [430227734, 506948616, 659060556, 883997877, 958139571, 1322822218, 1537002063, 1747873779] =
   ([3967413600, 1140515592, 3693464887, 245455775, 3623513352, 1798160813, 976128765, 805531999, 2381021366, 361268164, 571694870, 3692375129, 261905581, 20313268, 4144134525, 608020157],
    (722667389, 249508351, 2768293420, 2607903609, 1009954260, 2461756245, 1556832225, 2181698125))"
  by (simp add: sha_eval)

lemma inner_key_7:
  "foldl sha_step ([3967413600, 1140515592, 3693464887, 245455775, 3623513352, 1798160813, 976128765, 805531999, 2381021366, 361268164, 571694870, 3692375129, 261905581, 20313268, 4144134525, 608020157],
      (722667389, 249508351, 2768293420, 2607903609, 1009954260, 2461756245, 1556832225, 2181698125))
    [1955562222, 2024104815, 2227730452, 2361852424, 2428436474, 2756734187, 3204031479, 3329325298] =
   ([2381021366, 361268164, 571694870, 3692375129, 261905581, 20313268, 4144134525, 608020157, 367636604, 3573514563, 262051361, 3742168017, 2598395090, 2841908550, 3900275902, 1788477155],
    (412647084, 3132404906, 2142719484, 3191422407, 3109713054, 2228982273, 2400072526, 2769495399))"
  by (simp add: sha_eval)

lemma inner_key:
  "sha_add (1779033703, 3144134277, 1013904242, 2773480762, 1359893119, 2600822924, 528734635, 1541459225)
     (snd (foldl sha_step ([909587509, 842215473, 1044331581, 976959545, 640099365, 572727329, 774843437, 707471401, 909522486, 909522486, 909522486, 909522486, 909522486, 909522486, 909522486, 909522486], (1779033703, 3144134277, 1013904242, 2773480762, 1359893119, 2600822924, 528734635, 1541459225)) sha_K)) =
   (2191680787, 1981571887, 3156623726, 1669935873, 174638877, 534837901, 2928807161, 15987328)"
  by (simp only: sha_K_split foldl_append inner_key_0 inner_key_1 inner_key_2 inner_key_3 inner_key_4 inner_key_5 inner_key_6 inner_key_7 snd_conv) simp

lemma inner_msg_0:
  "foldl sha_step ([808464689, 842150707, 875836725, 909522743, 943208761, 1633772130, 1667458148, 1701144166, 976322560, 0, 0, 0, 0, 0, 0, 784],
      (2191680787, 1981571887, 3156623726, 1669935873, 174638877, 534837901, 2928807161, 15987328))
    [1116352408, 1899447441, 3049323471, 3921009573, 961987163, 1508970993, 2453635748, 2870763221] =
   ([976322560, 0, 0, 0, 0, 0, 0, 784, 488579005, 2512377588, 2244609829, 3270584367, 201699558, 808958570, 1808805307, 338376610],
    (1093942052, 1345291409, 617681715, 3426665134, 2968897036, 2156903699, 3073197646, 3687439540))"
  by (simp add: sha_eval)

lemma inner_msg_1:
  "foldl sha_step ([976322560, 0, 0, 0, 0, 0, 0, 784, 488579005, 2512377588, 2244609829, 3270584367, 201699558, 808958570, 1808805307, 338376610],
      (1093942052, 1345291409, 617681715, 3426665134, 2968897036, 2156903699, 3073197646, 3687439540))
    [3624381080, 310598401, 607225278, 1426881987, 1925078388, 2162078206, 2614888103, 3248222580] =
   ([488579005, 2512377588, 2244609829, 3270584367, 201699558, 808958570, 1808805307, 338376610, 3814818701, 2196392322, 3028336107, 2044157088, 2040350569, 2980737985, 1077357746, 428647848],
    (2841061906, 3396736870, 4269330714, 375557975, 2594042519, 3052509183, 81844708, 3212074932))"
  by (simp add: sha_eval)

lemma inner_msg_2:
  "foldl sha_step ([488579005, 2512377588, 2244609829, 3270584367, 201699558, 808958570, 1808805307, 338376610, 3814818701, 2196392322, 3028336107, 2044157088, 2040350569, 2980737985, 1077357746, 428647848],
      (2841061906, 3396736870, 4269330714, 375557975, 2594042519, 3052509183, 81844708, 3212074932))
    [3835390401, 4022224774, 264347078, 604807628, 770255983, 1249150122, 1555081692, 1996064986] =
   ([3814818701, 2196392322, 3028336107, 2044157088, 2040350569, 2980737985, 1077357746, 428647848, 571109169, 3944986453, 2280117133, 2343185964, 239256534, 874751071, 1244979021, 1143514877],
    (3587849678, 1913079311, 1325405589, 1640708272, 144249433, 3230234310, 2572116700, 688077122))"
  by (simp add: sha_eval)

lemma inner_msg_3:
  "foldl sha_step ([3814818701, 2196392322, 3028336107, 2044157088, 2040350569, 2980737985, 1077357746, 428647848, 571109169, 3944986453, 2280117133, 2343185964, 239256534, 874751071, 1244979021, 1143514877],
      (3587849678, 1913079311, 1325405589, 1640708272, 144249433, 3230234310, 2572116700, 688077122))
    [2554220882, 2821834349, 2952996808, 3210313671, 3336571891, 3584528711, 113926993, 338241895] =
   ([571109169, 3944986453, 2280117133, 2343185964, 239256534, 874751071, 1244979021, 1143514877, 1243281766, 1090918829, 4237931103, 3827840415, 2797767280, 3217978220, 321410663, 1499786314],
    (4248227743, 623516463, 2474782577, 3742998181, 2093986057, 202574588, 350676428, 260625045))"
  by (simp add: sha_eval)

lemma inner_msg_4:
  "foldl sha_step ([571109169, 3944986453, 2280117133, 2343185964, 239256534, 874751071, 1244979021, 1143514877, 1243281766, 1090918829, 4237931103, 3827840415, 2797767280, 3217978220, 321410663, 1499786314],
      (4248227743, 623516463, 2474782577, 3742998181, 2093986057, 202574588, 350676428, 260625045))
    [666307205, 773529912, 1294757372, 1396182291, 1695183700, 1986661051, 2177026350, 2456956037] =
   ([1243281766, 1090918829, 4237931103, 3827840415, 2797767280, 3217978220, 321410663, 1499786314, 3765663246, 3532127368, 100134281, 1366288885, 729945547, 4112381184, 3349278819, 3829938355],
    (3738035340, 3845036634, 1302935880, 315983919, 1554822096, 2672772753, 137877014, 389992477))"
  by (simp add: sha_eval)

lemma inner_msg_5:
  "foldl sha_step ([1243281766, 1090918829, 4237931103, 3827840415, 2797767280, 3217978220, 321410663, 1499786314, 3765663246, 3532127368, 100134281, 1366288885, 729945547, 4112381184, 3349278819, 3829938355],
      (3738035340, 3845036634, 1302935880, 315983919, 1554822096, 2672772753, 137877014, 389992477))
    [2730485921, 2820302411, 3259730800, 3345764771, 3516065817, 3600352804, 4094571909, 275423344] =
   ([3765663246, 3532127368, 100134281, 1366288885, 729945547, 4112381184, 3349278819, 3829938355, 3078162573, 796040674, 565116727, 2214254660, 2394102853, 2555720109, 2307337066, 737185652],
    (3653531587, 1670095354, 1764447844, 1467902745, 1652056980, 2828708973, 1021790904, 2339525739))"
  by (simp add: sha_eval)

lemma inner_msg_6:
  "foldl sha_step ([3765663246, 3532127368, 100134281, 1366288885, 729945547, 4112381184, 3349278819, 3829938355, 3078162573, 796040674, 565116727, 2214254660, 2394102853, 2555720109, 2307337066, 737185652],
      (3653531587, 1670095354, 1764447844, 1467902745, 1652056980, 2828708973, 1021790904, 2339525739))
    [430227734, 506948616, 659060556, 883997877, 958139571, 1322822218, 1537002063, 1747873779] =
   ([3078162573, 796040674, 565116727, 2214254660, 2394102853, 2555720109, 2307337066, 737185652, 1975012594, 879541115, 3571406587, 3243801153, 1735960230, 1415658247, 2963148742, 1687788917],
    (1066627393, 1569011010, 2009824782, 2224467338, 347598109, 2137242291, 645533627, 938008475))"
  by (simp add: sha_eval)

lemma inner_msg_7:
  "foldl sha_step ([3078162573, 796040674, 565116727, 2214254660, 2394102853, 2555720109, 2307337066, 737185652, 1975012594, 879541115, 3571406587, 3243801153, 1735960230, 1415658247, 2963148742, 1687788917],
      (1066627393, 1569011010, 2009824782, 2224467338, 347598109, 2137242291, 645533627, 938008475))
    [1955562222, 2024104815, 2227730452, 2361852424, 2428436474, 2756734187, 3204031479, 3329325298] =
   ([1975012594, 879541115, 3571406587, 3243801153, 1735960230, 1415658247, 2963148742, 1687788917, 417704770, 3608836104, 1933606338, 3162414326, 413886822, 4122419428, 2528094341, 2995431620],
    (2664995894, 2596392753, 2522812750, 25044944, 850592290, 713959299, 2381559485, 3143319))"
  by (simp add: sha_eval)

lemma inner_msg:
  "sha_add (2191680787, 1981571887, 3156623726, 1669935873, 174638877, 534837901, 2928807161, 15987328)
     (snd (foldl sha_step ([808464689, 842150707, 875836725, 909522743, 943208761, 1633772130, 1667458148, 1701144166, 976322560, 0, 0, 0, 0, 0, 0, 784], (2191680787, 1981571887, 3156623726, 1669935873, 174638877, 534837901, 2928807161, 15987328)) sha_K)) =
   (561709385, 282997344, 1384469180, 1694980817, 1025231167, 1248797200, 1015399350, 19130647)"
  by (simp only: sha_K_split foldl_append inner_msg_0 inner_msg_1 inner_msg_2 inner_msg_3 inner_msg_4 inner_msg_5 inner_msg_6 inner_msg_7 snd_conv) simp

lemma outer_key_0:
  "foldl sha_step ([1549622879, 1482250843, 1414878807, 1347506771, 1280134735, 1212762699, 1145390663, 1078018627, 1549556828, 1549556828, 1549556828, 1549556828, 1549556828, 1549556828, 1549556828, 1549556828],
      (1779033703, 3144134277, 1013904242, 2773480762, 1359893119, 2600822924, 528734635, 1541459225))
    [1116352408, 1899447441, 3049323471, 3921009573, 961987163, 1508970993, 2453635748, 2870763221] =
   ([1549556828, 1549556828, 1549556828, 1549556828, 1549556828, 1549556828, 1549556828, 1549556828, 1234812246, 1277181660, 2449709885, 2312582800, 882053153, 4193237528, 1758705054, 1483750369],
    (1359007191, 1016761025, 1059743540, 3854143108, 1156221492, 3850320424, 3619225416, 1892945712))"
  by (simp add: sha_eval)

lemma outer_key_1:
  "foldl sha_step ([1549556828, 1549556828, 1549556828, 1549556828, 1549556828, 1549556828, 1549556828, 1549556828, 1234812246, 1277181660, 2449709885, 2312582800, 882053153, 4193237528, 1758705054, 1483750369],
      (1359007191, 1016761025, 1059743540, 3854143108, 1156221492, 3850320424, 3619225416, 1892945712))
    [3624381080, 310598401, 607225278, 1426881987, 1925078388, 2162078206, 2614888103, 3248222580] =
   ([1234812246, 1277181660, 2449709885, 2312582800, 882053153, 4193237528, 1758705054, 1483750369, 4178021626, 2904471285, 3258194256, 3265443106, 2317561586, 1968818118, 1266047231, 4217381506],
    (46125277, 194549003, 3138154378, 3145195880, 1422531423, 2715631781, 3878948041, 2476693899))"
  by (simp add: sha_eval)

lemma outer_key_2:
  "foldl sha_step ([1234812246, 1277181660, 2449709885, 2312582800, 882053153, 4193237528, 1758705054, 1483750369, 4178021626, 2904471285, 3258194256, 3265443106, 2317561586, 1968818118, 1266047231, 4217381506],
      (46125277, 194549003, 3138154378, 3145195880, 1422531423, 2715631781, 3878948041, 2476693899))
    [3835390401, 4022224774, 264347078, 604807628, 770255983, 1249150122, 1555081692, 1996064986] =
   ([4178021626, 2904471285, 3258194256, 3265443106, 2317561586, 1968818118, 1266047231, 4217381506, 2631293500, 3006227409, 951231376, 4071330476, 1877550618, 3713117415, 3813673335, 3809155149],
    (1042013307, 4282433589, 3308271166, 803983892, 1354782258, 95918552, 4020950248, 239866999))"
  by (simp add: sha_eval)

lemma outer_key_3:
  "foldl sha_step ([4178021626, 2904471285, 3258194256, 3265443106, 2317561586, 1968818118, 1266047231, 4217381506, 2631293500, 3006227409, 951231376, 4071330476, 1877550618, 3713117415, 3813673335, 3809155149],
      (1042013307, 4282433589, 3308271166, 803983892, 1354782258, 95918552, 4020950248, 239866999))
    [2554220882, 2821834349, 2952996808, 3210313671, 3336571891, 3584528711, 113926993, 338241895] =
   ([2631293500, 3006227409, 951231376, 4071330476, 1877550618, 3713117415, 3813673335, 3809155149, 86592383, 2491401532, 843741125, 2358584200, 3493568491, 4027070784, 4244146454, 409604818],
    (239806165, 1383298801, 2404343132, 1779352912, 3188982546, 1733990377, 3419499217, 2100537025))"
  by (simp add: sha_eval)

lemma outer_key_4:
  "foldl sha_step ([2631293500, 3006227409, 951231376, 4071330476, 1877550618, 3713117415, 3813673335, 3809155149, 86592383, 2491401532, 843741125, 2358584200, 3493568491, 4027070784, 4244146454, 409604818],
      (239806165, 1383298801, 2404343132, 1779352912, 3188982546, 1733990377, 3419499217, 2100537025))
    [666307205, 773529912, 1294757372, 1396182291, 1695183700, 1986661051, 2177026350, 2456956037] =
   ([86592383, 2491401532, 843741125, 2358584200, 3493568491, 4027070784, 4244146454, 409604818, 4108623279, 3224531051, 1170349755, 2845062287, 1807121353, 1765266650, 804626295, 2504828151],
    (458854055, 1945905873, 4209940245, 3783388048, 3157222357, 4190622503, 222303597, 3315057669))"
  by (simp add: sha_eval)

lemma outer_key_5:
  "foldl sha_step ([86592383, 2491401532, 843741125, 2358584200, 3493568491, 4027070784, 4244146454, 409604818, 4108623279, 3224531051, 1170349755, 2845062287, 1807121353, 1765266650, 804626295, 2504828151],
      (458854055, 1945905873, 4209940245, 3783388048, 3157222357, 4190622503, 222303597, 3315057669))
    [2730485921, 2820302411, 3259730800, 3345764771, 3516065817, 3600352804, 4094571909, 275423344] =
   ([4108623279, 3224531051, 1170349755, 2845062287, 1807121353, 1765266650, 804626295, 2504828151, 3701632383, 3000952226, 2674890437, 3505604778, 79841244, 4254418554, 551743706, 1727556657],
    (523327659, 2205553174, 3082321966, 2030870824, 507800439, 2261474467, 1641748485, 46812699))"
  by (simp add: sha_eval)

lemma outer_key_6:
  "foldl sha_step ([4108623279, 3224531051, 1170349755, 2845062287, 1807121353, 1765266650, 804626295, 2504828151, 3701632383, 3000952226, 2674890437, 3505604778, 79841244, 4254418554, 551743706, 1727556657],
      (523327659, 2205553174, 3082321966, 2030870824, 507800439, 2261474467, 1641748485, 46812699))
    [430227734, 506948616, 659060556, 883997877, 958139571, 1322822218, 1537002063, 1747873779] =
   ([3701632383, 3000952226, 2674890437, 3505604778, 79841244, 4254418554, 551743706, 1727556657, 568249091, 2496020354, 3672190824, 2277416770, 1753063465, 3003143536, 3484973701, 1457061452],
    (42059415, 2369677780, 1254997638, 948473551, 389342818, 2228873080, 751466050, 2703748740))"
  by (simp add: sha_eval)

lemma outer_key_7:
  "foldl sha_step ([3701632383, 3000952226, 2674890437, 3505604778, 79841244, 4254418554, 551743706, 1727556657, 568249091, 2496020354, 3672190824, 2277416770, 1753063465, 3003143536, 3484973701, 1457061452],
      (42059415, 2369677780, 1254997638, 948473551, 389342818, 2228873080, 751466050, 2703748740))
    [1955562222, 2024104815, 2227730452, 2361852424, 2428436474, 2756734187, 3204031479, 3329325298] =
   ([568249091, 2496020354, 3672190824, 2277416770, 1753063465, 3003143536, 3484973701, 1457061452, 2380344062, 1813804736, 1959223493, 410710695, 3489726357, 12207695, 1290200645, 293638795],
    (3109940480, 1685176582, 1868520411, 1465842987, 1804294490, 693084728, 1430751674, 1561207885))"
  by (simp add: sha_eval)

lemma outer_key:
  "sha_add (1779033703, 3144134277, 1013904242, 2773480762, 1359893119, 2600822924, 528734635, 1541459225)
     (snd (foldl sha_step ([1549622879, 1482250843, 1414878807, 1347506771, 1280134735, 1212762699, 1145390663, 1078018627, 1549556828, 1549556828, 1549556828, 1549556828, 1549556828, 1549556828, 1549556828, 1549556828], (1779033703, 3144134277, 1013904242, 2773480762, 1359893119, 2600822924, 528734635, 1541459225)) sha_K)) =
   (594006887, 534343563, 2882424653, 4239323749, 3164187609, 3293907652, 1959486309, 3102667110)"
  by (simp only: sha_K_split foldl_append outer_key_0 outer_key_1 outer_key_2 outer_key_3 outer_key_4 outer_key_5 outer_key_6 outer_key_7 snd_conv) simp

lemma outer_msg_0:
  "foldl sha_step ([561709385, 282997344, 1384469180, 1694980817, 1025231167, 1248797200, 1015399350, 19130647, 2147483648, 0, 0, 0, 0, 0, 0, 768],
      (594006887, 534343563, 2882424653, 4239323749, 3164187609, 3293907652, 1959486309, 3102667110))
    [1116352408, 1899447441, 3049323471, 3921009573, 961987163, 1508970993, 2453635748, 2870763221] =
   ([2147483648, 0, 0, 0, 0, 0, 0, 768, 1880981352, 957933235, 3685302460, 1612683866, 2801274573, 2750536394, 394304270, 1482064495],
    (4147242383, 3070699026, 267676767, 1698802518, 2944492628, 2268038016, 3491901579, 3581764994))"
  by (simp add: sha_eval)

lemma outer_msg_1:
  "foldl sha_step ([2147483648, 0, 0, 0, 0, 0, 0, 768, 1880981352, 957933235, 3685302460, 1612683866, 2801274573, 2750536394, 394304270, 1482064495],
      (4147242383, 3070699026, 267676767, 1698802518, 2944492628, 2268038016, 3491901579, 3581764994))
    [3624381080, 310598401, 607225278, 1426881987, 1925078388, 2162078206, 2614888103, 3248222580] =
   ([1880981352, 957933235, 3685302460, 1612683866, 2801274573, 2750536394, 394304270, 1482064495, 402395081, 1830130493, 3862425692, 584740121, 2853059819, 2460458683, 853059230, 3588468413],
    (2243351406, 2201328250, 1657663321, 1874561456, 2650603416, 1263330672, 658489050, 1509109815))"
  by (simp add: sha_eval)

lemma outer_msg_2:
  "foldl sha_step ([1880981352, 957933235, 3685302460, 1612683866, 2801274573, 2750536394, 394304270, 1482064495, 402395081, 1830130493, 3862425692, 584740121, 2853059819, 2460458683, 853059230, 3588468413],
      (2243351406, 2201328250, 1657663321, 1874561456, 2650603416, 1263330672, 658489050, 1509109815))
    [3835390401, 4022224774, 264347078, 604807628, 770255983, 1249150122, 1555081692, 1996064986] =
   ([402395081, 1830130493, 3862425692, 584740121, 2853059819, 2460458683, 853059230, 3588468413, 2109824800, 4110044209, 3779347292, 99838512, 3676887858, 3880163260, 3645895150, 38427798],
    (515311124, 3466425170, 312469102, 1009509750, 763703050, 1291628333, 2420735467, 4180271151))"
  by (simp add: sha_eval)

lemma outer_msg_3:
  "foldl sha_step ([402395081, 1830130493, 3862425692, 584740121, 2853059819, 2460458683, 853059230, 3588468413, 2109824800, 4110044209, 3779347292, 99838512, 3676887858, 3880163260, 3645895150, 38427798],
      (515311124, 3466425170, 312469102, 1009509750, 763703050, 1291628333, 2420735467, 4180271151))
    [2554220882, 2821834349, 2952996808, 3210313671, 3336571891, 3584528711, 113926993, 338241895] =
   ([2109824800, 4110044209, 3779347292, 99838512, 3676887858, 3880163260, 3645895150, 38427798, 665518704, 223400698, 2063862331, 3193146600, 2558017738, 928486865, 3895839817, 1316605947],
    (3328259734, 1600206791, 2688235207, 119212554, 674382064, 2689343944, 1761335970, 2911272507))"
  by (simp add: sha_eval)

lemma outer_msg_4:
  "foldl sha_step ([2109824800, 4110044209, 3779347292, 99838512, 3676887858, 3880163260, 3645895150, 38427798, 665518704, 223400698, 2063862331, 3193146600, 2558017738, 928486865, 3895839817, 1316605947],
      (3328259734, 1600206791, 2688235207, 119212554, 674382064, 2689343944, 1761335970, 2911272507))
    [666307205, 773529912, 1294757372, 1396182291, 1695183700, 1986661051, 2177026350, 2456956037] =
   ([665518704, 223400698, 2063862331, 3193146600, 2558017738, 928486865, 3895839817, 1316605947, 3643061929, 55369640, 663288269, 3668802060, 924888087, 483301615, 649516801, 2667753783],
    (2285086395, 2004052574, 2989235301, 45143795, 3314879522, 2504649323, 1473982902, 15971942))"
  by (simp add: sha_eval)

lemma outer_msg_5:
  "foldl sha_step ([665518704, 223400698, 2063862331, 3193146600, 2558017738, 928486865, 3895839817, 1316605947, 3643061929, 55369640, 663288269, 3668802060, 924888087, 483301615, 649516801, 2667753783],
      (2285086395, 2004052574, 2989235301, 45143795, 3314879522, 2504649323, 1473982902, 15971942))
    [2730485921, 2820302411, 3259730800, 3345764771, 3516065817, 3600352804, 4094571909, 275423344] =
   ([3643061929, 55369640, 663288269, 3668802060, 924888087, 483301615, 649516801, 2667753783, 2641310974, 3196920102, 4161160238, 3222913892, 3789786255, 901911405, 3419671468, 2633759687],
    (3367981224, 3925774219, 3500796917, 426982944, 3104195732, 246799306, 154616935, 2586544843))"
  by (simp add: sha_eval)

lemma outer_msg_6:
  "foldl sha_step ([3643061929, 55369640, 663288269, 3668802060, 924888087, 483301615, 649516801, 2667753783, 2641310974, 3196920102, 4161160238, 3222913892, 3789786255, 901911405, 3419671468, 2633759687],
      (3367981224, 3925774219, 3500796917, 426982944, 3104195732, 246799306, 154616935, 2586544843))
    [430227734, 506948616, 659060556, 883997877, 958139571, 1322822218, 1537002063, 1747873779] =
   ([2641310974, 3196920102, 4161160238, 3222913892, 3789786255, 901911405, 3419671468, 2633759687, 2210915322, 517762586, 1370054834, 2062195547, 2228834652, 3134655500, 384527343, 2921116880],
    (3626652680, 2093675010, 4292718816, 2071384977, 837543042, 3350972676, 3872458219, 3284516014))"
  by (simp add: sha_eval)

lemma outer_msg_7:
  "foldl sha_step ([2641310974, 3196920102, 4161160238, 3222913892, 3789786255, 901911405, 3419671468, 2633759687, 2210915322, 517762586, 1370054834, 2062195547, 2228834652, 3134655500, 384527343, 2921116880],
      (3626652680, 2093675010, 4292718816, 2071384977, 837543042, 3350972676, 3872458219, 3284516014))
    [1955562222, 2024104815, 2227730452, 2361852424, 2428436474, 2756734187, 3204031479, 3329325298] =
   ([2210915322, 517762586, 1370054834, 2062195547, 2228834652, 3134655500, 384527343, 2921116880, 2814412879, 2970337732, 1767043759, 3200643076, 467349781, 3571520697, 3673622663, 188563464],
    (51604528, 642288662, 3253866020, 702740694, 2200278218, 3883996846, 3985186315, 1536686540))"
  by (simp add: sha_eval)

lemma outer_msg:
  "sha_add (594006887, 534343563, 2882424653, 4239323749, 3164187609, 3293907652, 1959486309, 3102667110)
     (snd (foldl sha_step ([561709385, 282997344, 1384469180, 1694980817, 1025231167, 1248797200, 1015399350, 19130647, 2147483648, 0, 0, 0, 0, 0, 0, 768], (594006887, 534343563, 2882424653, 4239323749, 3164187609, 3293907652, 1959486309, 3102667110)) sha_K)) =
   (645611415, 1176632225, 1841323377, 647097147, 1069498531, 2882937202, 1649705328, 344386354)"
  by (simp only: sha_K_split foldl_append outer_msg_0 outer_msg_1 outer_msg_2 outer_msg_3 outer_msg_4 outer_msg_5 outer_msg_6 outer_msg_7 snd_conv) simp

section \<open>The digest\<close>

lemma inner_words:
  "map be_words (sha_blocks (sha_pad (map (\<lambda>b. b XOR 0x36) (demo_server_seed @ replicate 32 0)
      @ utf8 (demo_client_seed @ '':1'')))) =
   [[909587509, 842215473, 1044331581, 976959545, 640099365, 572727329, 774843437, 707471401, 909522486, 909522486, 909522486, 909522486, 909522486, 909522486, 909522486, 909522486],
    [808464689, 842150707, 875836725, 909522743, 943208761, 1633772130, 1667458148, 1701144166, 976322560, 0, 0, 0, 0, 0, 0, 784]]"
  by code_simp

lemma inner_digest:
  "sha_digest (561709385, 282997344, 1384469180, 1694980817, 1025231167, 1248797200, 1015399350, 19130647) =
   [33, 123, 1, 73, 16, 222, 50, 96, 82, 133, 82, 188, 101, 7, 90, 209, 61, 27, 201, 63, 74, 111, 34, 16, 60, 133, 195, 182, 1, 35, 233, 23]"
  by code_simp

lemma outer_words:
  "map be_words (sha_blocks (sha_pad (map (\<lambda>b. b XOR 0x5c) (demo_server_seed @ replicate 32 0)
      @ [33, 123, 1, 73, 16, 222, 50, 96, 82, 133, 82, 188, 101, 7, 90, 209, 61, 27, 201, 63, 74, 111, 34, 16, 60, 133, 195, 182, 1, 35, 233, 23]))) =
   [[1549622879, 1482250843, 1414878807, 1347506771, 1280134735, 1212762699, 1145390663, 1078018627, 1549556828, 1549556828, 1549556828, 1549556828, 1549556828, 1549556828, 1549556828, 1549556828],
    [561709385, 282997344, 1384469180, 1694980817, 1025231167, 1248797200, 1015399350, 19130647, 2147483648, 0, 0, 0, 0, 0, 0, 768]]"
  by code_simp

lemma sha256_words:
  "map be_words (sha_blocks (sha_pad m)) = [w1, w2] \<Longrightarrow>
     sha256 m = sha_digest (sha_add (sha_add sha_init (snd (foldl sha_step (w1, sha_init) sha_K)))
       (snd (foldl sha_step (w2, sha_add sha_init (snd (foldl sha_step (w1, sha_init) sha_K))) sha_K)))"
  by (auto simp: sha256_def sha_block_def)

lemma demo_inner:
  "sha256 (map (\<lambda>b. b XOR 0x36) (demo_server_seed @ replicate 32 0)
      @ utf8 (demo_client_seed @ '':1'')) =
   [33, 123, 1, 73, 16, 222, 50, 96, 82, 133, 82, 188, 101, 7, 90, 209, 61, 27, 201, 63, 74, 111, 34, 16, 60, 133, 195, 182, 1, 35, 233, 23]"
  unfolding sha256_words [OF inner_words] sha_init_def inner_key inner_msg inner_digest ..

lemma demo_digest:
  "hmac_sha256 demo_server_seed (utf8 (demo_client_seed @ '':1'')) =
   sha_digest (645611415, 1176632225, 1841323377, 647097147, 1069498531, 2882937202, 1649705328, 344386354)"
proof -
  have len: "length demo_server_seed = 32" by (simp add: demo_server_seed_def)
  have "sha256 (map (\<lambda>b. b XOR 0x5c) (demo_server_seed @ replicate 32 0) @ [33, 123, 1, 73, 16, 222, 50, 96, 82, 133, 82, 188, 101, 7, 90, 209, 61, 27, 201, 63, 74, 111, 34, 16, 60, 133, 195, 182, 1, 35, 233, 23]) =
        sha_digest (645611415, 1176632225, 1841323377, 647097147, 1069498531, 2882937202, 1649705328, 344386354)"
    unfolding sha256_words [OF outer_words] sha_init_def outer_key outer_msg ..
  then show ?thesis
    unfolding hmac_sha256_def by (simp add: Let_def len demo_inner del: map_append replicate.simps)
qed

end
