(* ===== verification/Money.thy ===== *)
theory Money
  imports Prelude
begin

text \<open>
  \<open>app/domain/money.py\<close>: amounts in minor units with a currency. The constructor refuses
  what is not an \<open>int\<close> (a \<open>bool\<close> included), and every binary operation refuses two
  currencies. On amounts of one currency the operations are those of the integers, which the
  locale \<open>money_ops\<close> states as the contract the rest of the program relies on.
\<close>

section \<open>The values Python passes\<close>

text \<open>
  The constructor and \<open>__mul__\<close> test the dynamic type of their argument. \<open>PyOther\<close> stands
  for a value of any other type (a float, a string), by its \<open>repr\<close>.
\<close>

datatype pyval = PyInt int | PyBool bool | PyOther string

section \<open>Money\<close>

record money =
  minor :: int
  currency :: string

definition mk_money :: "pyval \<Rightarrow> string \<Rightarrow> exn + money" where
  "mk_money v c = (case v of PyInt n \<Rightarrow> Inr \<lparr>minor = n, currency = c\<rparr> | _ \<Rightarrow> Inl TypeError)"

definition EUR :: string where
  "EUR = ''EUR''"

definition money_zero :: "string \<Rightarrow> exn + money" where
  "money_zero c = mk_money (PyInt 0) c"

definition check_same_currency :: "money \<Rightarrow> money \<Rightarrow> exn + unit" where
  "check_same_currency a b = (if currency a \<noteq> currency b then Inl ValueError else Inr ())"

definition money_add :: "money \<Rightarrow> money \<Rightarrow> exn + money" where
  "money_add a b = sbind (check_same_currency a b)
     (\<lambda>_. mk_money (PyInt (minor a + minor b)) (currency a))"

definition money_sub :: "money \<Rightarrow> money \<Rightarrow> exn + money" where
  "money_sub a b = sbind (check_same_currency a b)
     (\<lambda>_. mk_money (PyInt (minor a - minor b)) (currency a))"

definition money_mul :: "money \<Rightarrow> pyval \<Rightarrow> exn + money" where
  "money_mul a v = (case v of
      PyInt k \<Rightarrow> mk_money (PyInt (minor a * k)) (currency a)
    | _ \<Rightarrow> Inl TypeError)"

definition money_lt :: "money \<Rightarrow> money \<Rightarrow> exn + bool" where
  "money_lt a b = sbind (check_same_currency a b) (\<lambda>_. Inr (minor a < minor b))"

text \<open>
  \<open>@total_ordering\<close> derives the other comparisons from \<open>__lt__\<close> and the dataclass's
  \<open>__eq__\<close>: \<open>a <= b\<close> is \<open>a < b or a == b\<close>, \<open>a > b\<close> is \<open>not a < b and a != b\<close>,
  \<open>a >= b\<close> is \<open>not a < b\<close>.
\<close>

definition money_le :: "money \<Rightarrow> money \<Rightarrow> exn + bool" where
  "money_le a b = sbind (money_lt a b) (\<lambda>l. Inr (l \<or> a = b))"

definition money_gt :: "money \<Rightarrow> money \<Rightarrow> exn + bool" where
  "money_gt a b = sbind (money_lt a b) (\<lambda>l. Inr (\<not> l \<and> a \<noteq> b))"

definition money_ge :: "money \<Rightarrow> money \<Rightarrow> exn + bool" where
  "money_ge a b = sbind (money_lt a b) (\<lambda>l. Inr (\<not> l))"

text \<open>The amount in euros that the services build from a plain integer, \<open>Money(n)\<close>.\<close>

definition eur :: "int \<Rightarrow> money" where
  "eur n = \<lparr>minor = n, currency = EUR\<rparr>"

lemma mk_money_PyInt [simp]: "mk_money (PyInt n) c = Inr \<lparr>minor = n, currency = c\<rparr>"
  by (simp add: mk_money_def)

lemma mk_money_Inr_iff: "mk_money v c = Inr m \<longleftrightarrow> (\<exists>n. v = PyInt n \<and> m = \<lparr>minor = n, currency = c\<rparr>)"
  by (auto simp: mk_money_def split: pyval.splits)

lemma eur_simps [simp]: "minor (eur n) = n" "currency (eur n) = EUR"
  by (simp_all add: eur_def)

lemma eur_inject [simp]: "eur m = eur n \<longleftrightarrow> m = n"
  by (simp add: eur_def)

lemma check_same_currency_eq [simp]: "currency a = currency b \<Longrightarrow> check_same_currency a b = Inr ()"
  by (simp add: check_same_currency_def)

lemma check_same_currency_neq [simp]:
  "currency a \<noteq> currency b \<Longrightarrow> check_same_currency a b = Inl ValueError"
  by (simp add: check_same_currency_def)

lemmas money_defs = money_zero_def money_add_def money_sub_def money_mul_def
  money_lt_def money_le_def money_gt_def money_ge_def

section \<open>The contract of an amount type\<close>

text \<open>
  What a client of an amount type relies on: on amounts of one unit the operations follow
  the integers; across units every operation raises \<open>ValueError\<close> and no amount results.
\<close>

locale money_ops =
  fixes add :: "'m \<Rightarrow> 'm \<Rightarrow> exn + 'm"
    and sub :: "'m \<Rightarrow> 'm \<Rightarrow> exn + 'm"
    and lt :: "'m \<Rightarrow> 'm \<Rightarrow> exn + bool"
    and amount :: "'m \<Rightarrow> int"
    and unit_of :: "'m \<Rightarrow> 'u"
  assumes add_ok: "unit_of a = unit_of b \<Longrightarrow>
      \<exists>c. add a b = Inr c \<and> amount c = amount a + amount b \<and> unit_of c = unit_of a"
    and sub_ok: "unit_of a = unit_of b \<Longrightarrow>
      \<exists>c. sub a b = Inr c \<and> amount c = amount a - amount b \<and> unit_of c = unit_of a"
    and lt_ok: "unit_of a = unit_of b \<Longrightarrow> lt a b = Inr (amount a < amount b)"
    and mixed: "unit_of a \<noteq> unit_of b \<Longrightarrow>
      add a b = Inl ValueError \<and> sub a b = Inl ValueError \<and> lt a b = Inl ValueError"
    and ext: "amount a = amount b \<Longrightarrow> unit_of a = unit_of b \<Longrightarrow> a = b"
begin

lemma add_sub_cancel:
  assumes "add a b = Inr c"
  shows "sub c b = Inr a"
proof -
  have u: "unit_of a = unit_of b" using assms mixed [of a b] by auto
  then have c: "amount c = amount a + amount b" "unit_of c = unit_of b"
    using add_ok [OF u] assms by auto
  then obtain d where "sub c b = Inr d" "amount d = amount a" "unit_of d = unit_of a"
    using sub_ok [of c b] u by auto
  then show ?thesis using ext [of d a] by simp
qed

lemma lt_trichotomy:
  assumes "unit_of a = unit_of b"
  shows "lt a b = Inr True \<or> lt b a = Inr True \<or> a = b"
  using lt_ok [OF assms] lt_ok [OF assms [symmetric]] ext [OF _ assms]
  by (cases "amount a" "amount b" rule: linorder_cases) auto

lemma add_commute: "add a b = Inr c \<Longrightarrow> add b a = Inr c"
  using add_ok [of a b] add_ok [of b a] mixed [of a b] ext
  by (cases "unit_of a = unit_of b") (fastforce simp: add.commute)+

end

interpretation euro_money: money_ops money_add money_sub money_lt minor currency
  by unfold_locales (auto simp: money_defs)

section \<open>Properties\<close>

text \<open>
  adding and then subtracting the same amount gives the amount back, whenever the
  addition is defined; it is defined for one currency only.
\<close>

theorem money_add_sub_roundtrip:
  assumes "money_add a b = Inr c"
  shows "money_sub c b = Inr a \<and> currency a = currency b"
proof -
  have "money_sub c b = Inr a"
    using assms by (rule euro_money.add_sub_cancel)
  moreover have "currency a = currency b"
    using assms euro_money.mixed [of a b] by auto
  ultimately show ?thesis ..
qed

theorem money_add_sub_roundtrip_witness:
  "money_sub (eur 150) (eur 50) = Inr (eur 100) \<and> currency (eur 100) = currency (eur 50)"
proof -
  have "money_add (eur 100) (eur 50) = Inr (eur 150)"
    by (simp add: money_add_def eur_def)
  then show ?thesis by (rule money_add_sub_roundtrip)
qed

end
