(* ===== verification/Roulette_Table.thy ===== *)
theory Roulette_Table
  imports Prelude
begin

text \<open>
  \<open>app/domain/roulette/table.py\<close>: the wheel's colours, the 3 x 12 grid and the figures that
  are derived from it, the thirteen bet types with their coverage and payout ratio. A
  \<open>frozenset[int]\<close> is an \<open>int set\<close>, a list of them a list, a dictionary with integer keys an
  association list.
\<close>

section \<open>Constants and the grid\<close>

definition POCKET_COUNT :: int where
  "POCKET_COUNT = 37"

definition RED_NUMBERS :: "int set" where
  "RED_NUMBERS = {1, 3, 5, 7, 9, 12, 14, 16, 18, 19, 21, 23, 25, 27, 30, 32, 34, 36}"

definition BLACK_NUMBERS :: "int set" where
  "BLACK_NUMBERS = set (py_range 1 37) - RED_NUMBERS"

definition ROWS :: int where
  "ROWS = 3"

definition COLS :: int where
  "COLS = 12"

definition position :: "int \<Rightarrow> int \<times> int" where
  "position number = (let row = (number - 1) mod ROWS + 1; col = (number - 1) div ROWS + 1 in (row, col))"

definition number_at :: "int \<Rightarrow> int \<Rightarrow> int" where
  "number_at row col = (col - 1) * ROWS + row"

section \<open>Bet types\<close>

datatype bet_type =
    STRAIGHT | SPLIT | STREET | CORNER | LINE | DOZEN | COLUMN
  | RED | BLACK | ODD | EVEN | HIGH | LOW

text \<open>The values of the string enumeration, as stored and as sent.\<close>

fun bet_type_value :: "bet_type \<Rightarrow> string" where
  "bet_type_value STRAIGHT = ''straight''"
| "bet_type_value SPLIT = ''split''"
| "bet_type_value STREET = ''street''"
| "bet_type_value CORNER = ''corner''"
| "bet_type_value LINE = ''line''"
| "bet_type_value DOZEN = ''dozen''"
| "bet_type_value COLUMN = ''column''"
| "bet_type_value RED = ''red''"
| "bet_type_value BLACK = ''black''"
| "bet_type_value ODD = ''odd''"
| "bet_type_value EVEN = ''even''"
| "bet_type_value HIGH = ''high''"
| "bet_type_value LOW = ''low''"

text \<open>The type is enumerable, so statements about all bet types evaluate.\<close>

definition all_bet_types :: "bet_type list" where
  "all_bet_types =
     [STRAIGHT, SPLIT, STREET, CORNER, LINE, DOZEN, COLUMN, RED, BLACK, ODD, EVEN, HIGH, LOW]"

lemma in_all_bet_types [simp]: "t \<in> set all_bet_types"
  by (cases t) (simp_all add: all_bet_types_def)

lemma set_all_bet_types: "set all_bet_types = UNIV"
  by auto

instantiation bet_type :: enum
begin

definition enum_bet_type :: "bet_type list" where
  "enum_bet_type = all_bet_types"

definition enum_all_bet_type :: "(bet_type \<Rightarrow> bool) \<Rightarrow> bool" where
  "enum_all_bet_type P = list_all P all_bet_types"

definition enum_ex_bet_type :: "(bet_type \<Rightarrow> bool) \<Rightarrow> bool" where
  "enum_ex_bet_type P = list_ex P all_bet_types"

instance
proof
  show "distinct (enum_class.enum :: bet_type list)"
    by (simp add: enum_bet_type_def all_bet_types_def)
qed (simp_all only: enum_bet_type_def enum_all_bet_type_def enum_ex_bet_type_def
    list_all_iff list_ex_iff set_all_bet_types)

end

record bet_spec =
  coverage :: nat
  payout_ratio :: int

fun BET_SPECS :: "bet_type \<Rightarrow> bet_spec" where
  "BET_SPECS STRAIGHT = \<lparr>coverage = 1, payout_ratio = 35\<rparr>"
| "BET_SPECS SPLIT = \<lparr>coverage = 2, payout_ratio = 17\<rparr>"
| "BET_SPECS STREET = \<lparr>coverage = 3, payout_ratio = 11\<rparr>"
| "BET_SPECS CORNER = \<lparr>coverage = 4, payout_ratio = 8\<rparr>"
| "BET_SPECS LINE = \<lparr>coverage = 6, payout_ratio = 5\<rparr>"
| "BET_SPECS DOZEN = \<lparr>coverage = 12, payout_ratio = 2\<rparr>"
| "BET_SPECS COLUMN = \<lparr>coverage = 12, payout_ratio = 2\<rparr>"
| "BET_SPECS RED = \<lparr>coverage = 18, payout_ratio = 1\<rparr>"
| "BET_SPECS BLACK = \<lparr>coverage = 18, payout_ratio = 1\<rparr>"
| "BET_SPECS ODD = \<lparr>coverage = 18, payout_ratio = 1\<rparr>"
| "BET_SPECS EVEN = \<lparr>coverage = 18, payout_ratio = 1\<rparr>"
| "BET_SPECS HIGH = \<lparr>coverage = 18, payout_ratio = 1\<rparr>"
| "BET_SPECS LOW = \<lparr>coverage = 18, payout_ratio = 1\<rparr>"

section \<open>Figures of the grid\<close>

definition streets :: "int set list" where
  "streets = map (\<lambda>c. set (map (\<lambda>r. number_at r c) (py_range 1 (ROWS + 1)))) (py_range 1 (COLS + 1))"

definition columns :: "int set list" where
  "columns = map (\<lambda>r. set (map (\<lambda>c. number_at r c) (py_range 1 (COLS + 1)))) (py_range 1 (ROWS + 1))"

definition corners :: "int set list" where
  "corners = concat (map (\<lambda>c. map (\<lambda>r.
      {number_at r c, number_at (r + 1) c, number_at r (c + 1), number_at (r + 1) (c + 1)})
    (py_range 1 ROWS)) (py_range 1 COLS))"

definition lines' :: "int set list" where
  "lines' = map (\<lambda>c. streets ! c \<union> streets ! (c + 1)) [0..<length streets - 1]"

definition splits :: "int set list" where
  "splits = concat (map (\<lambda>n. let (r, c) = position n in
      (if c < COLS then [{n, number_at r (c + 1)}] else [])
      @ (if r < ROWS then [{n, number_at (r + 1) c}] else [])) (py_range 1 37))"

definition VALID_STREETS :: "int set list" where "VALID_STREETS = streets"
definition VALID_CORNERS :: "int set list" where "VALID_CORNERS = corners"
definition VALID_LINES :: "int set list" where "VALID_LINES = lines'"
definition VALID_SPLITS :: "int set list" where "VALID_SPLITS = splits"

definition DOZEN_BY_INDEX :: "(int \<times> int set) list" where
  "DOZEN_BY_INDEX =
     [(1, set (py_range 1 13)), (2, set (py_range 13 25)), (3, set (py_range 25 37))]"

definition COLUMN_BY_INDEX :: "(int \<times> int set) list" where
  "COLUMN_BY_INDEX = zip (py_range 1 (int (length columns) + 1)) columns"

section \<open>Evaluated tables\<close>

text \<open>The tables as the interpreter builds them at import time, computed once.\<close>

lemma BLACK_NUMBERS_eq:
  "BLACK_NUMBERS = {2, 4, 6, 8, 10, 11, 13, 15, 17, 20, 22, 24, 26, 28, 29, 31, 33, 35}"
  by code_simp

lemma streets_eq:
  "VALID_STREETS = [{1,2,3}, {4,5,6}, {7,8,9}, {10,11,12}, {13,14,15}, {16,17,18},
     {19,20,21}, {22,23,24}, {25,26,27}, {28,29,30}, {31,32,33}, {34,35,36}]"
  by code_simp

lemma lines_eq:
  "VALID_LINES = [{1..6}, {4..9}, {7..12}, {10..15}, {13..18}, {16..21},
     {19..24}, {22..27}, {25..30}, {28..33}, {31..36}]"
  by code_simp

lemma columns_eq:
  "COLUMN_BY_INDEX =
     [(1, {1,4,7,10,13,16,19,22,25,28,31,34}), (2, {2,5,8,11,14,17,20,23,26,29,32,35}),
      (3, {3,6,9,12,15,18,21,24,27,30,33,36})]"
  by code_simp

lemma mod_div_three: "0 \<le> x \<Longrightarrow> x < 3 \<Longrightarrow> (x + y * 3) mod 3 = x \<and> (x + y * 3) div 3 = (y::int)"
  by simp

lemma position_number_at:
  assumes "1 \<le> r" "r \<le> ROWS"
  shows "position (number_at r c) = (r, c)"
proof -
  have e: "number_at r c - 1 = (r - 1) + (c - 1) * 3" by (simp add: number_at_def ROWS_def)
  have "(number_at r c - 1) mod 3 = r - 1 \<and> (number_at r c - 1) div 3 = c - 1"
    unfolding e using assms by (intro mod_div_three) (simp_all add: ROWS_def)
  then show ?thesis by (simp add: position_def ROWS_def)
qed

lemma number_at_position: "number_at (fst (position n)) (snd (position n)) = n"
proof -
  have "(n - 1) div 3 * 3 + (n - 1) mod 3 = n - 1" by (rule div_mult_mod_eq)
  then show ?thesis by (simp add: position_def number_at_def ROWS_def Let_def)
qed

lemma position_bounds:
  assumes "1 \<le> n" "n \<le> 36"
  shows "1 \<le> fst (position n) \<and> fst (position n) \<le> ROWS \<and> 1 \<le> snd (position n) \<and> snd (position n) \<le> COLS"
  using assms by (auto simp: position_def ROWS_def COLS_def Let_def)

section \<open>Geometry\<close>

text \<open>
  The specification of the figures: the numbers of some rows and columns of the grid, and
  neighbouring cells. \<open>cells R C\<close> says where a number is printed, not how the code lists it.
\<close>

definition cells :: "int set \<Rightarrow> int set \<Rightarrow> int set" where
  "cells R C = {m. 1 \<le> m \<and> m \<le> 36 \<and> fst (position m) \<in> R \<and> snd (position m) \<in> C}"

definition neighbours :: "int \<Rightarrow> int \<Rightarrow> bool" where
  "neighbours a b \<longleftrightarrow> \<bar>fst (position a) - fst (position b)\<bar> + \<bar>snd (position a) - snd (position b)\<bar> = 1"

lemma number_at_bounds:
  assumes "1 \<le> r" "r \<le> ROWS" "1 \<le> c" "c \<le> COLS"
  shows "1 \<le> number_at r c \<and> number_at r c \<le> 36"
  using assms by (auto simp: number_at_def ROWS_def COLS_def)

lemma number_at_image:
  assumes "R \<subseteq> {1..ROWS}" "C \<subseteq> {1..COLS}"
  shows "(\<lambda>(r, c). number_at r c) ` (R \<times> C) = cells R C"
proof (intro equalityI subsetI)
  fix m assume "m \<in> (\<lambda>(r, c). number_at r c) ` (R \<times> C)"
  then obtain r c where rc: "r \<in> R" "c \<in> C" and m: "m = number_at r c" by auto
  with assms have "1 \<le> r" "r \<le> ROWS" "1 \<le> c" "c \<le> COLS" by auto
  with rc m show "m \<in> cells R C"
    using number_at_bounds [of r c] position_number_at [of r c] by (simp add: cells_def)
next
  fix m assume "m \<in> cells R C"
  then show "m \<in> (\<lambda>(r, c). number_at r c) ` (R \<times> C)"
    using number_at_position [of m] by (force simp: cells_def image_iff)
qed

lemma streets_geometry: "set VALID_STREETS = (\<lambda>c. cells {1..ROWS} {c}) ` {1..COLS}"
proof -
  have "\<And>c. c \<in> {1..COLS} \<Longrightarrow> (\<lambda>r. number_at r c) ` {1..ROWS} = cells {1..ROWS} {c}"
    by (subst number_at_image [symmetric]) (auto simp: image_iff)
  then show ?thesis
    by (auto simp: VALID_STREETS_def streets_def image_iff atLeastLessThanPlusOne_atLeastAtMost_int)
qed

lemma corners_geometry:
  "set VALID_CORNERS = (\<lambda>(r, c). cells {r, r + 1} {c, c + 1}) ` ({1..<ROWS} \<times> {1..<COLS})"
proof -
  have "\<And>r c. r \<in> {1..<ROWS} \<Longrightarrow> c \<in> {1..<COLS} \<Longrightarrow>
      {number_at r c, number_at (r + 1) c, number_at r (c + 1), number_at (r + 1) (c + 1)}
      = cells {r, r + 1} {c, c + 1}"
    by (subst number_at_image [symmetric]) auto
  then show ?thesis
    by (auto simp: VALID_CORNERS_def corners_def image_iff)
qed

lemma small_ranges:
  "py_range 1 (ROWS + 1) = [1, 2, 3]" "py_range 1 4 = [1, 2, 3]"
  by code_simp+

lemma columns_geometry:
  "map_of COLUMN_BY_INDEX i = (if 1 \<le> i \<and> i \<le> 3 then Some (cells {i} {1..COLS}) else None)"
proof -
  have "\<And>r. r \<in> {1..ROWS} \<Longrightarrow> (\<lambda>c. number_at r c) ` {1..<COLS + 1} = cells {r} {1..COLS}"
    by (subst number_at_image [symmetric]) (auto simp: image_iff)
  then have cols: "columns = map (\<lambda>r. cells {r} {1..COLS}) [1, 2, 3]"
    unfolding columns_def by (simp add: small_ranges ROWS_def)
  have "py_range 1 (int (length columns) + 1) = [1, 2, 3]"
    unfolding cols using small_ranges(2) by simp
  then have by_index: "COLUMN_BY_INDEX = map (\<lambda>r. (r, cells {r} {1..COLS})) [1, 2, 3]"
    unfolding COLUMN_BY_INDEX_def by (simp only: cols) simp
  show ?thesis unfolding by_index by auto
qed

lemma lines_geometry: "set VALID_LINES = (\<lambda>c. cells {1..ROWS} {c, c + 1}) ` {1..<COLS}"
proof -
  have len: "length streets = 12" by (simp add: streets_def py_range_def COLS_def)
  have cell: "streets ! i \<union> streets ! (i + 1) = cells {1..ROWS} {int i + 1, int i + 2}"
    if "i < 11" for i
  proof -
    have "streets ! j = (\<lambda>r. number_at r (int j + 1)) ` {1..ROWS}" if "j < 12" for j
      using that by (simp add: streets_def py_range_def COLS_def nth_upto add.commute
          flip: atLeastLessThanPlusOne_atLeastAtMost_int)
    with \<open>i < 11\<close> show ?thesis
      by (subst number_at_image [symmetric]) (auto simp: image_iff COLS_def algebra_simps)
  qed
  have "set VALID_LINES = (\<lambda>i. cells {1..ROWS} {int i + 1, int i + 2}) ` {0..<11}"
    unfolding VALID_LINES_def lines'_def len using cell by (auto simp: image_iff)
  also have "\<dots> = (\<lambda>c. cells {1..ROWS} {c, c + 1}) ` ((\<lambda>i. int i + 1) ` {0..<11})"
    by (simp add: image_image algebra_simps)
  also have "(\<lambda>i. int i + 1) ` {0..<11::nat} = {1..<COLS}"
  proof (intro equalityI subsetI)
    fix c assume "c \<in> {1..<COLS}"
    then show "c \<in> (\<lambda>i. int i + 1) ` {0..<11::nat}"
      by (intro image_eqI [of _ _ "nat (c - 1)"]) (auto simp: COLS_def)
  qed (auto simp: COLS_def)
  finally show ?thesis .
qed

lemma splits_unfold:
  "S \<in> set VALID_SPLITS \<longleftrightarrow> (\<exists>n \<in> {1..<37}.
     snd (position n) < COLS \<and> S = {n, number_at (fst (position n)) (snd (position n) + 1)} \<or>
     fst (position n) < ROWS \<and> S = {n, number_at (fst (position n) + 1) (snd (position n))})"
  unfolding VALID_SPLITS_def splits_def
  by (auto simp: Let_def case_prod_beta)

lemma splits_geometry:
  "S \<in> set VALID_SPLITS \<longleftrightarrow>
     (\<exists>a b. 1 \<le> a \<and> a \<le> 36 \<and> 1 \<le> b \<and> b \<le> 36 \<and> neighbours a b \<and> S = {a, b})"
proof
  assume "S \<in> set VALID_SPLITS"
  then obtain n r c where n: "1 \<le> n" "n \<le> 36" "position n = (r, c)"
    and S: "c < COLS \<and> S = {n, number_at r (c + 1)} \<or> r < ROWS \<and> S = {n, number_at (r + 1) c}"
    unfolding splits_unfold by (auto simp: prod_eq_iff)
  have rc: "1 \<le> r" "r \<le> ROWS" "1 \<le> c" "c \<le> COLS"
    using position_bounds [OF n(1,2)] n(3) by auto
  show "\<exists>a b. 1 \<le> a \<and> a \<le> 36 \<and> 1 \<le> b \<and> b \<le> 36 \<and> neighbours a b \<and> S = {a, b}"
    using S
  proof
    assume "c < COLS \<and> S = {n, number_at r (c + 1)}"
    then show ?thesis
      using n rc number_at_bounds [of r "c + 1"] position_number_at [of r "c + 1"]
      by (intro exI [of _ n] exI [of _ "number_at r (c + 1)"]) (auto simp: neighbours_def)
  next
    assume "r < ROWS \<and> S = {n, number_at (r + 1) c}"
    then show ?thesis
      using n rc number_at_bounds [of "r + 1" c] position_number_at [of "r + 1" c]
      by (intro exI [of _ n] exI [of _ "number_at (r + 1) c"]) (auto simp: neighbours_def)
  qed
next
  have wlog: "{a, b} \<in> set VALID_SPLITS"
    if "1 \<le> a" "a \<le> 36" "1 \<le> b" "b \<le> 36" "position a = (r, c)"
      and "position b = (r, c + 1) \<or> position b = (r + 1, c)" for a b r c
    using that position_bounds [of b] number_at_position [of b]
    unfolding splits_unfold by (intro bexI [of _ a]) auto
  assume "\<exists>a b. 1 \<le> a \<and> a \<le> 36 \<and> 1 \<le> b \<and> b \<le> 36 \<and> neighbours a b \<and> S = {a, b}"
  then obtain a b where ab: "1 \<le> a" "a \<le> 36" "1 \<le> b" "b \<le> 36" "neighbours a b" "S = {a, b}"
    by blast
  obtain r c r' c' where p: "position a = (r, c)" "position b = (r', c')" by force
  with ab(5) have "(r' = r \<and> c' = c + 1) \<or> (r' = r + 1 \<and> c' = c)
      \<or> (r = r' \<and> c = c' + 1) \<or> (r = r' + 1 \<and> c = c')"
    by (auto simp: neighbours_def)
  then show "S \<in> set VALID_SPLITS"
    using wlog [OF ab(1-4) p(1)] wlog [OF ab(3,4,1,2) p(2)] p ab(6)
    by (auto simp: insert_commute)
qed

section \<open>Properties\<close>

text \<open>
  C18: the generated figures are exactly the geometric ones. Cells are numbers 1 to 36 placed by
  \<open>position\<close>: a street is a grid column, a line two adjacent streets, a corner a two by two
  block, a split two cells that share a side, and a betting column a grid row.
\<close>

theorem table_geometry:
  "set VALID_STREETS = (\<lambda>c. cells {1..ROWS} {c}) ` {1..COLS}
   \<and> set VALID_LINES = (\<lambda>c. cells {1..ROWS} {c, c + 1}) ` {1..<COLS}
   \<and> set VALID_CORNERS = (\<lambda>(r, c). cells {r, r + 1} {c, c + 1}) ` ({1..<ROWS} \<times> {1..<COLS})
   \<and> set VALID_SPLITS = {{a, b} | a b. 1 \<le> a \<and> a \<le> 36 \<and> 1 \<le> b \<and> b \<le> 36 \<and> neighbours a b}
   \<and> map_of COLUMN_BY_INDEX = (\<lambda>i. if 1 \<le> i \<and> i \<le> ROWS then Some (cells {i} {1..COLS}) else None)"
proof (intro conjI)
  show "set VALID_SPLITS = {{a, b} | a b. 1 \<le> a \<and> a \<le> 36 \<and> 1 \<le> b \<and> b \<le> 36 \<and> neighbours a b}"
    using splits_geometry by blast
  show "map_of COLUMN_BY_INDEX = (\<lambda>i. if 1 \<le> i \<and> i \<le> ROWS then Some (cells {i} {1..COLS}) else None)"
    by (rule ext) (simp only: columns_geometry ROWS_def)
qed (fact streets_geometry lines_geometry corners_geometry)+

end
