(* ===== verification/Roulette_Bets.thy ===== *)
theory Roulette_Bets
  imports Money Roulette_Table
begin

text \<open>
  \<open>app/domain/roulette/bets.py\<close>: what a bet covers and when it is accepted. A selection is
  a dictionary from strings to an integer or a list of integers, kept as an association list.
\<close>

section \<open>Selections and bets\<close>

datatype sel_value = SelInt int | SelList "int list"

type_synonym selection = "(string \<times> sel_value) list"

record placed_bet =
  bet_type :: bet_type
  selection :: selection
  stake :: money

section \<open>What a bet type covers\<close>

fun FIXED_SELECTIONS :: "bet_type \<Rightarrow> int set option" where
  "FIXED_SELECTIONS RED = Some RED_NUMBERS"
| "FIXED_SELECTIONS BLACK = Some BLACK_NUMBERS"
| "FIXED_SELECTIONS ODD = Some (set (filter (\<lambda>n. n mod 2 = 1) (py_range 1 37)))"
| "FIXED_SELECTIONS EVEN = Some (set (map int (range_step 2 37 2)))"
| "FIXED_SELECTIONS HIGH = Some (set (py_range 19 37))"
| "FIXED_SELECTIONS LOW = Some (set (py_range 1 19))"
| "FIXED_SELECTIONS _ = None"

fun NUMBERS_SELECTIONS :: "bet_type \<Rightarrow> int set list option" where
  "NUMBERS_SELECTIONS STRAIGHT = Some (map (\<lambda>n. {n}) (py_range 0 37))"
| "NUMBERS_SELECTIONS SPLIT = Some VALID_SPLITS"
| "NUMBERS_SELECTIONS STREET = Some VALID_STREETS"
| "NUMBERS_SELECTIONS CORNER = Some VALID_CORNERS"
| "NUMBERS_SELECTIONS LINE = Some VALID_LINES"
| "NUMBERS_SELECTIONS _ = None"

fun INDEX_SELECTIONS :: "bet_type \<Rightarrow> (int \<times> int set) list option" where
  "INDEX_SELECTIONS DOZEN = Some DOZEN_BY_INDEX"
| "INDEX_SELECTIONS COLUMN = Some COLUMN_BY_INDEX"
| "INDEX_SELECTIONS _ = None"

definition covered_numbers :: "bet_type \<Rightarrow> selection \<Rightarrow> exn + int set" where
  "covered_numbers bt sel =
     (case FIXED_SELECTIONS bt of
        Some ns \<Rightarrow> if sel \<noteq> [] then Inl InvalidBetError else Inr ns
      | None \<Rightarrow>
     (case NUMBERS_SELECTIONS bt of
        Some figures \<Rightarrow>
          (case map_of sel ''numbers'' of
             Some (SelList numbers) \<Rightarrow>
               (let candidate = set numbers in
                if candidate \<in> set figures then Inr candidate else Inl InvalidBetError)
           | _ \<Rightarrow> Inl InvalidBetError)
      | None \<Rightarrow>
     (case INDEX_SELECTIONS bt of
        Some by_index \<Rightarrow>
          (case map_of sel ''index'' of
             Some (SelInt index) \<Rightarrow>
               (case map_of by_index index of
                  Some ns \<Rightarrow> Inr ns
                | None \<Rightarrow> Inl InvalidBetError)
           | _ \<Rightarrow> Inl InvalidBetError)
      | None \<Rightarrow> Inl InvalidBetError)))"

definition validate_bet :: "placed_bet \<Rightarrow> money \<Rightarrow> money \<Rightarrow> exn + unit" where
  "validate_bet b min_bet max_bet =
     (if currency (stake b) \<noteq> currency min_bet then Inl InvalidBetError
      else sbind (money_lt (stake b) min_bet) (\<lambda>low.
           if low then Inl InvalidBetError
           else sbind (money_lt max_bet (stake b)) (\<lambda>high.
                if high then Inl InvalidBetError
                else sbind (covered_numbers (bet_type b) (selection b)) (\<lambda>_. Inr ()))))"

section \<open>The figures a bet type accepts\<close>

text \<open>Every set a bet of a given type can cover, in one list.\<close>

definition figures_of :: "bet_type \<Rightarrow> int set list" where
  "figures_of bt =
     (case FIXED_SELECTIONS bt of Some ns \<Rightarrow> [ns] | None \<Rightarrow>
      case NUMBERS_SELECTIONS bt of Some fs \<Rightarrow> fs | None \<Rightarrow>
      case INDEX_SELECTIONS bt of Some m \<Rightarrow> map snd m | None \<Rightarrow> [])"

lemma covered_numbers_figure: "covered_numbers bt sel = Inr S \<Longrightarrow> S \<in> set (figures_of bt)"
  by (auto simp: covered_numbers_def figures_of_def Let_def dest!: map_of_SomeD
      split: option.splits sel_value.splits if_splits) force

lemma covered_numbers_error: "covered_numbers bt sel = Inl e \<Longrightarrow> e = InvalidBetError"
  by (auto simp: covered_numbers_def Let_def split: option.splits sel_value.splits if_splits)

lemma figures_within_wheel:
  "list_all (\<lambda>bt. list_all (\<lambda>S. S \<subseteq> {0..36} \<and> card S = coverage (BET_SPECS bt)) (figures_of bt))
     all_bet_types"
  by code_simp

lemma figure_coverage:
  "S \<in> set (figures_of bt) \<Longrightarrow> S \<subseteq> {0..36} \<and> card S = coverage (BET_SPECS bt)"
  using figures_within_wheel by (auto simp: list_all_iff)

lemma payout_balance: "int (coverage (BET_SPECS bt)) * (payout_ratio (BET_SPECS bt) + 1) = 36"
  by (cases bt) simp_all

text \<open>Acceptance in one condition, used by the betting service.\<close>

lemma validate_bet_euro_iff:
  "validate_bet b (eur lo) (eur hi) = Inr () \<longleftrightarrow>
     currency (stake b) = EUR \<and> lo \<le> minor (stake b) \<and> minor (stake b) \<le> hi
     \<and> (\<exists>S. covered_numbers (bet_type b) (selection b) = Inr S)"
  by (auto simp: validate_bet_def money_lt_def sbind_Inr_iff)

lemma validate_bet_euro_error:
  "validate_bet b (eur lo) (eur hi) = Inl e \<Longrightarrow> e = InvalidBetError"
  by (cases "covered_numbers (bet_type b) (selection b)")
    (auto simp: validate_bet_def money_lt_def dest: covered_numbers_error split: if_splits)

section \<open>Properties\<close>

text \<open>
  C19: a bet is worth the same whatever its type: every accepted selection covers a set of
  pockets of the wheel whose size times the payout ratio plus one is 36, and the only exception
  a refused selection raises is \<open>InvalidBetError\<close>.
\<close>

theorem accepted_selection_priced:
  "case covered_numbers bt sel of
     Inl e \<Rightarrow> e = InvalidBetError
   | Inr S \<Rightarrow> S \<subseteq> {0..<POCKET_COUNT} \<and> int (card S) * (payout_ratio (BET_SPECS bt) + 1) = 36"
proof (cases "covered_numbers bt sel")
  case (Inl e)
  then show ?thesis using covered_numbers_error by simp
next
  case (Inr S)
  from figure_coverage [OF covered_numbers_figure [OF this]] payout_balance [of bt]
  have "S \<subseteq> {0..36}" "int (card S) * (payout_ratio (BET_SPECS bt) + 1) = 36" by auto
  with Inr show ?thesis by (auto simp: POCKET_COUNT_def)
qed

text \<open>
  at a table in euro a bet is accepted exactly when its stake is in euro and within the
  limits, both included, and its selection describes a figure; any other bet raises
  \<open>InvalidBetError\<close>.
\<close>

theorem validate_bet_spec:
  "validate_bet b (eur lo) (eur hi) =
     (if currency (stake b) = EUR \<and> lo \<le> minor (stake b) \<and> minor (stake b) \<le> hi
         \<and> (\<exists>S. covered_numbers (bet_type b) (selection b) = Inr S)
      then Inr () else Inl InvalidBetError)"
proof (cases "validate_bet b (eur lo) (eur hi)")
  case (Inl e)
  then have "\<not> validate_bet b (eur lo) (eur hi) = Inr ()" by simp
  with Inl validate_bet_euro_error [OF Inl] show ?thesis
    unfolding validate_bet_euro_iff by simp
next
  case (Inr u)
  then have "validate_bet b (eur lo) (eur hi) = Inr ()" by simp
  with validate_bet_euro_iff [of b lo hi] show ?thesis by simp
qed

end
