(* ===== verification/Fair_Outcome.thy ===== *)
theory Fair_Outcome
  imports Sha256
begin

text \<open>
  \<open>app/domain/fairness.py\<close>: the commitment to a server seed and the derivation of an
  outcome from HMAC-SHA256 by rejection sampling. The \<open>while True\<close> loop is a partial
  function, \<open>None\<close> when it never returns: whether it returns is decided by the digests, and
  the theorems say exactly when it does and what it returns.
\<close>

section \<open>Seeds and messages\<close>

definition SEED_BYTES :: nat where "SEED_BYTES = 32"
definition CHUNK_SIZE :: nat where "CHUNK_SIZE = 4"
definition CHUNK_SPACE :: int where "CHUNK_SPACE = 2 ^ 32"

record seed_material =
  server_seed :: bytes
  client_seed :: string
  nonce :: int

definition hash_seed :: "bytes \<Rightarrow> string" where
  "hash_seed seed = hex (sha256 seed)"

definition message :: "string \<Rightarrow> int \<Rightarrow> nat \<Rightarrow> bytes" where
  "message cs n round_index =
     (if round_index = 0 then utf8 (cs @ '':'' @ dec_int n)
      else utf8 (cs @ '':'' @ dec_int n @ '':r'' @ dec_nat round_index))"

section \<open>Rejection sampling\<close>

text \<open>The loop over the offsets of the digest, four bytes at a time.\<close>

fun scan_offsets :: "bytes \<Rightarrow> int \<Rightarrow> int \<Rightarrow> nat list \<Rightarrow> int option" where
  "scan_offsets digest modulus limit [] = None"
| "scan_offsets digest modulus limit (offset # offsets) =
     (let v = from_bytes_big (take CHUNK_SIZE (drop offset digest)) in
      if v < limit then Some (v mod modulus) else scan_offsets digest modulus limit offsets)"

definition sample_limit :: "int \<Rightarrow> int" where
  "sample_limit modulus = (CHUNK_SPACE div modulus) * modulus"

definition uniform_below :: "bytes \<Rightarrow> int \<Rightarrow> exn + int option" where
  "uniform_below digest modulus =
     (if modulus = 0 then Inl ZeroDivisionError
      else Inr (scan_offsets digest modulus (sample_limit modulus)
        (range_step 0 (length digest + 1 - CHUNK_SIZE) CHUNK_SIZE)))"

text \<open>\<open>mac\<close> is the keyed hash, \<open>derive_outcome\<close> instantiates it with HMAC-SHA256.\<close>

partial_function (option) derive_from ::
  "(bytes \<Rightarrow> bytes \<Rightarrow> bytes) \<Rightarrow> seed_material \<Rightarrow> int \<Rightarrow> nat \<Rightarrow> (exn + int) option" where
  "derive_from mac seed modulus round_index =
     (case uniform_below (mac (server_seed seed) (message (client_seed seed) (nonce seed) round_index))
             modulus of
        Inl e \<Rightarrow> Some (Inl e)
      | Inr (Some v) \<Rightarrow> Some (Inr v)
      | Inr None \<Rightarrow> derive_from mac seed modulus (round_index + 1))"

definition derive_outcome :: "seed_material \<Rightarrow> int \<Rightarrow> (exn + int) option" where
  "derive_outcome seed modulus = derive_from hmac_sha256 seed modulus 0"

section \<open>The messages of a seed pair\<close>

lemma unat_of_char: "unat (of_char c :: byte) = of_char c"
proof -
  have "(of_char c :: byte) = of_nat (of_char c)" by (rule of_nat_of_char [symmetric])
  then have "unat (of_char c :: byte) = of_char c mod 256"
    by (simp only: unat_of_nat) simp
  then show ?thesis by simp
qed

lemma utf8_inject [simp]: "utf8 s = utf8 t \<longleftrightarrow> s = t"
proof -
  have "inj (of_char :: char \<Rightarrow> byte)"
    by (rule injI) (metis unat_of_char of_char_eq_iff)
  then show ?thesis by (simp add: utf8_def inj_map_eq_map)
qed

lemma append_sep_inject:
  assumes "a @ x # r = b @ x # q" and "x \<notin> set a" and "x \<notin> set b"
  shows "a = b \<and> r = q"
  using assms
proof (induction a arbitrary: b)
  case Nil
  then show ?case by (cases b) auto
next
  case (Cons c a)
  then show ?case by (cases b) auto
qed

lemma message_inject:
  "message cs n k = message cs m j \<longleftrightarrow> n = m \<and> k = j"
proof
  assume eq: "message cs n k = message cs m j"
  have "k = 0 \<longleftrightarrow> j = 0"
  proof (rule ccontr)
    assume "\<not> (k = 0 \<longleftrightarrow> j = 0)"
    then consider "dec_int n @ '':r'' @ dec_nat k = dec_int m" | "dec_int n = dec_int m @ '':r'' @ dec_nat j"
      using eq by (auto simp: message_def)
    then show False
    proof cases
      case 1
      then have "CHR '':'' \<in> set (dec_int m)" by (metis in_set_conv_decomp append_Cons)
      then show False by simp
    next
      case 2
      then have "CHR '':'' \<in> set (dec_int n)" by (metis in_set_conv_decomp append_Cons)
      then show False by simp
    qed
  qed
  then show "n = m \<and> k = j"
    using eq by (auto simp: message_def dest: append_sep_inject split: if_splits)
qed simp

section \<open>The sampler\<close>

lemma scan_offsets_range:
  assumes "scan_offsets d m l os = Some v" "0 < m"
  shows "0 \<le> v \<and> v < m"
  using assms by (induction os) (auto simp: Let_def split: if_splits)

lemma scan_offsets_None_iff:
  "scan_offsets d m l os = None
     \<longleftrightarrow> (\<forall>i \<in> set os. \<not> from_bytes_big (take CHUNK_SIZE (drop i d)) < l)"
  by (induction os) (auto simp: Let_def)

lemma sample_limit_bounds:
  assumes "0 < m" "m \<le> CHUNK_SPACE"
  shows "0 < sample_limit m \<and> sample_limit m \<le> CHUNK_SPACE \<and> CHUNK_SPACE - sample_limit m < m"
proof -
  have e: "CHUNK_SPACE = sample_limit m + CHUNK_SPACE mod m"
    by (simp add: sample_limit_def)
  have "CHUNK_SPACE div m > 0" using assms by (simp add: pos_imp_zdiv_pos_iff)
  then have "sample_limit m > 0" using assms(1) by (simp add: sample_limit_def)
  with e assms(1) pos_mod_bound [of m CHUNK_SPACE] pos_mod_sign [of m CHUNK_SPACE] show ?thesis
    by linarith
qed

text \<open>Each residue has exactly \<open>2^32 div m\<close> accepted 32-bit values: none is favoured.\<close>

lemma accepted_residues:
  fixes m r :: int
  assumes m: "0 < m" and r: "0 \<le> r" "r < m"
  shows "card {v. 0 \<le> v \<and> v < sample_limit m \<and> v mod m = r} = nat (CHUNK_SPACE div m)"
proof -
  let ?q = "CHUNK_SPACE div m"
  have "{v. 0 \<le> v \<and> v < ?q * m \<and> v mod m = r} = (\<lambda>k. k * m + r) ` {0..<?q}"
  proof (intro equalityI subsetI)
    fix v assume "v \<in> {v. 0 \<le> v \<and> v < ?q * m \<and> v mod m = r}"
    then have v: "0 \<le> v" "v < ?q * m" "v = v div m * m + r" by auto
    from v(1) m have "0 \<le> v div m" by (simp add: pos_imp_zdiv_nonneg_iff)
    moreover have "v div m * m < ?q * m" using v r by linarith
    then have "v div m < ?q" using m by (simp add: mult_less_cancel_right)
    ultimately show "v \<in> (\<lambda>k. k * m + r) ` {0..<?q}" using v(3) by auto
  next
    fix v assume "v \<in> (\<lambda>k. k * m + r) ` {0..<?q}"
    then obtain k where k: "0 \<le> k" "k + 1 \<le> ?q" "v = k * m + r" by auto
    have "(k + 1) * m \<le> ?q * m" using k m by (intro mult_right_mono) auto
    then show "v \<in> {v. 0 \<le> v \<and> v < ?q * m \<and> v mod m = r}"
      using k m r by (auto simp: algebra_simps)
  qed
  moreover have "inj_on (\<lambda>k. k * m + r) {0..<?q}" using m by (auto intro: inj_onI)
  ultimately show ?thesis by (simp add: sample_limit_def card_image)
qed

lemma scan_offsets_first:
  assumes "i < length os" "from_bytes_big (take CHUNK_SIZE (drop (os ! i) d)) < l"
    and "\<forall>j < i. \<not> from_bytes_big (take CHUNK_SIZE (drop (os ! j) d)) < l"
  shows "scan_offsets d m l os = Some (from_bytes_big (take CHUNK_SIZE (drop (os ! i) d)) mod m)"
  using assms
proof (induction os arbitrary: i)
  case (Cons a os)
  show ?case
  proof (cases i)
    case 0
    with Cons.prems show ?thesis by (simp add: Let_def)
  next
    case (Suc n)
    with Cons.prems(3) have "\<not> from_bytes_big (take CHUNK_SIZE (drop a d)) < l"
      "\<forall>j < n. \<not> from_bytes_big (take CHUNK_SIZE (drop (os ! j) d)) < l" by force+
    with Suc Cons.IH [of n] Cons.prems(1,2) show ?thesis by (simp add: Let_def)
  qed
qed simp

section \<open>The contract of the keyed hash\<close>

text \<open>The \<open>i\<close>-th chunk of the digest of round \<open>k\<close>: the numbers the loop looks at, in order.\<close>

definition chunk :: "(bytes \<Rightarrow> bytes \<Rightarrow> bytes) \<Rightarrow> seed_material \<Rightarrow> nat \<Rightarrow> nat \<Rightarrow> int" where
  "chunk mac seed k i = from_bytes_big (take CHUNK_SIZE (drop (4 * i)
     (mac (server_seed seed) (message (client_seed seed) (nonce seed) k))))"

text \<open>Chunk \<open>i\<close> of round \<open>k\<close> is the first one below the limit, in the order of the loop.\<close>

definition first_accepted ::
  "(bytes \<Rightarrow> bytes \<Rightarrow> bytes) \<Rightarrow> seed_material \<Rightarrow> int \<Rightarrow> nat \<Rightarrow> nat \<Rightarrow> bool" where
  "first_accepted mac seed m k i \<longleftrightarrow> i < 8 \<and> chunk mac seed k i < sample_limit m
     \<and> (\<forall>j < i. \<not> chunk mac seed k j < sample_limit m)
     \<and> (\<forall>k' < k. \<forall>j < 8. \<not> chunk mac seed k' j < sample_limit m)"

text \<open>
  What the derivation relies on of its hash: a fixed digest length that holds a whole number
  of chunks. Everything about the loop follows from it.
\<close>

locale keyed_hash =
  fixes mac :: "bytes \<Rightarrow> bytes \<Rightarrow> bytes"
  assumes mac_length: "length (mac k m) = 32"
begin

lemma uniform_below_digest:
  assumes "m \<noteq> 0"
  shows "uniform_below (mac k msg) m
     = Inr (scan_offsets (mac k msg) m (sample_limit m) (map ((*) 4) [0..<8]))"
proof -
  have "(\<lambda>i. i * 4) = (*) (4::nat)" by (simp add: fun_eq_iff)
  with assms show ?thesis
    by (simp add: uniform_below_def range_step_def CHUNK_SIZE_def mac_length)
qed

lemma derive_from_accept:
  assumes "m \<noteq> 0" "i < 8" "chunk mac seed k i < sample_limit m"
    and "\<forall>j < i. \<not> chunk mac seed k j < sample_limit m"
  shows "derive_from mac seed m k = Some (Inr (chunk mac seed k i mod m))"
proof -
  have "scan_offsets (mac (server_seed seed) (message (client_seed seed) (nonce seed) k)) m
      (sample_limit m) (map ((*) 4) [0..<8]) = Some (chunk mac seed k i mod m)"
    using assms(2-) scan_offsets_first [of i "map ((*) 4) [0..<8]"
        "mac (server_seed seed) (message (client_seed seed) (nonce seed) k)" "sample_limit m" m]
    by (simp add: chunk_def)
  then show ?thesis
    by (subst derive_from.simps) (simp add: uniform_below_digest assms(1))
qed

lemma derive_from_reject:
  assumes "m \<noteq> 0" "\<forall>i < 8. \<not> chunk mac seed k i < sample_limit m"
  shows "derive_from mac seed m k = derive_from mac seed m (Suc k)"
proof -
  have "scan_offsets (mac (server_seed seed) (message (client_seed seed) (nonce seed) k)) m
      (sample_limit m) (map ((*) 4) [0..<8]) = None"
    using assms(2) by (auto simp: scan_offsets_None_iff chunk_def)
  then show ?thesis
    by (subst derive_from.simps) (simp add: uniform_below_digest assms(1))
qed

lemma derive_from_skip:
  assumes "m \<noteq> 0" "\<forall>k' < n. \<forall>j < 8. \<not> chunk mac seed (k + k') j < sample_limit m"
  shows "derive_from mac seed m k = derive_from mac seed m (k + n)"
  using assms(2)
proof (induction n)
  case (Suc n)
  then show ?case using derive_from_reject [OF assms(1), of seed "k + n"] by simp
qed simp

text \<open>Whatever the loop returns, it met an acceptable chunk in some round.\<close>

lemma derive_from_accepted:
  assumes "m \<noteq> 0" "derive_from mac seed m k = Some r"
  shows "\<exists>n i. i < 8 \<and> chunk mac seed n i < sample_limit m"
proof (rule ccontr)
  assume no: "\<nexists>n i. i < 8 \<and> chunk mac seed n i < sample_limit m"
  have "mac = mac \<longrightarrow> seed = seed \<longrightarrow> m = m \<longrightarrow> False"
  proof (rule derive_from.raw_induct
      [where P = "\<lambda>h s md j q. h = mac \<longrightarrow> s = seed \<longrightarrow> md = m \<longrightarrow> False", OF _ assms(2)])
    fix f h s md j q
    assume IH: "\<And>h s md j q. f h s md j = Some q \<Longrightarrow> h = mac \<longrightarrow> s = seed \<longrightarrow> md = m \<longrightarrow> False"
      and body: "(case uniform_below (h (server_seed s) (message (client_seed s) (nonce s) j)) md of
          Inl e \<Rightarrow> Some (Inl e) | Inr None \<Rightarrow> f h s md (j + 1) | Inr (Some v) \<Rightarrow> Some (Inr v)) = Some q"
    show "h = mac \<longrightarrow> s = seed \<longrightarrow> md = m \<longrightarrow> False"
    proof (intro impI)
      assume eqs: "h = mac" "s = seed" "md = m"
      have "scan_offsets (mac (server_seed seed) (message (client_seed seed) (nonce seed) j)) m
          (sample_limit m) (map ((*) 4) [0..<8]) = None"
        using no by (auto simp: scan_offsets_None_iff chunk_def)
      with body eqs have "f mac seed m (j + 1) = Some q"
        by (simp add: uniform_below_digest assms(1))
      with IH show False by blast
    qed
  qed
  then show False by simp
qed

theorem derive_spec:
  assumes "m \<noteq> 0"
  shows "derive_from mac seed m 0 = Some r \<longleftrightarrow>
    (\<exists>k i. first_accepted mac seed m k i \<and> r = Inr (chunk mac seed k i mod m))"
proof -
  have found: "derive_from mac seed m 0 = Some (Inr (chunk mac seed k i mod m))"
    if "first_accepted mac seed m k i" for k i
    using that derive_from_skip [OF assms, of k seed 0] derive_from_accept [OF assms, of i seed k]
    by (simp add: first_accepted_def)
  have forth: "\<exists>k i. first_accepted mac seed m k i" if "derive_from mac seed m 0 = Some r"
  proof -
    let ?ok = "\<lambda>k. \<exists>i. i < 8 \<and> chunk mac seed k i < sample_limit m"
    have "\<exists>k. ?ok k" using derive_from_accepted [OF assms that] .
    then obtain k where k: "?ok k" "\<forall>j < k. \<not> ?ok j"
      using exists_least_iff [of ?ok] by blast
    then obtain i where i: "i < 8 \<and> chunk mac seed k i < sample_limit m"
      "\<forall>j < i. \<not> (j < 8 \<and> chunk mac seed k j < sample_limit m)"
      using exists_least_iff [of "\<lambda>i. i < 8 \<and> chunk mac seed k i < sample_limit m"] by blast
    have "first_accepted mac seed m k i"
      unfolding first_accepted_def using i k(2) by (meson less_trans)
    then show ?thesis by blast
  qed
  show ?thesis using found forth by fastforce
qed

lemma derive_range:
  assumes "0 < m" "derive_from mac seed m 0 = Some r"
  shows "\<exists>v. r = Inr v \<and> 0 \<le> v \<and> v < m"
  using derive_spec [of m seed r] assms by auto

end

interpretation hmac: keyed_hash hmac_sha256
  by unfold_locales simp

section \<open>Four-byte digests\<close>

lemma from_bytes_big_snoc: "from_bytes_big (bs @ [b]) = 256 * from_bytes_big bs + uint b"
  by (simp add: from_bytes_big_def)

lemma byte_digit_unique:
  fixes a b u v :: int
  assumes "256 * a + u = 256 * b + v" "0 \<le> u" "u < 256" "0 \<le> v" "v < 256"
  shows "a = b \<and> u = v"
proof -
  have "(256 * a + u) mod 256 = u mod 256" "(256 * b + v) mod 256 = v mod 256" by simp_all
  with assms(1) have "u mod 256 = v mod 256" by metis
  with assms have "u = v" by simp
  with assms(1) show ?thesis by simp
qed

lemma from_bytes_big_inj:
  "length xs = length ys \<Longrightarrow> from_bytes_big xs = from_bytes_big ys \<Longrightarrow> xs = ys"
proof (induction xs arbitrary: ys rule: rev_induct)
  case (snoc x xs)
  then obtain y zs where ys: "ys = zs @ [y]" "length zs = length xs"
    by (metis length_append_singleton length_Suc_conv_rev)
  have b: "0 \<le> uint x" "uint x < 256" "0 \<le> uint y" "uint y < 256"
    using uint_bounded [of x] uint_bounded [of y] by auto
  have "256 * from_bytes_big xs + uint x = 256 * from_bytes_big zs + uint y"
    using snoc.prems(2) ys(1) by (simp add: from_bytes_big_snoc)
  then have "from_bytes_big xs = from_bytes_big zs \<and> uint x = uint y"
    using b by (intro byte_digit_unique)
  then show ?case using snoc.IH [of zs] ys by (simp add: word_uint_eq_iff)
qed simp

lemma from_bytes_big_surj:
  "0 \<le> v \<Longrightarrow> v < 256 ^ n \<Longrightarrow> \<exists>bs. length bs = n \<and> from_bytes_big bs = v"
proof (induction n arbitrary: v)
  case 0
  then show ?case by (simp add: from_bytes_big_def)
next
  case (Suc n)
  from Suc.prems have "0 \<le> v div 256" "v div 256 < 256 ^ n" by auto
  with Suc.IH obtain bs where "length bs = n" "from_bytes_big bs = v div 256" by blast
  moreover have "uint (word_of_int (v mod 256) :: byte) = v mod 256"
    by (simp add: uint_word_of_int)
  ultimately show ?case
    by (intro exI [of _ "bs @ [word_of_int (v mod 256)]"]) (simp add: from_bytes_big_snoc)
qed

lemma four_byte_digest:
  assumes "length d = 4" "m \<noteq> 0"
  shows "uniform_below d m = Inr (if from_bytes_big d < sample_limit m
     then Some (from_bytes_big d mod m) else None)"
  using assms by (simp add: uniform_below_def range_step_def CHUNK_SIZE_def Let_def)

section \<open>Properties\<close>

text \<open>
  C14: the sampler is unbiased: among all 32-bit blocks, each value below the modulus is the
  result of exactly \<open>2^32 div modulus\<close> of them.
\<close>

theorem sampler_unbiased:
  assumes "0 < m" "m \<le> CHUNK_SPACE" "0 \<le> r" "r < m"
  shows "card {d. length d = CHUNK_SIZE \<and> uniform_below d m = Inr (Some r)} = nat (CHUNK_SPACE div m)"
proof -
  let ?A = "{d. length d = CHUNK_SIZE \<and> uniform_below d m = Inr (Some r)}"
  let ?B = "{v. 0 \<le> v \<and> v < sample_limit m \<and> v mod m = r}"
  have ok: "uniform_below d m = Inr (Some r) \<longleftrightarrow> from_bytes_big d < sample_limit m \<and> from_bytes_big d mod m = r"
    if "length d = 4" for d
    unfolding four_byte_digest [OF that less_imp_neq [OF assms(1), symmetric]] by simp
  have A: "?A = {d. length d = 4 \<and> from_bytes_big d < sample_limit m \<and> from_bytes_big d mod m = r}"
    unfolding CHUNK_SIZE_def using ok by blast
  have "inj_on from_bytes_big ?A"
    unfolding A by (rule inj_onI) (simp only: mem_Collect_eq from_bytes_big_inj)
  then have "card ?A = card (from_bytes_big ` ?A)" by (rule card_image [symmetric])
  also have "from_bytes_big ` ?A = ?B"
  proof (intro equalityI subsetI)
    fix v assume "v \<in> ?B"
    then have v: "0 \<le> v" "v < sample_limit m" "v mod m = r" by simp_all
    have "sample_limit m \<le> 256 ^ 4"
      using sample_limit_bounds [OF assms(1,2)] by (simp add: CHUNK_SPACE_def)
    then have "v < 256 ^ 4" using v(2) by linarith
    then obtain d where "length d = 4" "from_bytes_big d = v"
      using from_bytes_big_surj [OF v(1)] by blast
    with v show "v \<in> from_bytes_big ` ?A" unfolding A by blast
  next
    fix v assume "v \<in> from_bytes_big ` ?A"
    then show "v \<in> ?B" unfolding A using from_bytes_big_bounds by auto
  qed
  also have "card ?B = nat (CHUNK_SPACE div m)" by (rule accepted_residues [OF assms(1,3,4)])
  finally show ?thesis .
qed

theorem sampler_unbiased_witness:
  "card {d. length d = CHUNK_SIZE \<and> uniform_below d 37 = Inr (Some 5)} = 116080197"
  using sampler_unbiased [of 37 5] by (simp add: CHUNK_SPACE_def)

text \<open>
  for one client seed, two spins that differ in nonce or in retry round never ask the HMAC
  for the same message, so no two spins of a seed pair share a digest by construction.
\<close>

theorem message_injective:
  "message cs n k = message cs n' k' \<longleftrightarrow> n = n' \<and> k = k'"
  by (rule message_inject)

end
