(* ===== verification/Roulette_Engine.thy ===== *)
theory Roulette_Engine
  imports Roulette_Bets Fair_Outcome
begin

text \<open>
  \<open>app/domain/roulette/engine.py\<close>: the spin of a seed and the resolution of a round's bets,
  and what the pay table means: over the 37 pockets every accepted bet, whatever its type,
  returns exactly 36 times its stake.
\<close>

section \<open>Spin and resolution\<close>

record resolved_bet =
  bet :: placed_bet
  won :: bool
  payout :: money

definition spin :: "seed_material \<Rightarrow> (exn + int) option" where
  "spin seed = derive_outcome seed POCKET_COUNT"

definition resolve_bet :: "placed_bet \<Rightarrow> int \<Rightarrow> exn + resolved_bet" where
  "resolve_bet b outcome =
     sbind (covered_numbers (bet_type b) (selection b)) (\<lambda>ns.
       let w = outcome \<in> ns in
       sbind (if w then let ratio = payout_ratio (BET_SPECS (bet_type b))
                        in money_mul (stake b) (PyInt (ratio + 1))
              else money_zero (currency (stake b))) (\<lambda>p.
       Inr \<lparr>bet = b, won = w, payout = p\<rparr>))"

definition resolve_bets :: "placed_bet list \<Rightarrow> int \<Rightarrow> exn + resolved_bet list" where
  "resolve_bets bets outcome = smap (\<lambda>b. resolve_bet b outcome) bets"

section \<open>Accepted bets\<close>

definition well_shaped :: "placed_bet \<Rightarrow> bool" where
  "well_shaped b \<longleftrightarrow> (\<exists>S. covered_numbers (bet_type b) (selection b) = Inr S)"

definition covers :: "placed_bet \<Rightarrow> int set" where
  "covers b = (case covered_numbers (bet_type b) (selection b) of Inr S \<Rightarrow> S | Inl _ \<Rightarrow> {})"

definition payout_minor_of :: "placed_bet \<Rightarrow> int \<Rightarrow> int" where
  "payout_minor_of b outcome =
     (if outcome \<in> covers b then minor (stake b) * (payout_ratio (BET_SPECS (bet_type b)) + 1) else 0)"

definition resolution :: "int \<Rightarrow> placed_bet \<Rightarrow> resolved_bet" where
  "resolution outcome b = \<lparr>bet = b, won = (outcome \<in> covers b),
     payout = \<lparr>minor = payout_minor_of b outcome, currency = currency (stake b)\<rparr>\<rparr>"

lemma covers_eq: "covered_numbers (bet_type b) (selection b) = Inr S \<Longrightarrow> covers b = S"
  by (simp add: covers_def)

lemma covers_figure:
  "well_shaped b \<Longrightarrow> covers b \<subseteq> {0..36} \<and> card (covers b) = coverage (BET_SPECS (bet_type b))"
  unfolding well_shaped_def using covered_numbers_figure figure_coverage covers_eq by metis

lemma resolve_bet_ok: "well_shaped b \<Longrightarrow> resolve_bet b outcome = Inr (resolution outcome b)"
  by (auto simp: well_shaped_def resolve_bet_def resolution_def covers_def payout_minor_of_def
      money_mul_def money_zero_def Let_def)

lemma resolve_bet_error:
  assumes "\<not> well_shaped b"
  shows "resolve_bet b outcome = Inl InvalidBetError"
proof -
  obtain e where "covered_numbers (bet_type b) (selection b) = Inl e"
    using assms by (cases "covered_numbers (bet_type b) (selection b)") (auto simp: well_shaped_def)
  with covered_numbers_error show ?thesis by (auto simp: resolve_bet_def)
qed

lemma resolve_bets_ok:
  "(\<And>b. b \<in> set bets \<Longrightarrow> well_shaped b) \<Longrightarrow>
     resolve_bets bets outcome = Inr (map (resolution outcome) bets)"
  unfolding resolve_bets_def by (intro smap_all_Inr resolve_bet_ok) auto

lemma resolve_bets_Inr:
  assumes "resolve_bets bets outcome = Inr rs"
  shows "(\<forall>b \<in> set bets. well_shaped b) \<and> rs = map (resolution outcome) bets"
proof -
  have l: "list_all2 (\<lambda>b r. resolve_bet b outcome = Inr r) bets rs"
    using assms by (simp add: resolve_bets_def smap_Inr_iff)
  then have ws: "\<forall>b \<in> set bets. well_shaped b"
    using resolve_bet_error by (fastforce simp: list_all2_iff set_zip in_set_conv_nth)
  then show ?thesis using assms resolve_bets_ok [of bets outcome] by auto
qed

definition total_payout :: "resolved_bet list \<Rightarrow> int" where
  "total_payout rs = sum_list (map (\<lambda>r. minor (payout r)) rs)"

definition total_stake :: "placed_bet list \<Rightarrow> int" where
  "total_stake bets = sum_list (map (\<lambda>b. minor (stake b)) bets)"

lemma total_payout_resolution:
  "total_payout (map (resolution outcome) bets) = sum_list (map (\<lambda>b. payout_minor_of b outcome) bets)"
  by (simp add: total_payout_def resolution_def comp_def)

section \<open>The pay table over the wheel\<close>

lemma payout_over_wheel:
  assumes "well_shaped b"
  shows "(\<Sum>outcome = 0..36. payout_minor_of b outcome) = 36 * minor (stake b)"
proof -
  let ?r = "payout_ratio (BET_SPECS (bet_type b)) + 1"
  have "{0..36} \<inter> covers b = covers b" using covers_figure [OF assms] by auto
  then have "(\<Sum>outcome = 0..36. payout_minor_of b outcome) = (\<Sum>outcome \<in> covers b. minor (stake b) * ?r)"
    by (simp add: payout_minor_of_def sum.If_cases)
  also have "\<dots> = minor (stake b) * (int (coverage (BET_SPECS (bet_type b))) * ?r)"
    using covers_figure [OF assms] by simp
  finally show ?thesis by (simp add: payout_balance)
qed

lemma payout_minor_of_bounds:
  assumes "0 \<le> minor (stake b)"
  shows "0 \<le> payout_minor_of b outcome \<and> payout_minor_of b outcome \<le> 36 * minor (stake b)"
proof -
  have "0 < payout_ratio (BET_SPECS (bet_type b)) + 1 \<and> payout_ratio (BET_SPECS (bet_type b)) + 1 \<le> 36"
    by (cases "bet_type b") simp_all
  then show ?thesis
    using assms mult_left_mono [of "payout_ratio (BET_SPECS (bet_type b)) + 1" 36 "minor (stake b)"]
    by (auto simp: payout_minor_of_def mult.commute)
qed

lemma sum_payout_bounds:
  assumes "\<forall>b \<in> set bets. 0 \<le> minor (stake b)"
  shows "0 \<le> sum_list (map (\<lambda>b. payout_minor_of b outcome) bets)
    \<and> sum_list (map (\<lambda>b. payout_minor_of b outcome) bets) \<le> 36 * total_stake bets"
  using assms
proof (induction bets)
  case (Cons b bets)
  then show ?case using payout_minor_of_bounds [of b outcome] by (auto simp: total_stake_def)
qed (simp add: total_stake_def)

lemma zero_only_straight_figures:
  "list_all (\<lambda>bt. list_all (\<lambda>S. 0 \<in> S \<longrightarrow> bt = STRAIGHT \<and> S = {0}) (figures_of bt)) all_bet_types"
  by code_simp

lemma spin_range: "spin seed = Some r \<Longrightarrow> \<exists>v. r = Inr v \<and> 0 \<le> v \<and> v < 37"
  unfolding spin_def derive_outcome_def
  using hmac.derive_range [of POCKET_COUNT seed r] by (simp add: POCKET_COUNT_def)

section \<open>Properties\<close>

text \<open>
  C13: a spin returns exactly when some HMAC of the seed has an acceptable block, and what it
  returns is the first such block, in the order of the rounds and of the blocks, modulo 37.
  In particular it never raises and its result is a pocket of the wheel.
\<close>

theorem spin_spec:
  "spin seed = Some r \<longleftrightarrow>
     (\<exists>k i. first_accepted hmac_sha256 seed POCKET_COUNT k i
        \<and> r = Inr (chunk hmac_sha256 seed k i mod POCKET_COUNT))"
  unfolding spin_def derive_outcome_def
  by (rule hmac.derive_spec) (simp add: POCKET_COUNT_def)

text \<open>
  resolving a round raises exactly when some bet does not describe a figure, and then
  \<open>InvalidBetError\<close>; otherwise it keeps the bets in order and marks each one won exactly when
  it covers the outcome, crediting stake times ratio plus one, or nothing.
\<close>

theorem resolve_bets_spec:
  "resolve_bets bets outcome =
     (if list_all well_shaped bets then Inr (map (resolution outcome) bets) else Inl InvalidBetError)"
proof (cases "list_all well_shaped bets")
  case True
  then show ?thesis using resolve_bets_ok [of bets outcome] by (simp add: list_all_iff)
next
  case False
  then have "\<not> (\<exists>rs. resolve_bets bets outcome = Inr rs)"
    using resolve_bets_Inr by (auto simp: list_all_iff)
  then obtain e where e: "resolve_bets bets outcome = Inl e"
    by (cases "resolve_bets bets outcome") auto
  then obtain b where "resolve_bet b outcome = Inl e"
    unfolding resolve_bets_def by (auto dest: smap_Inl)
  then have "e = InvalidBetError"
    using resolve_bet_ok [of b outcome] resolve_bet_error [of b outcome] by (cases "well_shaped b") auto
  with e False show ?thesis by simp
qed

text \<open>
  C15: over the 37 equally likely pockets a round of accepted bets pays back, in total, exactly
  36 times what was staked, whatever the mix of bet types: the return to player is 36/37.
\<close>

theorem round_return_to_player:
  assumes "\<And>o'. resolve_bets bets o' = Inr (rs o')"
  shows "(\<Sum>o' = 0..36. total_payout (rs o')) = 36 * total_stake bets"
proof -
  have ws: "\<forall>b \<in> set bets. well_shaped b" and rs: "\<And>o'. rs o' = map (resolution o') bets"
    using resolve_bets_Inr [OF assms] by auto
  have "(\<Sum>o' = 0..36. total_payout (rs o')) = sum_list (map (\<lambda>b. \<Sum>o' = 0..36. payout_minor_of b o') bets)"
    unfolding rs total_payout_resolution by (induction bets) (auto simp: sum.distrib)
  also have "\<dots> = sum_list (map (\<lambda>b. 36 * minor (stake b)) bets)"
    using ws payout_over_wheel by (auto intro: arg_cong [of _ _ sum_list] map_cong)
  finally show ?thesis by (simp add: total_stake_def sum_list_const_mult)
qed

definition demo_bets :: "placed_bet list" where
  "demo_bets =
     [\<lparr>bet_type = STRAIGHT, selection = [(''numbers'', SelList [6])], stake = eur 100\<rparr>,
      \<lparr>bet_type = RED, selection = [], stake = eur 250\<rparr>]"

lemma demo_bets_shaped: "list_all well_shaped demo_bets"
proof -
  have "covered_numbers STRAIGHT [(''numbers'', SelList [6])] = Inr {6}" by code_simp
  moreover have "covered_numbers RED [] = Inr RED_NUMBERS" by (simp add: covered_numbers_def)
  ultimately show ?thesis by (auto simp: demo_bets_def well_shaped_def)
qed

theorem round_return_to_player_witness:
  "(\<Sum>o' = 0..36. total_payout (map (resolution o') demo_bets)) = 36 * 350"
proof -
  have "\<And>o'. resolve_bets demo_bets o' = Inr (map (resolution o') demo_bets)"
    using demo_bets_shaped resolve_bets_ok by (simp add: list_all_iff)
  from round_return_to_player [OF this] show ?thesis
    by (simp add: total_stake_def demo_bets_def)
qed

text \<open>
  the zero loses every bet except the straight bet on zero itself: whatever selection is
  accepted, the set it covers contains 0 only for \<open>STRAIGHT\<close>, and is then \<open>{0}\<close>.
\<close>

theorem zero_pays_straight_only:
  assumes "covered_numbers bt sel = Inr S" and "0 \<in> S"
  shows "bt = STRAIGHT \<and> S = {0}"
  using zero_only_straight_figures covered_numbers_figure [OF assms(1)] assms(2)
  by (auto simp: list_all_iff)

theorem zero_pays_straight_only_witness: "STRAIGHT = STRAIGHT \<and> {0} = {0 :: int}"
proof -
  have "covered_numbers STRAIGHT [(''numbers'', SelList [0, 0])] = Inr {0}" by code_simp
  then show ?thesis by (rule zero_pays_straight_only) simp
qed

end
