(* ===== verification/Spin_Demo.thy ===== *)
theory Spin_Demo
  imports Spin_Vector Roulette_Engine
begin

text \<open>
  A known spin: with the server seed 0, 1, ..., 31 and a fixed client seed, nonce 1 gives 6.
  The digest is evaluated in the kernel (\<open>Spin_Vector\<close>), so the facts about the betting
  service can be tried on a real round.
\<close>

definition demo_material :: seed_material where
  "demo_material = \<lparr>server_seed = demo_server_seed, client_seed = demo_client_seed, nonce = 1\<rparr>"

lemma demo_chunk: "chunk hmac_sha256 demo_material 0 0 = 645611415"
proof -
  have "dec_int 1 = ''1''" by code_simp
  then have "message demo_client_seed 1 0 = utf8 (demo_client_seed @ '':1'')"
    by (simp add: message_def)
  moreover have "from_bytes_big (take 4 (sha_digest (645611415, 1176632225, 1841323377, 647097147,
      1069498531, 2882937202, 1649705328, 344386354))) = 645611415"
    by code_simp
  ultimately show ?thesis
    by (simp add: chunk_def demo_material_def demo_digest CHUNK_SIZE_def)
qed

lemma spin_demo: "spin demo_material = Some (Inr 6)"
proof -
  have "sample_limit POCKET_COUNT = 4294967289" by code_simp
  then have "first_accepted hmac_sha256 demo_material POCKET_COUNT 0 0"
    by (simp add: first_accepted_def demo_chunk)
  moreover have "Inr 6 = Inr (chunk hmac_sha256 demo_material 0 0 mod POCKET_COUNT)"
    by (simp add: demo_chunk POCKET_COUNT_def)
  ultimately show ?thesis
    unfolding spin_def derive_outcome_def
    using hmac.derive_spec [of POCKET_COUNT demo_material "Inr 6"]
    by (auto simp: POCKET_COUNT_def)
qed

end
