(* ===== verification/Db_Model.thy ===== *)
theory Db_Model
  imports Roulette_Bets Codec
begin

text \<open>
  The relational schema of \<open>app/models/\<close> and the transaction discipline of
  \<open>app/infra/db.py\<close>. A table is the list of its rows in the order of insertion. An \<open>INSERT\<close>
  or an \<open>UPDATE\<close> is checked against the column ranges (\<open>DataError\<close>) and then against the
  declared constraints: primary keys, unique constraints and indexes, foreign keys and checks
  (\<open>IntegrityError\<close>). The world holds, besides the tables as the running transaction sees
  them, the last committed tables, the transaction's start time and the sources of time,
  identifiers and random bytes. A rollback restores the tables and nothing else.
\<close>

section \<open>Rows\<close>

datatype json = JNull | JBool bool | JInt int | JStr string | JList "json list" | JObj "(string \<times> json) list"

record user_row =
  u_id :: uuid
  u_email :: string
  u_password_hash :: string
  u_status :: string
  u_created_at :: time

record wallet_row =
  w_id :: uuid
  w_user_id :: uuid
  w_balance_minor :: int
  w_currency :: string

record ledger_row =
  l_id :: uuid
  l_wallet_id :: uuid
  l_amount_minor :: int
  l_balance_after_minor :: int
  l_kind :: string
  l_ref_type :: "string option"
  l_ref_id :: "uuid option"
  l_created_at :: time

record seed_row =
  s_id :: uuid
  s_user_id :: uuid
  s_server_seed :: bytes
  s_server_seed_hash :: string
  s_client_seed :: string
  s_nonce :: int
  s_status :: string
  s_revealed_at :: "time option"
  s_created_at :: time

record round_row =
  r_id :: uuid
  r_user_id :: uuid
  r_seed_pair_id :: uuid
  r_nonce :: int
  r_outcome :: "int option"
  r_status :: string
  r_created_at :: time
  r_settled_at :: "time option"

record bet_row =
  b_id :: uuid
  b_round_id :: uuid
  b_bet_type :: string
  b_selection :: selection
  b_stake_minor :: int
  b_payout_minor :: int
  b_status :: string

record idem_row =
  i_id :: uuid
  i_user_id :: uuid
  i_key :: string
  i_request_hash :: string
  i_response_body :: "json option"
  i_status :: string
  i_expires_at :: time
  i_created_at :: time

record token_row =
  t_id :: uuid
  t_user_id :: uuid
  t_family_id :: uuid
  t_token_hash :: string
  t_created_at :: time
  t_expires_at :: time
  t_revoked_at :: "time option"

section \<open>Events\<close>

text \<open>
  The payloads of \<open>app/events/schemas.py\<close>. The outbox stores the dumped envelope; the model
  stores the envelope itself.
\<close>

record bet_placed_data =
  bp_round_id :: uuid
  bp_bet_id :: uuid
  bp_user_id :: uuid
  bp_bet_type :: bet_type
  bp_selection :: selection
  bp_stake_minor :: int
  bp_currency :: string

record settled_bet =
  sb_bet_id :: uuid
  sb_bet_type :: bet_type
  sb_selection :: selection
  sb_stake_minor :: int
  sb_payout_minor :: int
  sb_won :: bool

record round_settled_data =
  rs_round_id :: uuid
  rs_user_id :: uuid
  rs_seed_pair_id :: uuid
  rs_nonce :: int
  rs_outcome :: int
  rs_bets :: "settled_bet list"
  rs_total_stake_minor :: int
  rs_total_payout_minor :: int
  rs_net_minor :: int
  rs_currency :: string

record wallet_tx_data =
  wt_transaction_id :: uuid
  wt_user_id :: uuid
  wt_wallet_id :: uuid
  wt_kind :: string
  wt_amount_minor :: int
  wt_balance_after_minor :: int
  wt_currency :: string
  wt_ref_type :: "string option"
  wt_ref_id :: "uuid option"

datatype event_data =
    BetPlacedData bet_placed_data
  | RoundSettledData round_settled_data
  | WalletTransactionData wallet_tx_data

record envelope =
  event_id :: uuid
  event_type :: string
  event_version :: int
  occurred_at :: time
  producer :: string
  idempotency_key :: "string option"
  event_data :: event_data

record outbox_row =
  o_id :: uuid
  o_topic :: string
  o_key :: string
  o_payload :: envelope
  o_headers :: "json option"
  o_created_at :: time
  o_published_at :: "time option"
  o_attempts :: int
  o_last_error :: "string option"
  o_next_attempt_at :: "time option"

section \<open>The database and the world\<close>

record database =
  users :: "user_row list"
  wallets :: "wallet_row list"
  ledger :: "ledger_row list"
  seed_pairs :: "seed_row list"
  rounds :: "round_row list"
  bets :: "bet_row list"
  idem_keys :: "idem_row list"
  refresh_tokens :: "token_row list"
  outbox :: "outbox_row list"

record world =
  db :: database
  committed :: database
  tx_time :: time
  clock :: "nat \<Rightarrow> time"
  ticks :: nat
  uuid_source :: "nat \<Rightarrow> uuid"
  uuids_drawn :: nat
  byte_source :: "nat \<Rightarrow> byte"
  bytes_drawn :: nat

text \<open>\<open>datetime.now(UTC)\<close>, \<open>uuid.uuid4()\<close>, \<open>secrets.token_bytes(n)\<close> and the database's \<open>now()\<close>.\<close>

definition now_utc :: "(world, time) exec" where
  "now_utc = (\<lambda>w. (Val (clock w (ticks w)), w\<lparr>ticks := ticks w + 1\<rparr>))"

definition uuid4 :: "(world, uuid) exec" where
  "uuid4 = (\<lambda>w. (Val (uuid_source w (uuids_drawn w)), w\<lparr>uuids_drawn := uuids_drawn w + 1\<rparr>))"

definition token_bytes :: "nat \<Rightarrow> (world, bytes) exec" where
  "token_bytes n = (\<lambda>w. (Val (map (\<lambda>i. byte_source w (bytes_drawn w + i)) [0..<n]),
     w\<lparr>bytes_drawn := bytes_drawn w + n\<rparr>))"

definition db_now :: "(world, time) exec" where
  "db_now = gets tx_time"

text \<open>\<open>str(uuid)\<close>: the 32 hexadecimal digits in groups of 8, 4, 4, 4 and 12.\<close>

definition hex_digits :: "nat \<Rightarrow> int \<Rightarrow> string" where
  "hex_digits k n = map (\<lambda>i. hex_digit (nat (n div 16 ^ i mod 16))) (rev [0..<k])"

definition uuid_str :: "uuid \<Rightarrow> string" where
  "uuid_str u = (let n = int u in
     hex_digits 8 (n div 16 ^ 24) @ ''-'' @ hex_digits 4 (n div 16 ^ 20) @ ''-''
     @ hex_digits 4 (n div 16 ^ 16) @ ''-'' @ hex_digits 4 (n div 16 ^ 12) @ ''-'' @ hex_digits 12 n)"

text \<open>
  \<open>unit_of_work\<close>: one transaction, committed when the body returns and rolled back when it
  raises. \<open>session_commit\<close> is an explicit commit inside the body.
\<close>

definition begin_tx :: "(world, unit) exec" where
  "begin_tx = (\<lambda>w. (Val (), w\<lparr>committed := db w, tx_time := clock w (ticks w), ticks := ticks w + 1\<rparr>))"

definition session_commit :: "(world, unit) exec" where
  "session_commit = modify (\<lambda>w. w\<lparr>committed := db w\<rparr>)"

definition unit_of_work :: "(world, 'a) exec \<Rightarrow> (world, 'a) exec" where
  "unit_of_work body = (\<lambda>w. case bind begin_tx (\<lambda>_. body) w of
      (Val x, w') \<Rightarrow> (Val x, w'\<lparr>committed := db w'\<rparr>)
    | (Exc e, w') \<Rightarrow> (Exc e, w'\<lparr>db := committed w'\<rparr>)
    | (NoReturn, w') \<Rightarrow> (NoReturn, w'\<lparr>db := committed w'\<rparr>))"

section \<open>Statements\<close>

definition bigint :: "int \<Rightarrow> bool" where
  "bigint n \<longleftrightarrow> - (2 ^ 63) \<le> n \<and> n < 2 ^ 63"

definition int4 :: "int \<Rightarrow> bool" where
  "int4 n \<longleftrightarrow> - (2 ^ 31) \<le> n \<and> n < 2 ^ 31"

definition check_row :: "bool \<Rightarrow> bool \<Rightarrow> exn option" where
  "check_row in_range constraints =
     (if \<not> in_range then Some DataError else if \<not> constraints then Some IntegrityError else None)"

definition insert_into ::
  "(('r list \<Rightarrow> 'r list) \<Rightarrow> database \<Rightarrow> database) \<Rightarrow> (database \<Rightarrow> 'r \<Rightarrow> exn option) \<Rightarrow> 'r
     \<Rightarrow> (world, 'r) exec" where
  "insert_into upd chk r = (\<lambda>w. case chk (db w) r of
      Some e \<Rightarrow> (Exc e, w)
    | None \<Rightarrow> (Val r, w\<lparr>db := upd (\<lambda>rs. rs @ [r]) (db w)\<rparr>))"

fun first_error :: "('r \<Rightarrow> exn option) \<Rightarrow> 'r list \<Rightarrow> exn option" where
  "first_error chk [] = None"
| "first_error chk (r # rs) = (case chk r of Some e \<Rightarrow> Some e | None \<Rightarrow> first_error chk rs)"

text \<open>\<open>UPDATE ... WHERE ... RETURNING\<close>: the new rows, after their checks.\<close>

definition update_returning ::
  "(database \<Rightarrow> 'r list) \<Rightarrow> (('r list \<Rightarrow> 'r list) \<Rightarrow> database \<Rightarrow> database)
     \<Rightarrow> ('r \<Rightarrow> exn option) \<Rightarrow> ('r \<Rightarrow> bool) \<Rightarrow> ('r \<Rightarrow> 'r) \<Rightarrow> (world, 'r list) exec" where
  "update_returning tbl upd chk p f = (\<lambda>w.
     let news = map f (filter p (tbl (db w))) in
     case first_error chk news of
       Some e \<Rightarrow> (Exc e, w)
     | None \<Rightarrow> (Val news, w\<lparr>db := upd (update_where p f) (db w)\<rparr>))"

definition update_rows ::
  "(('r list \<Rightarrow> 'r list) \<Rightarrow> database \<Rightarrow> database) \<Rightarrow> ('r \<Rightarrow> bool) \<Rightarrow> ('r \<Rightarrow> 'r) \<Rightarrow> (world, unit) exec" where
  "update_rows upd p f = modify (\<lambda>w. w\<lparr>db := upd (update_where p f) (db w)\<rparr>)"

definition select_rows :: "(database \<Rightarrow> 'r list) \<Rightarrow> ('r \<Rightarrow> bool) \<Rightarrow> (world, 'r list) exec" where
  "select_rows tbl p = gets (\<lambda>w. filter p (tbl (db w)))"

section \<open>Constraints\<close>

text \<open>Each check says which row may be inserted into the tables as they are.\<close>

definition check_user :: "(string \<Rightarrow> string) \<Rightarrow> database \<Rightarrow> user_row \<Rightarrow> exn option" where
  "check_user ci d r = check_row True
     (u_id r \<notin> u_id ` set (users d) \<and> ci (u_email r) \<notin> (ci \<circ> u_email) ` set (users d)
      \<and> u_status r \<in> {''active'', ''suspended''})"

definition wallet_row_ok :: "wallet_row \<Rightarrow> exn option" where
  "wallet_row_ok r = check_row (bigint (w_balance_minor r)) (0 \<le> w_balance_minor r)"

definition check_wallet :: "database \<Rightarrow> wallet_row \<Rightarrow> exn option" where
  "check_wallet d r = check_row (bigint (w_balance_minor r))
     (w_id r \<notin> w_id ` set (wallets d) \<and> w_user_id r \<notin> w_user_id ` set (wallets d)
      \<and> w_user_id r \<in> u_id ` set (users d) \<and> 0 \<le> w_balance_minor r)"

definition LEDGER_KINDS :: "string list" where
  "LEDGER_KINDS = [''deposit'', ''bet_stake'', ''bet_payout'', ''adjustment'']"

definition check_ledger :: "database \<Rightarrow> ledger_row \<Rightarrow> exn option" where
  "check_ledger d r = check_row (bigint (l_amount_minor r) \<and> bigint (l_balance_after_minor r))
     (l_id r \<notin> l_id ` set (ledger d) \<and> l_wallet_id r \<in> w_id ` set (wallets d)
      \<and> l_kind r \<in> set LEDGER_KINDS \<and> 0 \<le> l_balance_after_minor r)"

definition seed_row_ok :: "seed_row \<Rightarrow> exn option" where
  "seed_row_ok r = check_row (int4 (s_nonce r)) True"

definition check_seed :: "database \<Rightarrow> seed_row \<Rightarrow> exn option" where
  "check_seed d r = check_row (int4 (s_nonce r))
     (s_id r \<notin> s_id ` set (seed_pairs d) \<and> s_user_id r \<in> u_id ` set (users d)
      \<and> s_status r \<in> {''active'', ''revealed''}
      \<and> (s_status r = ''active'' \<longrightarrow>
           (\<forall>x \<in> set (seed_pairs d). s_user_id x = s_user_id r \<longrightarrow> s_status x \<noteq> ''active'')))"

definition check_round :: "database \<Rightarrow> round_row \<Rightarrow> exn option" where
  "check_round d r = check_row (int4 (r_nonce r) \<and> (\<forall>v \<in> set_option (r_outcome r). int4 v))
     (r_id r \<notin> r_id ` set (rounds d) \<and> r_user_id r \<in> u_id ` set (users d)
      \<and> r_seed_pair_id r \<in> s_id ` set (seed_pairs d)
      \<and> (\<forall>v \<in> set_option (r_outcome r). 0 \<le> v \<and> v \<le> 36)
      \<and> r_status r \<in> {''pending'', ''settled''}
      \<and> (r_seed_pair_id r, r_nonce r) \<notin> (\<lambda>x. (r_seed_pair_id x, r_nonce x)) ` set (rounds d))"

definition check_bet :: "database \<Rightarrow> bet_row \<Rightarrow> exn option" where
  "check_bet d r = check_row (bigint (b_stake_minor r) \<and> bigint (b_payout_minor r))
     (b_id r \<notin> b_id ` set (bets d) \<and> b_round_id r \<in> r_id ` set (rounds d)
      \<and> 0 < b_stake_minor r \<and> 0 \<le> b_payout_minor r
      \<and> b_status r \<in> {''pending'', ''won'', ''lost''})"

definition check_idem :: "database \<Rightarrow> idem_row \<Rightarrow> exn option" where
  "check_idem d r = check_row True
     (i_id r \<notin> i_id ` set (idem_keys d) \<and> i_user_id r \<in> u_id ` set (users d)
      \<and> (i_user_id r, i_key r) \<notin> (\<lambda>x. (i_user_id x, i_key x)) ` set (idem_keys d)
      \<and> i_status r \<in> {''pending'', ''completed''})"

definition check_token :: "database \<Rightarrow> token_row \<Rightarrow> exn option" where
  "check_token d r = check_row True
     (t_id r \<notin> t_id ` set (refresh_tokens d) \<and> t_user_id r \<in> u_id ` set (users d)
      \<and> t_token_hash r \<notin> t_token_hash ` set (refresh_tokens d))"

definition check_outbox :: "database \<Rightarrow> outbox_row \<Rightarrow> exn option" where
  "check_outbox d r = check_row (int4 (o_attempts r)) (o_id r \<notin> o_id ` set (outbox d))"

lemma check_row_None [simp]: "check_row a b = None \<longleftrightarrow> a \<and> b"
  by (simp add: check_row_def)

lemmas check_defs = check_user_def check_wallet_def check_ledger_def check_seed_def
  check_round_def check_bet_def check_idem_def check_token_def check_outbox_def
  wallet_row_ok_def seed_row_ok_def

section \<open>Running statements\<close>

lemma env_apply [exec_simps]:
  "now_utc w = (Val (clock w (ticks w)), w\<lparr>ticks := ticks w + 1\<rparr>)"
  "uuid4 w = (Val (uuid_source w (uuids_drawn w)), w\<lparr>uuids_drawn := uuids_drawn w + 1\<rparr>)"
  "db_now w = (Val (tx_time w), w)"
  by (simp_all add: now_utc_def uuid4_def db_now_def exec_simps)

lemma bind_env [exec_simps]:
  "bind now_utc g w = g (clock w (ticks w)) (w\<lparr>ticks := ticks w + 1\<rparr>)"
  "bind uuid4 h w = h (uuid_source w (uuids_drawn w)) (w\<lparr>uuids_drawn := uuids_drawn w + 1\<rparr>)"
  "bind db_now k w = k (tx_time w) w"
  "bind (select_rows tbl p) l w = l (filter p (tbl (db w))) w"
  by (simp_all add: bind_def env_apply select_rows_def exec_simps)

lemma insert_into_Val_iff:
  "insert_into upd chk r w = (Val x, w') \<longleftrightarrow>
     chk (db w) r = None \<and> x = r \<and> w' = w\<lparr>db := upd (\<lambda>rs. rs @ [r]) (db w)\<rparr>"
  by (auto simp: insert_into_def split: option.splits)

text \<open>An appended row, and an updated table, as plain record updates.\<close>

lemma append_rows [simp]:
  "users_update (\<lambda>rs. rs @ xs0) d0 = d0\<lparr>users := users d0 @ xs0\<rparr>"
  "wallets_update (\<lambda>rs. rs @ xs1) d1 = d1\<lparr>wallets := wallets d1 @ xs1\<rparr>"
  "ledger_update (\<lambda>rs. rs @ xs2) d2 = d2\<lparr>ledger := ledger d2 @ xs2\<rparr>"
  "seed_pairs_update (\<lambda>rs. rs @ xs3) d3 = d3\<lparr>seed_pairs := seed_pairs d3 @ xs3\<rparr>"
  "rounds_update (\<lambda>rs. rs @ xs4) d4 = d4\<lparr>rounds := rounds d4 @ xs4\<rparr>"
  "bets_update (\<lambda>rs. rs @ xs5) d5 = d5\<lparr>bets := bets d5 @ xs5\<rparr>"
  "idem_keys_update (\<lambda>rs. rs @ xs6) d6 = d6\<lparr>idem_keys := idem_keys d6 @ xs6\<rparr>"
  "refresh_tokens_update (\<lambda>rs. rs @ xs7) d7 = d7\<lparr>refresh_tokens := refresh_tokens d7 @ xs7\<rparr>"
  "outbox_update (\<lambda>rs. rs @ xs8) d8 = d8\<lparr>outbox := outbox d8 @ xs8\<rparr>"
  by simp_all

lemma first_error_None_iff: "first_error chk rs = None \<longleftrightarrow> (\<forall>r \<in> set rs. chk r = None)"
  by (induction rs) (auto split: option.splits)

lemma update_returning_Val_iff:
  "update_returning tbl upd chk p f w = (Val rows, w') \<longleftrightarrow>
     rows = map f (filter p (tbl (db w))) \<and> (\<forall>r \<in> set rows. chk r = None)
     \<and> w' = w\<lparr>db := upd (update_where p f) (db w)\<rparr>"
proof (cases "first_error chk (map f (filter p (tbl (db w))))")
  case None
  then show ?thesis
    unfolding update_returning_def Let_def None using None [unfolded first_error_None_iff]
    by (simp del: set_map) blast
next
  case (Some e)
  then have "\<not> (\<forall>r \<in> set (map f (filter p (tbl (db w)))). chk r = None)"
    using first_error_None_iff [of chk "map f (filter p (tbl (db w)))"] by simp
  then show ?thesis
    unfolding update_returning_def Let_def Some by (auto simp del: set_map)
qed

subsection \<open>Frames\<close>

text \<open>A statement leaves every part of the world alone that its table is not part of.\<close>

lemma keeps_env [frame_rules]:
  "(\<And>w t. f (w\<lparr>ticks := t\<rparr>) = f w) \<Longrightarrow> keeps f now_utc"
  "(\<And>w n. g (w\<lparr>uuids_drawn := n\<rparr>) = g w) \<Longrightarrow> keeps g uuid4"
  "(\<And>w n. h (w\<lparr>bytes_drawn := n\<rparr>) = h w) \<Longrightarrow> keeps h (token_bytes n)"
  "keeps i db_now"
  "keeps j (select_rows tbl p)"
  by (auto simp: keeps_def now_utc_def uuid4_def token_bytes_def db_now_def select_rows_def exec_simps)

lemma keeps_insert_into [frame_rules]:
  "(\<And>w u. f (w\<lparr>db := upd u (db w)\<rparr>) = f w) \<Longrightarrow> keeps f (insert_into upd chk r)"
  by (auto simp: keeps_def insert_into_def split: option.splits)

lemma keeps_update_returning [frame_rules]:
  "(\<And>w u. f (w\<lparr>db := upd u (db w)\<rparr>) = f w) \<Longrightarrow> keeps f (update_returning tbl upd chk p g)"
  by (auto simp: keeps_def update_returning_def Let_def split: option.splits)

lemma keeps_update_rows [frame_rules]:
  "(\<And>w u. f (w\<lparr>db := upd u (db w)\<rparr>) = f w) \<Longrightarrow> keeps f (update_rows upd p g)"
  by (auto simp: keeps_def update_rows_def exec_simps)

subsection \<open>Transactions\<close>

text \<open>A body that does not commit by itself: the committed tables are the ones at its start.\<close>

abbreviation no_commit :: "(world, 'a) exec \<Rightarrow> bool" where
  "no_commit m \<equiv> keeps committed m"

definition start_tx :: "world \<Rightarrow> world" where
  "start_tx w = w\<lparr>committed := db w, tx_time := clock w (ticks w), ticks := ticks w + 1\<rparr>"

lemma start_tx_simps [simp]:
  "db (start_tx w) = db w" "committed (start_tx w) = db w"
  "uuid_source (start_tx w) = uuid_source w" "uuids_drawn (start_tx w) = uuids_drawn w"
  "tx_time (start_tx w) = clock w (ticks w)" "clock (start_tx w) = clock w"
  "byte_source (start_tx w) = byte_source w" "bytes_drawn (start_tx w) = bytes_drawn w"
  by (simp_all add: start_tx_def)

lemma bind_begin_tx [exec_simps]: "bind begin_tx f w = f () (start_tx w)"
  by (simp add: bind_def begin_tx_def start_tx_def)

lemma unit_of_work_Val:
  "unit_of_work m w = (Val x, w') \<longleftrightarrow>
     (\<exists>w1. m (start_tx w) = (Val x, w1) \<and> w' = w1\<lparr>committed := db w1\<rparr>)"
  by (auto simp: unit_of_work_def exec_simps split: prod.splits result.splits)

lemma unit_of_work_rollback:
  assumes "no_commit m" and "unit_of_work m w = (r, w')" and "\<And>x. r \<noteq> Val x"
  shows "db w' = db w"
proof -
  obtain q w1 where m: "m (start_tx w) = (q, w1)" by force
  have "committed w1 = db w"
    using keepsD [OF assms(1) m] by simp
  with m assms(2,3) show ?thesis
    by (auto simp: unit_of_work_def exec_simps split: result.splits)
qed

text \<open>An invariant of the tables that every successful body keeps is kept by the transaction.\<close>

lemma unit_of_work_invariant:
  assumes "no_commit m"
    and "\<And>w x w'. m w = (Val x, w') \<Longrightarrow> I (db w) \<Longrightarrow> I (db w')"
    and "I (db w)" and "unit_of_work m w = (r, w')"
  shows "I (db w')"
proof (cases r)
  case (Val x)
  with assms(4) obtain w1 where "m (start_tx w) = (Val x, w1)" "db w' = db w1"
    by (auto simp: unit_of_work_Val)
  with assms(2) [of "start_tx w" x w1] assms(3) show ?thesis by simp
next
  case (Exc e)
  with unit_of_work_rollback [OF assms(1,4)] assms(3) show ?thesis by simp
next
  case NoReturn
  with unit_of_work_rollback [OF assms(1,4)] assms(3) show ?thesis by simp
qed

end
