(* ===== verification/Demo_World.thy ===== *)
theory Demo_World
  imports Db_Model Fair_Outcome
begin

text \<open>
  A small concrete world to run the services on: one user with a wallet of ten euro, opened by
  one deposit, and one active seed pair with the fixed seeds.
\<close>

definition demo_db :: database where
  "demo_db = \<lparr>
     users = [\<lparr>u_id = 1, u_email = ''ana@mail.com'', u_password_hash = ''h'',
       u_status = ''active'', u_created_at = 0\<rparr>],
     wallets = [\<lparr>w_id = 7, w_user_id = 1, w_balance_minor = 1000, w_currency = ''EUR''\<rparr>],
     ledger = [\<lparr>l_id = 8, l_wallet_id = 7, l_amount_minor = 1000, l_balance_after_minor = 1000,
       l_kind = ''deposit'', l_ref_type = None, l_ref_id = None, l_created_at = 0\<rparr>],
     seed_pairs = [\<lparr>s_id = 9, s_user_id = 1, s_server_seed = demo_server_seed,
       s_server_seed_hash = hash_seed demo_server_seed, s_client_seed = demo_client_seed,
       s_nonce = 0, s_status = ''active'', s_revealed_at = None, s_created_at = 0\<rparr>],
     rounds = [], bets = [], idem_keys = [], refresh_tokens = [], outbox = []\<rparr>"

definition demo_world :: world where
  "demo_world = \<lparr>db = demo_db, committed = demo_db, tx_time = 0,
     clock = (\<lambda>n. 1000000 * int (n + 1)), ticks = 0,
     uuid_source = (\<lambda>n. 100 + n), uuids_drawn = 0,
     byte_source = of_nat, bytes_drawn = 0\<rparr>"

lemmas demo_defs = demo_db_def demo_world_def

end
