(* ===== verification/Wallet_Store.thy ===== *)
theory Wallet_Store
  imports Demo_World
begin

text \<open>
  \<open>app/repositories/wallets.py\<close> and the writing half of \<open>app/repositories/ledger.py\<close>: the two
  atomic statements that move money and the append-only ledger, the contract they offer to
  the services (\<open>account_store\<close>) and the bookkeeping invariant that ties them: the balance of
  a wallet is the running sum of its ledger entries.
\<close>

section \<open>Operations\<close>

definition get_wallet_by_user_id :: "uuid \<Rightarrow> (world, wallet_row option) exec" where
  "get_wallet_by_user_id uid =
     bind (select_rows wallets (\<lambda>r. w_user_id r = uid)) (\<lambda>rows.
     lift_sum (scalar_one_or_none rows))"

definition wallet_debit :: "uuid \<Rightarrow> money \<Rightarrow> (world, int) exec" where
  "wallet_debit wid amount =
     bind (unless_raise (bigint (minor amount)) DataError) (\<lambda>_.
     bind (update_returning wallets wallets_update wallet_row_ok
             (\<lambda>r. w_id r = wid \<and> minor amount \<le> w_balance_minor r)
             (\<lambda>r. r\<lparr>w_balance_minor := w_balance_minor r - minor amount\<rparr>)) (\<lambda>rows.
     bind (lift_sum (scalar_one_or_none (map w_balance_minor rows))) (\<lambda>new_balance.
     case new_balance of None \<Rightarrow> throw InsufficientFundsError | Some b \<Rightarrow> ret b)))"

definition wallet_credit :: "uuid \<Rightarrow> money \<Rightarrow> (world, int) exec" where
  "wallet_credit wid amount =
     bind (unless_raise (bigint (minor amount)) DataError) (\<lambda>_.
     bind (update_returning wallets wallets_update wallet_row_ok
             (\<lambda>r. w_id r = wid)
             (\<lambda>r. r\<lparr>w_balance_minor := w_balance_minor r + minor amount\<rparr>)) (\<lambda>rows.
     lift_sum (scalar_one (map w_balance_minor rows))))"

definition ledger_append ::
  "uuid \<Rightarrow> money \<Rightarrow> int \<Rightarrow> string \<Rightarrow> string option \<Rightarrow> uuid option \<Rightarrow> (world, ledger_row) exec" where
  "ledger_append wid amount balance_after kind ref_type ref_id =
     bind uuid4 (\<lambda>eid.
     bind db_now (\<lambda>t.
     insert_into ledger_update check_ledger
       \<lparr>l_id = eid, l_wallet_id = wid, l_amount_minor = minor amount,
        l_balance_after_minor = balance_after, l_kind = kind, l_ref_type = ref_type,
        l_ref_id = ref_id, l_created_at = t\<rparr>))"

section \<open>Wallets as accounts\<close>

definition wallets_ok :: "database \<Rightarrow> bool" where
  "wallets_ok d \<longleftrightarrow> distinct (map w_id (wallets d)) \<and> distinct (map w_user_id (wallets d))
     \<and> (\<forall>r \<in> set (wallets d). 0 \<le> w_balance_minor r)"

definition balance_of :: "database \<Rightarrow> uuid \<Rightarrow> int option" where
  "balance_of d wid = map_of (map (\<lambda>r. (w_id r, w_balance_minor r)) (wallets d)) wid"

definition add_balance :: "uuid \<Rightarrow> int \<Rightarrow> wallet_row list \<Rightarrow> wallet_row list" where
  "add_balance wid n = update_where (\<lambda>r. w_id r = wid) (\<lambda>r. r\<lparr>w_balance_minor := w_balance_minor r + n\<rparr>)"

lemma add_balance_keys [simp]:
  "map w_id (add_balance wid n rows) = map w_id rows"
  "map w_user_id (add_balance wid n rows) = map w_user_id rows"
  by (simp_all add: add_balance_def)

lemma add_balance_add [simp]: "add_balance wid m (add_balance wid n rows) = add_balance wid (n + m) rows"
  by (induction rows) (simp_all add: add_balance_def)

lemma add_balance_sets [simp]:
  "w_id ` set (add_balance wid n rows) = w_id ` set rows"
  "w_user_id ` set (add_balance wid n rows) = w_user_id ` set rows"
  using add_balance_keys [of wid n rows] by (metis set_map)+

lemma balance_of_Some:
  assumes "wallets_ok d"
  shows "balance_of d wid = Some b \<longleftrightarrow> (\<exists>r \<in> set (wallets d). w_id r = wid \<and> w_balance_minor r = b)"
proof -
  have "distinct (map fst (map (\<lambda>r. (w_id r, w_balance_minor r)) (wallets d)))"
    using assms by (simp add: wallets_ok_def comp_def)
  from map_of_eq_Some_iff [OF this] show ?thesis
    by (auto simp: balance_of_def)
qed

lemma balance_of_add:
  "balance_of (d\<lparr>wallets := add_balance wid n (wallets d)\<rparr>)
     = (balance_of d)(wid := map_option (\<lambda>b. b + n) (balance_of d wid))"
proof -
  have "map_of (map (\<lambda>r. (w_id r, w_balance_minor r)) (add_balance wid n rows)) x
      = (if x = wid then map_option (\<lambda>b. b + n) (map_of (map (\<lambda>r. (w_id r, w_balance_minor r)) rows) x)
         else map_of (map (\<lambda>r. (w_id r, w_balance_minor r)) rows) x)" for x rows
    by (induction rows) (auto simp: add_balance_def)
  then show ?thesis by (auto simp: balance_of_def fun_eq_iff)
qed

lemma wallets_ok_add:
  assumes "wallets_ok d" "balance_of d wid = Some b" "0 \<le> b + n"
  shows "wallets_ok (d\<lparr>wallets := add_balance wid n (wallets d)\<rparr>)"
proof -
  obtain q where q: "q \<in> set (wallets d)" "w_id q = wid" "w_balance_minor q = b"
    using assms(1,2) by (auto simp: balance_of_Some)
  have "0 \<le> w_balance_minor r" if "r \<in> set (add_balance wid n (wallets d))" for r
  proof -
    from that obtain r' where r': "r' \<in> set (wallets d)"
      "r = (if w_id r' = wid then r'\<lparr>w_balance_minor := w_balance_minor r' + n\<rparr> else r')"
      by (auto simp: add_balance_def set_update_where)
    show ?thesis
    proof (cases "w_id r' = wid")
      case True
      with q r'(1) assms(1) have "r' = q"
        unfolding wallets_ok_def distinct_map by (auto dest: inj_onD)
      with True r'(2) q(3) assms(3) show ?thesis by simp
    next
      case False
      with r' assms(1) show ?thesis by (simp add: wallets_ok_def)
    qed
  qed
  with assms(1) show ?thesis by (simp add: wallets_ok_def)
qed

section \<open>Effects\<close>

text \<open>What a successful debit, credit or append does to the tables, and when it succeeds.\<close>

text \<open>A debit and a credit as single steps on the balance of one wallet.\<close>

definition move_balance :: "uuid \<Rightarrow> int \<Rightarrow> world \<Rightarrow> world" where
  "move_balance wid n w = w\<lparr>db := (db w)\<lparr>wallets := add_balance wid n (wallets (db w))\<rparr>\<rparr>"

lemma balance_of_None:
  "balance_of d wid = None \<longleftrightarrow> (\<forall>r \<in> set (wallets d). w_id r \<noteq> wid)"
  by (auto simp: balance_of_def map_of_eq_None_iff image_iff)

lemma wallet_unique:
  "wallets_ok d \<Longrightarrow> q \<in> set (wallets d) \<Longrightarrow> r \<in> set (wallets d) \<Longrightarrow> w_id q = w_id r \<Longrightarrow> q = r"
  unfolding wallets_ok_def distinct_map by (auto dest: inj_onD)

lemma wallet_debit_spec:
  assumes ok: "wallets_ok (db w)"
  shows "wallet_debit wid amount w =
    (if \<not> bigint (minor amount) then (Exc DataError, w) else
     case balance_of (db w) wid of
       None \<Rightarrow> (Exc InsufficientFundsError, w)
     | Some b \<Rightarrow>
         if b < minor amount then (Exc InsufficientFundsError, w)
         else if \<not> bigint (b - minor amount) then (Exc DataError, w)
         else (Val (b - minor amount), move_balance wid (- minor amount) w))"
proof (cases "bigint (minor amount)")
  case True
  let ?p = "\<lambda>r. w_id r = wid \<and> minor amount \<le> w_balance_minor r"
  let ?f = "\<lambda>r. r\<lparr>w_balance_minor := w_balance_minor r - minor amount\<rparr>"
  show ?thesis
  proof (cases "\<exists>r \<in> set (wallets (db w)). ?p r")
    case False
    then have "filter ?p (wallets (db w)) = []" "update_where ?p ?f (wallets (db w)) = wallets (db w)"
      by (auto simp: filter_empty_conv intro: update_where_none)
    then have "wallet_debit wid amount w = (Exc InsufficientFundsError, w)"
      by (simp add: wallet_debit_def exec_simps True update_returning_def bind_def)
    moreover have "balance_of (db w) wid = None \<or> (\<exists>b. balance_of (db w) wid = Some b \<and> b < minor amount)"
      using False balance_of_Some [OF ok] by (cases "balance_of (db w) wid") force+
    ultimately show ?thesis using True by auto
  next
    case True': True
    then obtain r where r: "r \<in> set (wallets (db w))" "?p r" by blast
    have same: "x = r" if "x \<in> set (wallets (db w))" "w_id x = wid" for x
      by (rule wallet_unique [OF ok that(1) r(1)]) (use r that in simp)
    have "filter ?p (wallets (db w)) = filter (\<lambda>x. w_id x = w_id r) (wallets (db w))"
      using r by (intro filter_cong) (auto dest: same)
    then have one: "filter ?p (wallets (db w)) = [r]"
      using filter_key_singleton [OF _ r(1), of w_id] ok by (simp add: wallets_ok_def)
    have upd: "update_where ?p ?f (wallets (db w)) = add_balance wid (- minor amount) (wallets (db w))"
      unfolding add_balance_def update_where_def
      using r by (intro map_cong) (auto dest: same)
    have bal: "balance_of (db w) wid = Some (w_balance_minor r)"
      using r balance_of_Some [OF ok] by blast
    have stmt: "update_returning wallets wallets_update wallet_row_ok ?p ?f w =
      (if bigint (w_balance_minor r - minor amount) then (Val [?f r], move_balance wid (- minor amount) w)
       else (Exc DataError, w))"
      using r(2) unfolding update_returning_def one Let_def move_balance_def
      by (simp add: wallet_row_ok_def check_row_def flip: upd)
    show ?thesis
      using True r(2) by (simp add: wallet_debit_def exec_simps bind_def [of "update_returning _ _ _ _ _"]
          bind_def [of "lift_sum _"] stmt bal)
  qed
qed (simp add: wallet_debit_def exec_simps)

lemma wallet_credit_spec:
  assumes ok: "wallets_ok (db w)"
  shows "wallet_credit wid amount w =
    (if \<not> bigint (minor amount) then (Exc DataError, w) else
     case balance_of (db w) wid of
       None \<Rightarrow> (Exc NoResultFound, w)
     | Some b \<Rightarrow>
         if \<not> bigint (b + minor amount) then (Exc DataError, w)
         else if b + minor amount < 0 then (Exc IntegrityError, w)
         else (Val (b + minor amount), move_balance wid (minor amount) w))"
proof (cases "bigint (minor amount)")
  case True
  have d: "distinct (map w_id (wallets (db w)))" using ok by (simp add: wallets_ok_def)
  then show ?thesis
  proof (cases rule: filter_key_cases [where a = wid])
    case none
    moreover have "update_where (\<lambda>r. w_id r = wid) f (wallets (db w)) = wallets (db w)" for f
      using none by (auto intro: update_where_none)
    moreover have "balance_of (db w) wid = None" using none(2) by (auto simp: balance_of_None)
    ultimately show ?thesis
      using True by (simp add: wallet_credit_def exec_simps update_returning_def bind_def)
  next
    case (one r)
    then have "balance_of (db w) wid = Some (w_balance_minor r)"
      using balance_of_Some [OF ok] by blast
    with one True show ?thesis
      by (simp add: wallet_credit_def exec_simps update_returning_def bind_def wallet_row_ok_def
          check_row_def move_balance_def add_balance_def)
  qed
qed (simp add: wallet_credit_def exec_simps)

lemma wallet_debit_Val:
  assumes "wallets_ok (db w)" and "wallet_debit wid amount w = (Val n, w')"
  shows "balance_of (db w) wid = Some (n + minor amount) \<and> 0 \<le> n
    \<and> w' = move_balance wid (- minor amount) w"
  using assms(2) unfolding wallet_debit_spec [OF assms(1)]
  by (auto split: if_splits option.splits)

lemma wallet_credit_Val:
  assumes "wallets_ok (db w)" and "wallet_credit wid amount w = (Val n, w')"
  shows "balance_of (db w) wid = Some (n - minor amount) \<and> 0 \<le> n
    \<and> w' = move_balance wid (minor amount) w"
  using assms(2) unfolding wallet_credit_spec [OF assms(1)]
  by (auto split: if_splits option.splits)

lemma ledger_append_Val:
  assumes "ledger_append wid amount after kind rt ri w = (Val e, w')"
  shows "e = \<lparr>l_id = uuid_source w (uuids_drawn w), l_wallet_id = wid, l_amount_minor = minor amount,
        l_balance_after_minor = after, l_kind = kind, l_ref_type = rt, l_ref_id = ri,
        l_created_at = tx_time w\<rparr>
    \<and> check_ledger (db w) e = None
    \<and> w' = w\<lparr>uuids_drawn := uuids_drawn w + 1, db := (db w)\<lparr>ledger := ledger (db w) @ [e]\<rparr>\<rparr>"
  using assms unfolding ledger_append_def
  by (auto simp: exec_simps insert_into_Val_iff)

lemma get_wallet_Val:
  "get_wallet_by_user_id uid w = (Val r, w') \<longleftrightarrow>
     w' = w \<and> scalar_one_or_none (filter (\<lambda>r. w_user_id r = uid) (wallets (db w))) = Inr r"
  unfolding get_wallet_by_user_id_def by (auto simp: exec_simps lift_sum_Val_iff)

lemma balance_of_move: "balance_of (db (move_balance wid n w))
    = (balance_of (db w))(wid := map_option (\<lambda>b. b + n) (balance_of (db w) wid))"
  by (simp add: move_balance_def balance_of_add)

lemma wallets_ok_move:
  "wallets_ok (db w) \<Longrightarrow> balance_of (db w) wid = Some b \<Longrightarrow> 0 \<le> b + n \<Longrightarrow>
     wallets_ok (db (move_balance wid n w))"
  by (simp add: move_balance_def wallets_ok_add)

subsection \<open>Frames\<close>

lemma keeps_wallet_ops [frame_rules]:
  "(\<And>w u. f (w\<lparr>db := wallets_update u (db w)\<rparr>) = f w) \<Longrightarrow> keeps f (wallet_debit wid amount)"
  "(\<And>w u. g (w\<lparr>db := wallets_update u (db w)\<rparr>) = g w) \<Longrightarrow> keeps g (wallet_credit wid amount)"
  "keeps h (get_wallet_by_user_id uid)"
  unfolding wallet_debit_def wallet_credit_def get_wallet_by_user_id_def
  by (auto intro!: frame_rules)

lemma keeps_ledger_append [frame_rules]:
  "(\<And>w u. f (w\<lparr>db := ledger_update u (db w)\<rparr>) = f w) \<Longrightarrow> (\<And>w n. f (w\<lparr>uuids_drawn := n\<rparr>) = f w) \<Longrightarrow>
     keeps f (ledger_append wid amount after kind rt ri)"
  unfolding ledger_append_def by (auto intro!: frame_rules)

section \<open>The contract of the account store\<close>

text \<open>
  What a service may rely on: a debit or a credit is one indivisible change of one account,
  a debit succeeds only when the balance covers it, and a refused operation changes nothing.
  A schedule is any interleaving of such statements, whoever issues them.
\<close>

datatype account_op = Debit uuid money | Credit uuid money

fun run_op ::
  "(uuid \<Rightarrow> money \<Rightarrow> ('s, int) exec) \<Rightarrow> (uuid \<Rightarrow> money \<Rightarrow> ('s, int) exec) \<Rightarrow> account_op
     \<Rightarrow> 's \<Rightarrow> (uuid \<times> int) list \<times> 's" where
  "run_op deb cre (Debit a m) s =
     (case deb a m s of (Val _, t) \<Rightarrow> ([(a, - minor m)], t) | (_, t) \<Rightarrow> ([], t))"
| "run_op deb cre (Credit a m) s =
     (case cre a m s of (Val _, t) \<Rightarrow> ([(a, minor m)], t) | (_, t) \<Rightarrow> ([], t))"

fun run_ops ::
  "(uuid \<Rightarrow> money \<Rightarrow> ('s, int) exec) \<Rightarrow> (uuid \<Rightarrow> money \<Rightarrow> ('s, int) exec) \<Rightarrow> account_op list
     \<Rightarrow> 's \<Rightarrow> (uuid \<times> int) list \<times> 's" where
  "run_ops deb cre [] s = ([], s)"
| "run_ops deb cre (op # ops) s =
     (let (now, t) = run_op deb cre op s; (later, u) = run_ops deb cre ops t in (now @ later, u))"

definition moved :: "uuid \<Rightarrow> (uuid \<times> int) list \<Rightarrow> int" where
  "moved a ms = sum_list (map snd (filter (\<lambda>m. fst m = a) ms))"

lemma moved_simps [simp]:
  "moved a [] = 0" "moved a ((c, n) # ms) = (if c = a then n else 0) + moved a ms"
  "moved a (ms @ ns) = moved a ms + moved a ns"
  by (simp_all add: moved_def)

locale account_store =
  fixes ok :: "'s \<Rightarrow> bool"
    and view :: "'s \<Rightarrow> uuid \<Rightarrow> int option"
    and debit credit :: "uuid \<Rightarrow> money \<Rightarrow> ('s, int) exec"
  assumes view_nonneg: "ok s \<Longrightarrow> view s a = Some b \<Longrightarrow> 0 \<le> b"
    and debit_done: "ok s \<Longrightarrow> debit a m s = (Val n, t) \<Longrightarrow>
      ok t \<and> view s a = Some (n + minor m) \<and> view t = (view s)(a \<mapsto> n)"
    and credit_done: "ok s \<Longrightarrow> credit a m s = (Val n, t) \<Longrightarrow>
      ok t \<and> view s a = Some (n - minor m) \<and> view t = (view s)(a \<mapsto> n)"
    and debit_refused: "ok s \<Longrightarrow> debit a m s = (r, t) \<Longrightarrow> (\<And>n. r \<noteq> Val n) \<Longrightarrow> t = s"
    and credit_refused: "ok s \<Longrightarrow> credit a m s = (r, t) \<Longrightarrow> (\<And>n. r \<noteq> Val n) \<Longrightarrow> t = s"
begin

lemma run_op_balance:
  assumes "ok s" "run_op debit credit op s = (ms, t)"
  shows "ok t \<and> view t a = map_option (\<lambda>b. b + moved a ms) (view s a)"
proof (cases op)
  case (Debit c m)
  obtain r u where run: "debit c m s = (r, u)" by force
  show ?thesis
  proof (cases r)
    case (Val n)
    from debit_done [OF assms(1) run [unfolded Val]] show ?thesis
      using assms(2) Debit run Val by (auto simp: option.map_ident)
  qed (use assms Debit run debit_refused [OF assms(1) run] in \<open>auto simp: option.map_ident\<close>)
next
  case (Credit c m)
  obtain r u where run: "credit c m s = (r, u)" by force
  show ?thesis
  proof (cases r)
    case (Val n)
    from credit_done [OF assms(1) run [unfolded Val]] show ?thesis
      using assms(2) Credit run Val by (auto simp: option.map_ident)
  qed (use assms Credit run credit_refused [OF assms(1) run] in \<open>auto simp: option.map_ident\<close>)
qed

lemma run_ops_balance:
  "ok s \<Longrightarrow> run_ops debit credit ops s = (ms, t) \<Longrightarrow>
     ok t \<and> view t a = map_option (\<lambda>b. b + moved a ms) (view s a)"
proof (induction ops arbitrary: s ms)
  case Nil
  then show ?case by (simp add: option.map_ident)
next
  case (Cons op ops)
  obtain now u where first: "run_op debit credit op s = (now, u)" by force
  obtain later v where rest: "run_ops debit credit ops u = (later, v)" by force
  from first rest Cons.prems(2) have "ms = now @ later" "v = t" by (simp_all add: Let_def)
  with Cons.IH [of u later] rest run_op_balance [OF Cons.prems(1) first, of a] show ?case
    by (auto simp: option.map_comp comp_def algebra_simps)
qed

lemma run_ops_covered:
  assumes "ok s" "run_ops debit credit ops s = (ms, t)" "view s a = Some b"
  shows "\<exists>b'. view t a = Some b' \<and> b' = b + moved a ms \<and> 0 \<le> b'"
proof -
  have "ok t" "view t a = Some (b + moved a ms)"
    using run_ops_balance [OF assms(1,2), of a] assms(3) by simp_all
  with view_nonneg [of t a] show ?thesis by simp
qed

end

text \<open>The wallets repository is such a store.\<close>

interpretation wallet: account_store "\<lambda>w. wallets_ok (db w)" "\<lambda>w. balance_of (db w)" wallet_debit wallet_credit
proof unfold_locales
  fix w a b assume "wallets_ok (db w)" "balance_of (db w) a = Some b"
  then show "0 \<le> b" by (auto simp: balance_of_Some) (simp add: wallets_ok_def)
next
  fix w w' :: world and a m n assume ok: "wallets_ok (db w)" and "wallet_debit a m w = (Val n, w')"
  from wallet_debit_Val [OF this]
  have *: "balance_of (db w) a = Some (n + minor m)" "0 \<le> n" "w' = move_balance a (- minor m) w"
    by simp_all
  then show "wallets_ok (db w') \<and> balance_of (db w) a = Some (n + minor m)
      \<and> balance_of (db w') = (balance_of (db w))(a \<mapsto> n)"
    using wallets_ok_move [OF ok *(1)] by (simp add: balance_of_move)
next
  fix w w' :: world and a m n assume ok: "wallets_ok (db w)" and "wallet_credit a m w = (Val n, w')"
  from wallet_credit_Val [OF this]
  have *: "balance_of (db w) a = Some (n - minor m)" "0 \<le> n" "w' = move_balance a (minor m) w"
    by simp_all
  then show "wallets_ok (db w') \<and> balance_of (db w) a = Some (n - minor m)
      \<and> balance_of (db w') = (balance_of (db w))(a \<mapsto> n)"
    using wallets_ok_move [OF ok *(1)] by (simp add: balance_of_move)
next
  fix w w' :: world and a m and r :: "int result"
  assume "wallets_ok (db w)" "wallet_debit a m w = (r, w')" "\<And>n. r \<noteq> Val n"
  then show "w' = w" by (auto simp: wallet_debit_spec split: if_splits option.splits)
next
  fix w w' :: world and a m and r :: "int result"
  assume "wallets_ok (db w)" "wallet_credit a m w = (r, w')" "\<And>n. r \<noteq> Val n"
  then show "w' = w" by (auto simp: wallet_credit_spec split: if_splits option.splits)
qed

section \<open>The books\<close>

text \<open>
  A list of ledger entries carries the balance \<open>b\<close> to the result of \<open>books b\<close> when every entry
  records the balance that it leaves; it is \<open>None\<close> when one does not.
\<close>

fun books :: "int \<Rightarrow> ledger_row list \<Rightarrow> int option" where
  "books b [] = Some b"
| "books b (e # es) =
     (if l_balance_after_minor e = b + l_amount_minor e \<and> 0 \<le> l_balance_after_minor e
      then books (l_balance_after_minor e) es else None)"

definition entries :: "database \<Rightarrow> uuid \<Rightarrow> ledger_row list" where
  "entries d wid = filter (\<lambda>e. l_wallet_id e = wid) (ledger d)"

definition books_balance :: "database \<Rightarrow> bool" where
  "books_balance d \<longleftrightarrow> wallets_ok d
     \<and> (\<forall>e \<in> set (ledger d). l_wallet_id e \<in> w_id ` set (wallets d))
     \<and> (\<forall>wid b. balance_of d wid = Some b \<longrightarrow> books 0 (entries d wid) = Some b)"

lemma books_append: "books b (xs @ ys) = Option.bind (books b xs) (\<lambda>c. books c ys)"
  by (induction xs arbitrary: b) auto

lemma books_sum: "books b es = Some c \<Longrightarrow> c = b + sum_list (map l_amount_minor es)"
  by (induction es arbitrary: b) (fastforce split: if_splits)+

text \<open>A wallet moved by what a run of new entries records keeps the books.\<close>

lemma books_balance_step:
  assumes inv: "books_balance d" and b: "balance_of d wid = Some b"
    and es: "\<forall>e \<in> set es. l_wallet_id e = wid" "books b es = Some c" "0 \<le> c"
    and w': "wallets d' = add_balance wid (c - b) (wallets d)" and l': "ledger d' = ledger d @ es"
  shows "books_balance d'"
proof -
  let ?d = "d\<lparr>wallets := add_balance wid (c - b) (wallets d)\<rparr>"
  have ok: "wallets_ok d" using inv by (simp add: books_balance_def)
  have "balance_of d' = balance_of ?d" by (simp add: balance_of_def w' fun_eq_iff)
  then have bal: "balance_of d' = (balance_of d)(wid \<mapsto> c)" using b by (simp add: balance_of_add)
  have "wallets_ok ?d" using wallets_ok_add [OF ok b, of "c - b"] es(3) by simp
  then have "wallets_ok d'" by (simp add: wallets_ok_def w')
  moreover have "l_wallet_id e \<in> w_id ` set (wallets d')" if "e \<in> set (ledger d')" for e
  proof -
    from b have "wid \<in> w_id ` set (wallets d)" using balance_of_Some [OF ok] by auto
    with that inv es(1) show ?thesis by (auto simp: books_balance_def w' l')
  qed
  moreover have "books 0 (entries d' x) = Some y" if "balance_of d' x = Some y" for x y
  proof (cases "x = wid")
    case True
    have "entries d' wid = entries d wid @ es"
      using es(1) by (simp add: entries_def l' filter_id_conv)
    with True that inv b es(2) show ?thesis by (simp add: books_balance_def books_append bal)
  next
    case False
    have "entries d' x = entries d x" using False es(1) by (simp add: entries_def l' filter_empty_conv)
    with False that inv show ?thesis by (simp add: books_balance_def bal)
  qed
  ultimately show ?thesis unfolding books_balance_def by blast
qed

text \<open>Statements on other tables do not touch the books.\<close>

lemma books_balance_frame:
  "wallets d' = wallets d \<Longrightarrow> ledger d' = ledger d \<Longrightarrow> books_balance d' = books_balance d"
  by (simp add: books_balance_def wallets_ok_def balance_of_def entries_def)

lemma demo_books_balance: "books_balance (db demo_world)"
  by (auto simp: demo_defs books_balance_def wallets_ok_def balance_of_def entries_def split: if_splits)

section \<open>Properties\<close>

text \<open>
  the debit statement, on every branch: an amount that is no 64-bit integer is refused by
  the driver, a missing wallet and a balance below the amount raise \<open>InsufficientFundsError\<close>
  and change nothing, and otherwise the balance drops by exactly the amount, in one statement.
\<close>

theorem debit_on_every_branch:
  assumes "wallets_ok (db w)"
  shows "wallet_debit wid amount w =
    (if \<not> bigint (minor amount) then (Exc DataError, w) else
     case balance_of (db w) wid of
       None \<Rightarrow> (Exc InsufficientFundsError, w)
     | Some b \<Rightarrow>
         if b < minor amount then (Exc InsufficientFundsError, w)
         else if \<not> bigint (b - minor amount) then (Exc DataError, w)
         else (Val (b - minor amount), move_balance wid (- minor amount) w))"
  by (rule wallet_debit_spec [OF assms])

lemma demo_wallets_ok: "wallets_ok (db demo_world)"
  by (simp add: demo_defs wallets_ok_def)

theorem debit_on_every_branch_witness:
  "wallet_debit 7 (eur 400) demo_world = (Val 600, move_balance 7 (- 400) demo_world)"
  using debit_on_every_branch [OF demo_wallets_ok, of 7 "eur 400"]
  by (simp add: demo_defs balance_of_def bigint_def)

text \<open>
  C8: no schedule overdraws a wallet: whatever debits and credits on whatever wallets the
  concurrent requests issue, in whatever order the statements reach the database, the balance
  of each wallet ends as it began plus its accepted credits minus its accepted debits, and
  it is never negative.
\<close>

theorem schedule_never_overdraws:
  assumes "wallets_ok (db w)" "run_ops wallet_debit wallet_credit ops w = (ms, w')"
    and "balance_of (db w) wid = Some b"
  shows "\<exists>b'. balance_of (db w') wid = Some b' \<and> b' = b + moved wid ms \<and> 0 \<le> b'"
  by (rule wallet.run_ops_covered [OF assms])

theorem schedule_never_overdraws_witness:
  "\<exists>b'. balance_of (db (snd (run_ops wallet_debit wallet_credit
      [Debit 7 (eur 600), Debit 7 (eur 600), Credit 7 (eur 50)] demo_world))) 7 = Some b'
    \<and> b' = 1000 + moved 7 (fst (run_ops wallet_debit wallet_credit
      [Debit 7 (eur 600), Debit 7 (eur 600), Credit 7 (eur 50)] demo_world)) \<and> 0 \<le> b'"
  by (rule schedule_never_overdraws [OF demo_wallets_ok prod.collapse [symmetric]])
    (simp add: demo_defs balance_of_def)

end
