(* ===== verification/Seed_Store.thy ===== *)
theory Seed_Store
  imports Demo_World
begin

text \<open>
  \<open>app/repositories/seed_pairs.py\<close>: the active seed pair of a user, the atomic counter of its
  spins, the reveal and the creation of a new pair; the contract of the counter
  (\<open>nonce_source\<close>) and the invariant of the table: at most one active pair per user, each pair
  committed to by the hash of its seed.
\<close>

section \<open>Operations\<close>

definition get_active_by_user_id :: "uuid \<Rightarrow> (world, seed_row option) exec" where
  "get_active_by_user_id uid =
     bind (select_rows seed_pairs (\<lambda>r. s_user_id r = uid \<and> s_status r = ''active'')) (\<lambda>rows.
     lift_sum (scalar_one_or_none rows))"

definition create_active :: "uuid \<Rightarrow> bytes \<Rightarrow> string \<Rightarrow> string \<Rightarrow> (world, seed_row) exec" where
  "create_active uid seed seed_hash cseed =
     bind uuid4 (\<lambda>sid.
     bind db_now (\<lambda>t.
     insert_into seed_pairs_update check_seed
       \<lparr>s_id = sid, s_user_id = uid, s_server_seed = seed, s_server_seed_hash = seed_hash,
        s_client_seed = cseed, s_nonce = 0, s_status = ''active'', s_revealed_at = None,
        s_created_at = t\<rparr>))"

definition consume_nonce :: "uuid \<Rightarrow> (world, int) exec" where
  "consume_nonce pid =
     bind (update_returning seed_pairs seed_pairs_update seed_row_ok
             (\<lambda>r. s_id r = pid) (\<lambda>r. r\<lparr>s_nonce := s_nonce r + 1\<rparr>)) (\<lambda>rows.
     lift_sum (scalar_one (map s_nonce rows)))"

definition reveal_and_deactivate :: "uuid \<Rightarrow> (world, unit) exec" where
  "reveal_and_deactivate pid =
     bind now_utc (\<lambda>t.
     update_rows seed_pairs_update (\<lambda>r. s_id r = pid)
       (\<lambda>r. r\<lparr>s_status := ''revealed'', s_revealed_at := Some t\<rparr>))"

section \<open>Seed pairs as counters\<close>

definition seeds_ok :: "database \<Rightarrow> bool" where
  "seeds_ok d \<longleftrightarrow> distinct (map s_id (seed_pairs d))
     \<and> (\<forall>r \<in> set (seed_pairs d). 0 \<le> s_nonce r \<and> s_server_seed_hash r = hash_seed (s_server_seed r))
     \<and> (\<forall>q \<in> set (seed_pairs d). \<forall>r \<in> set (seed_pairs d).
          s_status q = ''active'' \<and> s_status r = ''active'' \<and> s_user_id q = s_user_id r \<longrightarrow> q = r)"

definition nonce_of :: "database \<Rightarrow> uuid \<Rightarrow> int option" where
  "nonce_of d pid = map_of (map (\<lambda>r. (s_id r, s_nonce r)) (seed_pairs d)) pid"

definition bump_nonce :: "uuid \<Rightarrow> seed_row list \<Rightarrow> seed_row list" where
  "bump_nonce pid = update_where (\<lambda>r. s_id r = pid) (\<lambda>r. r\<lparr>s_nonce := s_nonce r + 1\<rparr>)"

lemma bump_nonce_keys [simp]: "map s_id (bump_nonce pid rows) = map s_id rows"
  by (simp add: bump_nonce_def)

lemma bump_nonce_ids [simp]: "s_id ` set (bump_nonce pid rows) = s_id ` set rows"
  using bump_nonce_keys [of pid rows] by (metis set_map)

lemma in_bump_nonce: "r \<in> set (bump_nonce pid rows) \<longleftrightarrow>
    (\<exists>q \<in> set rows. r = (if s_id q = pid then q\<lparr>s_nonce := s_nonce q + 1\<rparr> else q))"
  by (simp only: bump_nonce_def set_update_where image_iff)

lemma seed_unique:
  "seeds_ok d \<Longrightarrow> q \<in> set (seed_pairs d) \<Longrightarrow> r \<in> set (seed_pairs d) \<Longrightarrow> s_id q = s_id r \<Longrightarrow> q = r"
  unfolding seeds_ok_def distinct_map by (auto dest: inj_onD)

lemma nonce_of_Some:
  assumes "seeds_ok d"
  shows "nonce_of d pid = Some n \<longleftrightarrow> (\<exists>r \<in> set (seed_pairs d). s_id r = pid \<and> s_nonce r = n)"
proof -
  have "distinct (map fst (map (\<lambda>r. (s_id r, s_nonce r)) (seed_pairs d)))"
    using assms by (simp add: seeds_ok_def comp_def)
  from map_of_eq_Some_iff [OF this] show ?thesis by (auto simp: nonce_of_def)
qed

lemma nonce_of_None: "nonce_of d pid = None \<longleftrightarrow> (\<forall>r \<in> set (seed_pairs d). s_id r \<noteq> pid)"
  by (auto simp: nonce_of_def map_of_eq_None_iff image_iff)

lemma nonce_of_bump:
  "nonce_of (d\<lparr>seed_pairs := bump_nonce pid (seed_pairs d)\<rparr>)
     = (nonce_of d)(pid := map_option (\<lambda>n. n + 1) (nonce_of d pid))"
proof -
  have "map_of (map (\<lambda>r. (s_id r, s_nonce r)) (bump_nonce pid rows)) x
      = (if x = pid then map_option (\<lambda>n. n + 1) (map_of (map (\<lambda>r. (s_id r, s_nonce r)) rows) x)
         else map_of (map (\<lambda>r. (s_id r, s_nonce r)) rows) x)" for x rows
    by (induction rows) (auto simp: bump_nonce_def)
  then show ?thesis by (auto simp: nonce_of_def fun_eq_iff)
qed

lemma seeds_ok_bump:
  assumes ok: "seeds_ok d"
  shows "seeds_ok (d\<lparr>seed_pairs := bump_nonce pid (seed_pairs d)\<rparr>)"
  unfolding seeds_ok_def
proof (intro conjI ballI impI)
  show "distinct (map s_id (seed_pairs (d\<lparr>seed_pairs := bump_nonce pid (seed_pairs d)\<rparr>)))"
    using ok by (simp add: seeds_ok_def)
next
  fix r assume "r \<in> set (seed_pairs (d\<lparr>seed_pairs := bump_nonce pid (seed_pairs d)\<rparr>))"
  then obtain q where "q \<in> set (seed_pairs d)"
    "r = (if s_id q = pid then q\<lparr>s_nonce := s_nonce q + 1\<rparr> else q)"
    by (auto simp: in_bump_nonce)
  with ok show "0 \<le> s_nonce r" "s_server_seed_hash r = hash_seed (s_server_seed r)"
    by (auto simp: seeds_ok_def)
next
  fix q r
  assume q: "q \<in> set (seed_pairs (d\<lparr>seed_pairs := bump_nonce pid (seed_pairs d)\<rparr>))"
    and r: "r \<in> set (seed_pairs (d\<lparr>seed_pairs := bump_nonce pid (seed_pairs d)\<rparr>))"
    and act: "s_status q = ''active'' \<and> s_status r = ''active'' \<and> s_user_id q = s_user_id r"
  from q obtain q' where q': "q' \<in> set (seed_pairs d)"
    "q = (if s_id q' = pid then q'\<lparr>s_nonce := s_nonce q' + 1\<rparr> else q')"
    by (auto simp: in_bump_nonce)
  from r obtain r' where r': "r' \<in> set (seed_pairs d)"
    "r = (if s_id r' = pid then r'\<lparr>s_nonce := s_nonce r' + 1\<rparr> else r')"
    by (auto simp: in_bump_nonce)
  from act q'(2) r'(2) have "s_status q' = ''active'' \<and> s_status r' = ''active'' \<and> s_user_id q' = s_user_id r'"
    by (auto split: if_splits)
  with ok q'(1) r'(1) have "q' = r'" unfolding seeds_ok_def by blast
  with q'(2) r'(2) show "q = r" by simp
qed

section \<open>Effects\<close>

lemma get_active_Val:
  "get_active_by_user_id uid w = (Val r, w') \<longleftrightarrow>
     w' = w \<and> scalar_one_or_none
       (filter (\<lambda>r. s_user_id r = uid \<and> s_status r = ''active'') (seed_pairs (db w))) = Inr r"
  unfolding get_active_by_user_id_def by (auto simp: exec_simps lift_sum_Val_iff)

definition spend_nonce :: "uuid \<Rightarrow> world \<Rightarrow> world" where
  "spend_nonce pid w = w\<lparr>db := (db w)\<lparr>seed_pairs := bump_nonce pid (seed_pairs (db w))\<rparr>\<rparr>"

lemma consume_nonce_spec:
  assumes ok: "seeds_ok (db w)"
  shows "consume_nonce pid w =
    (case nonce_of (db w) pid of
       None \<Rightarrow> (Exc NoResultFound, w)
     | Some n \<Rightarrow> if int4 (n + 1) then (Val (n + 1), spend_nonce pid w) else (Exc DataError, w))"
proof -
  have "distinct (map s_id (seed_pairs (db w)))" using ok by (simp add: seeds_ok_def)
  then show ?thesis
  proof (cases rule: filter_key_cases [where a = pid])
    case none
    moreover have "update_where (\<lambda>r. s_id r = pid) f (seed_pairs (db w)) = seed_pairs (db w)" for f
      using none by (auto intro: update_where_none)
    moreover have "nonce_of (db w) pid = None" using none(2) by (auto simp: nonce_of_None)
    ultimately show ?thesis
      by (simp add: consume_nonce_def exec_simps update_returning_def bind_def)
  next
    case (one r)
    then have "nonce_of (db w) pid = Some (s_nonce r)"
      using nonce_of_Some [OF ok] by blast
    with one show ?thesis
      by (simp add: consume_nonce_def exec_simps update_returning_def bind_def seed_row_ok_def
          check_row_def spend_nonce_def bump_nonce_def)
  qed
qed

lemma consume_nonce_Val:
  assumes "seeds_ok (db w)" and "consume_nonce pid w = (Val n, w')"
  shows "nonce_of (db w) pid = Some (n - 1) \<and> w' = spend_nonce pid w"
  using assms(2) unfolding consume_nonce_spec [OF assms(1)]
  by (auto split: option.splits if_splits)

lemma create_active_Val:
  assumes "create_active uid seed seed_hash cseed w = (Val r, w')"
  shows "r = \<lparr>s_id = uuid_source w (uuids_drawn w), s_user_id = uid, s_server_seed = seed,
       s_server_seed_hash = seed_hash, s_client_seed = cseed, s_nonce = 0, s_status = ''active'',
       s_revealed_at = None, s_created_at = tx_time w\<rparr>
    \<and> check_seed (db w) r = None
    \<and> w' = w\<lparr>uuids_drawn := uuids_drawn w + 1, db := (db w)\<lparr>seed_pairs := seed_pairs (db w) @ [r]\<rparr>\<rparr>"
  using assms unfolding create_active_def by (auto simp: exec_simps insert_into_Val_iff)

lemma keeps_seed_ops [frame_rules]:
  "keeps f (get_active_by_user_id uid)"
  "(\<And>w u. g (w\<lparr>db := seed_pairs_update u (db w)\<rparr>) = g w) \<Longrightarrow> keeps g (consume_nonce pid)"
  "(\<And>w u. h (w\<lparr>db := seed_pairs_update u (db w)\<rparr>) = h w) \<Longrightarrow> (\<And>w n. h (w\<lparr>ticks := n\<rparr>) = h w) \<Longrightarrow>
     keeps h (reveal_and_deactivate pid)"
  "(\<And>w u. k (w\<lparr>db := seed_pairs_update u (db w)\<rparr>) = k w) \<Longrightarrow> (\<And>w n. k (w\<lparr>uuids_drawn := n\<rparr>) = k w) \<Longrightarrow>
     keeps k (create_active uid seed seed_hash cseed)"
  unfolding get_active_by_user_id_def consume_nonce_def reveal_and_deactivate_def create_active_def
  by (auto intro!: frame_rules)

section \<open>The contract of the nonce counter\<close>

text \<open>
  A draw returns the successor of the counter and leaves it there. \<open>run_draws\<close> is any
  interleaving of draws on any pairs; a refused draw returns nothing.
\<close>

fun run_draws :: "(uuid \<Rightarrow> ('s, int) exec) \<Rightarrow> uuid list \<Rightarrow> 's \<Rightarrow> (uuid \<times> int) list \<times> 's" where
  "run_draws draw [] s = ([], s)"
| "run_draws draw (p # ps) s =
     (case draw p s of
        (Val n, t) \<Rightarrow> (let (ns, u) = run_draws draw ps t in ((p, n) # ns, u))
      | (_, t) \<Rightarrow> run_draws draw ps t)"

definition drawn_from :: "uuid \<Rightarrow> (uuid \<times> int) list \<Rightarrow> int list" where
  "drawn_from p ns = map snd (filter (\<lambda>x. fst x = p) ns)"

locale nonce_source =
  fixes ok :: "'s \<Rightarrow> bool"
    and counter :: "'s \<Rightarrow> uuid \<Rightarrow> int option"
    and draw :: "uuid \<Rightarrow> ('s, int) exec"
  assumes draw_done: "ok s \<Longrightarrow> draw p s = (Val n, t) \<Longrightarrow>
      ok t \<and> counter s p = Some (n - 1) \<and> counter t = (counter s)(p \<mapsto> n)"
    and draw_refused: "ok s \<Longrightarrow> draw p s = (r, t) \<Longrightarrow> (\<And>n. r \<noteq> Val n) \<Longrightarrow> t = s"
begin

lemma draws_consecutive:
  "ok s \<Longrightarrow> run_draws draw ps s = (ns, t) \<Longrightarrow> counter s p = Some c \<Longrightarrow>
     drawn_from p ns = [c + 1..c + int (length (drawn_from p ns))]
     \<and> counter t p = Some (c + int (length (drawn_from p ns)))"
proof (induction ps arbitrary: s ns c)
  case Nil
  then show ?case by (simp add: drawn_from_def)
next
  case (Cons q ps)
  obtain r u where run: "draw q s = (r, u)" by force
  show ?case
  proof (cases r)
    case (Val n)
    from draw_done [OF Cons.prems(1) run [unfolded Val]]
    have u: "ok u" "counter s q = Some (n - 1)" "counter u = (counter s)(q \<mapsto> n)" by simp_all
    obtain ms v where rest: "run_draws draw ps u = (ms, v)" by force
    with run Val Cons.prems(2) have ns: "ns = (q, n) # ms" "v = t" by (simp_all add: Let_def)
    show ?thesis
    proof (cases "q = p")
      case True
      with u Cons.prems(3) have c: "n = c + 1" "counter u p = Some (c + 1)" by simp_all
      from Cons.IH [OF u(1) rest [unfolded ns(2)] c(2)] show ?thesis
        by (simp add: ns(1) True c(1) drawn_from_def upto_rec1 add.assoc)
    next
      case False
      with u Cons.prems(3) have "counter u p = Some c" by simp
      from Cons.IH [OF u(1) rest [unfolded ns(2)] this] False show ?thesis
        by (simp add: ns(1) drawn_from_def)
    qed
  qed (use Cons run draw_refused [OF Cons.prems(1) run] in auto)
qed

lemma draws_distinct:
  assumes "ok s" "run_draws draw ps s = (ns, t)"
  shows "distinct ns"
  using assms
proof (induction ps arbitrary: s ns)
  case (Cons q ps)
  obtain r u where run: "draw q s = (r, u)" by force
  show ?case
  proof (cases r)
    case (Val n)
    from draw_done [OF Cons.prems(1) run [unfolded Val]]
    have u: "ok u" "counter u q = Some n" by simp_all
    obtain ms v where rest: "run_draws draw ps u = (ms, v)" by force
    with run Val Cons.prems(2) have ns: "ns = (q, n) # ms" "v = t" by (simp_all add: Let_def)
    have "n \<notin> set (drawn_from q ms)"
    proof
      assume n: "n \<in> set (drawn_from q ms)"
      have "drawn_from q ms = [n + 1..n + int (length (drawn_from q ms))]"
        using draws_consecutive [OF u(1) rest u(2)] by blast
      with n have "n \<in> set [n + 1..n + int (length (drawn_from q ms))]" by metis
      then show False by simp
    qed
    then have "(q, n) \<notin> set ms" by (force simp: drawn_from_def)
    with Cons.IH [OF u(1) rest [unfolded ns(2)]] ns show ?thesis by simp
  qed (use Cons run draw_refused [OF Cons.prems(1) run] in auto)
qed simp

end

interpretation seed_nonce: nonce_source "\<lambda>w. seeds_ok (db w)" "\<lambda>w. nonce_of (db w)" consume_nonce
proof unfold_locales
  fix w w' :: world and p n assume ok: "seeds_ok (db w)" and "consume_nonce p w = (Val n, w')"
  from consume_nonce_Val [OF this] seeds_ok_bump [OF ok]
  show "seeds_ok (db w') \<and> nonce_of (db w) p = Some (n - 1) \<and> nonce_of (db w') = (nonce_of (db w))(p \<mapsto> n)"
    by (simp add: spend_nonce_def nonce_of_bump)
next
  fix w w' :: world and p and r :: "int result"
  assume "seeds_ok (db w)" "consume_nonce p w = (r, w')" "\<And>n. r \<noteq> Val n"
  then show "w' = w" by (auto simp: consume_nonce_spec split: option.splits if_splits)
qed

section \<open>Properties\<close>

text \<open>
  C9: whatever spins race for whatever seed pairs, the nonces a pair hands out are
  consecutive from its counter on, without a gap, and the counter ends at the last of them: no
  two spins of a pair ever share a nonce.
\<close>

theorem nonces_consecutive:
  assumes "seeds_ok (db w)" "run_draws consume_nonce ps w = (ns, w')"
    and "nonce_of (db w) p = Some c"
  shows "drawn_from p ns = [c + 1..c + int (length (drawn_from p ns))]
     \<and> nonce_of (db w') p = Some (c + int (length (drawn_from p ns))) \<and> distinct ns"
  using seed_nonce.draws_consecutive [OF assms] seed_nonce.draws_distinct [OF assms(1,2)] by blast

lemma demo_seeds_ok: "seeds_ok (db demo_world)"
  by (simp add: demo_defs seeds_ok_def)

theorem nonces_consecutive_witness:
  "drawn_from 9 (fst (run_draws consume_nonce [9, 5, 9] demo_world)) = [1, 2]"
proof -
  have n: "nonce_of (db demo_world) 9 = Some 0" by (simp add: demo_defs nonce_of_def)
  have "length (drawn_from 9 (fst (run_draws consume_nonce [9, 5, 9] demo_world))) = 2"
    by (simp add: drawn_from_def consume_nonce_def exec_simps bind_def update_returning_def Let_def
        demo_defs seed_row_ok_def check_row_def int4_def scalar_one_def)
  with nonces_consecutive [OF demo_seeds_ok prod.collapse [symmetric] n, of "[9, 5, 9]"]
  show ?thesis by (simp add: upto_rec1)
qed

end
