(* ===== verification/Events.thy ===== *)
theory Events
  imports Demo_World Config
begin

text \<open>
  \<open>app/events/schemas.py\<close> and \<open>app/events/outbox.py\<close>: the payloads with their field
  constraints, the envelope, and the insertion of an event into the outbox inside the
  transaction that causes it.
\<close>

section \<open>Schemas\<close>

text \<open>A pydantic model: the constructor raises when a field breaks its constraint.\<close>

definition validated :: "('a \<Rightarrow> bool) \<Rightarrow> 'a \<Rightarrow> exn + 'a" where
  "validated ok x = (if ok x then Inr x else Inl ValidationError)"

definition valid_bet_placed :: "bet_placed_data \<Rightarrow> bool" where
  "valid_bet_placed d \<longleftrightarrow> 1 \<le> bp_stake_minor d \<and> bp_currency d = ''EUR''"

definition valid_settled_bet :: "settled_bet \<Rightarrow> bool" where
  "valid_settled_bet d \<longleftrightarrow> 1 \<le> sb_stake_minor d \<and> 0 \<le> sb_payout_minor d"

definition valid_round_settled :: "round_settled_data \<Rightarrow> bool" where
  "valid_round_settled d \<longleftrightarrow> 0 \<le> rs_nonce d \<and> 0 \<le> rs_outcome d \<and> rs_outcome d \<le> 36
     \<and> 1 \<le> length (rs_bets d) \<and> 1 \<le> rs_total_stake_minor d \<and> 0 \<le> rs_total_payout_minor d
     \<and> rs_currency d = ''EUR''"

definition valid_wallet_tx :: "wallet_tx_data \<Rightarrow> bool" where
  "valid_wallet_tx d \<longleftrightarrow> wt_kind d \<in> set [''deposit'', ''bet_stake'', ''bet_payout'', ''adjustment'']
     \<and> 0 \<le> wt_balance_after_minor d \<and> wt_currency d = ''EUR''
     \<and> wt_ref_type d \<in> set [None, Some ''round'', Some ''bet'', Some ''manual'']"

definition EVENT_TOPIC_SUFFIXES :: "(string \<times> string) list" where
  "EVENT_TOPIC_SUFFIXES =
     [(''bet.placed'', ''bets.placed.v1''),
      (''round.settled'', ''rounds.settled.v1''),
      (''wallet.transaction'', ''wallet.transactions.v1'')]"

section \<open>Operations\<close>

definition new_envelope :: "string \<Rightarrow> event_data \<Rightarrow> string option \<Rightarrow> (world, envelope) exec" where
  "new_envelope et data ik =
     bind uuid4 (\<lambda>eid.
     bind now_utc (\<lambda>t.
     ret \<lparr>event_id = eid, event_type = et, event_version = 1, occurred_at = t,
          producer = ''theclub-api'', idempotency_key = ik, event_data = data\<rparr>))"

definition enqueue_event :: "settings \<Rightarrow> envelope \<Rightarrow> string \<Rightarrow> (world, unit) exec" where
  "enqueue_event cfg env key =
     (case map_of EVENT_TOPIC_SUFFIXES (event_type env) of
        None \<Rightarrow> throw KeyError
      | Some suffix \<Rightarrow>
          bind uuid4 (\<lambda>oid.
          bind db_now (\<lambda>t.
          bind (insert_into outbox_update check_outbox
             \<lparr>o_id = oid, o_topic = KAFKA_TOPIC_PREFIX cfg @ ''.'' @ suffix, o_key = key,
              o_payload = env, o_headers = None, o_created_at = t, o_published_at = None,
              o_attempts = 0, o_last_error = None, o_next_attempt_at = None\<rparr>) (\<lambda>_.
          ret ()))))"

section \<open>The contract of an enqueued event\<close>

text \<open>
  The row of an event: its topic is the one of its type, it waits for the relay from the
  start, and it carries the key that orders it.
\<close>

definition topic_of :: "settings \<Rightarrow> string \<Rightarrow> string" where
  "topic_of cfg et = KAFKA_TOPIC_PREFIX cfg @ ''.'' @ the (map_of EVENT_TOPIC_SUFFIXES et)"

definition pending_event ::
  "settings \<Rightarrow> string \<Rightarrow> string option \<Rightarrow> time \<Rightarrow> string \<times> event_data \<Rightarrow> outbox_row \<Rightarrow> bool" where
  "pending_event cfg key ik t e r \<longleftrightarrow>
     map_of EVENT_TOPIC_SUFFIXES (fst e) \<noteq> None
     \<and> o_topic r = topic_of cfg (fst e) \<and> o_key r = key
     \<and> event_type (o_payload r) = fst e \<and> event_data (o_payload r) = snd e
     \<and> idempotency_key (o_payload r) = ik \<and> event_version (o_payload r) = 1
     \<and> o_created_at r = t \<and> o_published_at r = None \<and> o_attempts r = 0
     \<and> o_next_attempt_at r = None"

text \<open>One event made and enqueued, and a list of them in order.\<close>

definition emit :: "settings \<Rightarrow> string \<Rightarrow> string option \<Rightarrow> string \<times> event_data \<Rightarrow> (world, unit) exec" where
  "emit cfg key ik e =
     bind (new_envelope (fst e) (snd e) ik) (\<lambda>envl. enqueue_event cfg envl key)"

lemma keeps_events [frame_rules]:
  "(\<And>w n. f (w\<lparr>uuids_drawn := n\<rparr>) = f w) \<Longrightarrow> (\<And>w n. f (w\<lparr>ticks := n\<rparr>) = f w) \<Longrightarrow>
     keeps f (new_envelope et d ik)"
  "(\<And>w n. g (w\<lparr>uuids_drawn := n\<rparr>) = g w) \<Longrightarrow> (\<And>w u. g (w\<lparr>db := outbox_update u (db w)\<rparr>) = g w) \<Longrightarrow>
     keeps g (enqueue_event cfg env key)"
  unfolding new_envelope_def enqueue_event_def by (auto intro!: frame_rules)

lemma emit_Val:
  assumes "emit cfg key ik e w = (Val x, w')"
  shows "\<exists>r. pending_event cfg key ik (tx_time w) e r \<and> o_id r \<notin> o_id ` set (outbox (db w))
    \<and> db w' = (db w)\<lparr>outbox := outbox (db w) @ [r]\<rparr> \<and> tx_time w' = tx_time w"
proof -
  obtain et d where e: "e = (et, d)" by force
  show ?thesis
  proof (cases "map_of EVENT_TOPIC_SUFFIXES et")
    case None
    with assms show ?thesis
      by (simp add: emit_def new_envelope_def enqueue_event_def e bind_assoc exec_simps)
  next
    case (Some suffix)
    define r where "r = \<lparr>o_id = uuid_source w (Suc (uuids_drawn w)), o_topic = topic_of cfg et,
      o_key = key, o_payload = \<lparr>event_id = uuid_source w (uuids_drawn w), event_type = et,
        event_version = 1, occurred_at = clock w (ticks w), producer = ''theclub-api'',
        idempotency_key = ik, event_data = d\<rparr>, o_headers = None, o_created_at = tx_time w,
      o_published_at = None, o_attempts = 0, o_last_error = None, o_next_attempt_at = None\<rparr>"
    have "pending_event cfg key ik (tx_time w) e r"
      by (simp add: pending_event_def r_def e Some)
    moreover have "check_outbox (db w) r = None \<and> db w' = (db w)\<lparr>outbox := outbox (db w) @ [r]\<rparr>
        \<and> tx_time w' = tx_time w"
      using assms Some unfolding emit_def new_envelope_def enqueue_event_def e r_def topic_of_def
      by (auto simp: exec_simps Val_iffs insert_into_Val_iff bind_assoc)
    ultimately show ?thesis by (auto simp: check_outbox_def)
  qed
qed

lemma keeps_emit [frame_rules]:
  "(\<And>w n. f (w\<lparr>uuids_drawn := n\<rparr>) = f w) \<Longrightarrow> (\<And>w n. f (w\<lparr>ticks := n\<rparr>) = f w) \<Longrightarrow>
   (\<And>w u. f (w\<lparr>db := outbox_update u (db w)\<rparr>) = f w) \<Longrightarrow> keeps f (emit cfg key ik e)"
  unfolding emit_def by (auto intro!: frame_rules)

fun emit_all :: "settings \<Rightarrow> string \<Rightarrow> string option \<Rightarrow> (string \<times> event_data) list \<Rightarrow> (world, unit) exec" where
  "emit_all cfg key ik [] = ret ()"
| "emit_all cfg key ik (e # es) = bind (emit cfg key ik e) (\<lambda>_. emit_all cfg key ik es)"

lemma emit_all_append:
  "bind (emit_all cfg key ik es) (\<lambda>_. emit_all cfg key ik fs) = emit_all cfg key ik (es @ fs)"
  by (induction es) (simp_all add: bind_simps bind_assoc)

lemma emit_all_Val:
  "emit_all cfg key ik es w = (Val x, w') \<Longrightarrow>
     \<exists>rs. list_all2 (pending_event cfg key ik (tx_time w)) es rs
       \<and> db w' = (db w)\<lparr>outbox := outbox (db w) @ rs\<rparr> \<and> tx_time w' = tx_time w"
proof (induction es arbitrary: w)
  case Nil
  then show ?case by (auto simp: exec_simps)
next
  case (Cons e es)
  then obtain w1 where first: "emit cfg key ik e w = (Val (), w1)"
    and rest: "emit_all cfg key ik es w1 = (Val x, w')"
    by (auto simp: bind_Val_iff)
  from emit_Val [OF first] obtain r where r: "pending_event cfg key ik (tx_time w) e r"
    "db w1 = (db w)\<lparr>outbox := outbox (db w) @ [r]\<rparr>" "tx_time w1 = tx_time w" by blast
  from Cons.IH [OF rest] obtain rs where rs: "list_all2 (pending_event cfg key ik (tx_time w1)) es rs"
    "db w' = (db w1)\<lparr>outbox := outbox (db w1) @ rs\<rparr>" "tx_time w' = tx_time w1" by blast
  with r show ?case by (intro exI [of _ "r # rs"]) simp
qed

lemma keeps_emit_all [frame_rules]:
  "(\<And>w n. f (w\<lparr>uuids_drawn := n\<rparr>) = f w) \<Longrightarrow> (\<And>w n. f (w\<lparr>ticks := n\<rparr>) = f w) \<Longrightarrow>
   (\<And>w u. f (w\<lparr>db := outbox_update u (db w)\<rparr>) = f w) \<Longrightarrow> keeps f (emit_all cfg key ik es)"
  by (induction es) (auto intro!: frame_rules)

end
