(* ===== verification/Wallet_Service.thy ===== *)
theory Wallet_Service
  imports Wallet_Store Events
begin

text \<open>
  \<open>app/services/wallet.py\<close>: reading the balance and depositing. A deposit is one credit, one
  ledger entry and one event, in one transaction.
\<close>

section \<open>Operations\<close>

definition MAX_DEPOSIT_MINOR :: int where "MAX_DEPOSIT_MINOR = 10000000"

record balance_view =
  bv_balance_minor :: int
  bv_currency :: string

definition balance_view_to_dict :: "balance_view \<Rightarrow> json" where
  "balance_view_to_dict v =
     JObj [(''balance_minor'', JInt (bv_balance_minor v)), (''currency'', JStr (bv_currency v))]"

definition get_balance :: "uuid \<Rightarrow> (world, balance_view) exec" where
  "get_balance uid =
     bind (get_wallet_by_user_id uid) (\<lambda>found.
     case found of
       None \<Rightarrow> throw DataIntegrityError
     | Some wallet \<Rightarrow> ret \<lparr>bv_balance_minor = w_balance_minor wallet, bv_currency = w_currency wallet\<rparr>)"

definition deposit :: "settings \<Rightarrow> uuid \<Rightarrow> string \<Rightarrow> int \<Rightarrow> (world, balance_view) exec" where
  "deposit cfg uid ik amount_minor =
     bind (get_wallet_by_user_id uid) (\<lambda>found.
     case found of
       None \<Rightarrow> throw DataIntegrityError
     | Some wallet \<Rightarrow>
         bind (wallet_credit (w_id wallet) (eur amount_minor)) (\<lambda>balance_after.
         bind (ledger_append (w_id wallet) (eur amount_minor) balance_after ''deposit'' None None) (\<lambda>entry.
         bind (lift_sum (validated valid_wallet_tx
            \<lparr>wt_transaction_id = l_id entry, wt_user_id = uid, wt_wallet_id = w_id wallet,
             wt_kind = ''deposit'', wt_amount_minor = amount_minor,
             wt_balance_after_minor = balance_after, wt_currency = w_currency wallet,
             wt_ref_type = None, wt_ref_id = None\<rparr>)) (\<lambda>data.
         bind (new_envelope ''wallet.transaction'' (WalletTransactionData data) (Some ik)) (\<lambda>envl.
         bind (enqueue_event cfg envl (uuid_str uid)) (\<lambda>_.
         ret \<lparr>bv_balance_minor = balance_after, bv_currency = w_currency wallet\<rparr>))))))"

section \<open>Its effect\<close>

text \<open>The event that reports a ledger entry to the outside.\<close>

definition entry_event :: "uuid \<Rightarrow> string \<Rightarrow> ledger_row \<Rightarrow> string \<times> event_data" where
  "entry_event uid cur e = (''wallet.transaction'', WalletTransactionData
     \<lparr>wt_transaction_id = l_id e, wt_user_id = uid, wt_wallet_id = l_wallet_id e,
      wt_kind = l_kind e, wt_amount_minor = l_amount_minor e,
      wt_balance_after_minor = l_balance_after_minor e, wt_currency = cur,
      wt_ref_type = l_ref_type e, wt_ref_id = l_ref_id e\<rparr>)"

definition deposit_entry :: "uuid \<Rightarrow> int \<Rightarrow> int \<Rightarrow> uuid \<Rightarrow> time \<Rightarrow> ledger_row" where
  "deposit_entry wid amount balance eid t =
     \<lparr>l_id = eid, l_wallet_id = wid, l_amount_minor = amount, l_balance_after_minor = balance,
      l_kind = ''deposit'', l_ref_type = None, l_ref_id = None, l_created_at = t\<rparr>"

lemma validated_Inr [simp]: "validated ok x = Inr y \<longleftrightarrow> ok x \<and> y = x"
  by (auto simp: validated_def)

lemma eur_minor [simp]: "minor (eur n) = n"
  by (simp add: eur_def)

lemma found_wallet:
  assumes "scalar_one_or_none (filter (\<lambda>r. w_user_id r = uid) (wallets d)) = Inr (Some wallet)"
  shows "wallet \<in> set (wallets d) \<and> w_user_id wallet = uid"
  using assms by (auto dest: filter_eq_single)

lemma deposit_Val:
  assumes ok: "wallets_ok (db w)" and run: "deposit cfg uid ik amount w = (Val v, w')"
  shows "\<exists>wallet eid ev.
      wallet \<in> set (wallets (db w)) \<and> w_user_id wallet = uid
    \<and> (let e = deposit_entry (w_id wallet) amount (w_balance_minor wallet + amount) eid (tx_time w) in
        v = \<lparr>bv_balance_minor = w_balance_minor wallet + amount, bv_currency = w_currency wallet\<rparr>
      \<and> 0 \<le> w_balance_minor wallet + amount
      \<and> check_ledger (db w) e = None
      \<and> pending_event cfg (uuid_str uid) (Some ik) (tx_time w) (entry_event uid (w_currency wallet) e) ev
      \<and> db w' = (db w)\<lparr>wallets := add_balance (w_id wallet) amount (wallets (db w)),
                       ledger := ledger (db w) @ [e], outbox := outbox (db w) @ [ev]\<rparr>)"
proof -
  from run obtain wallet w1 n e w2 where
    found: "scalar_one_or_none (filter (\<lambda>r. w_user_id r = uid) (wallets (db w))) = Inr (Some wallet)"
    and credit: "wallet_credit (w_id wallet) (eur amount) w = (Val n, w1)"
    and append: "ledger_append (w_id wallet) (eur amount) n ''deposit'' None None w1 = (Val e, w2)"
    and v: "v = \<lparr>bv_balance_minor = n, bv_currency = w_currency wallet\<rparr>"
    and emit: "emit cfg (uuid_str uid) (Some ik) (''wallet.transaction'', WalletTransactionData
            \<lparr>wt_transaction_id = l_id e, wt_user_id = uid, wt_wallet_id = w_id wallet,
             wt_kind = ''deposit'', wt_amount_minor = amount,
             wt_balance_after_minor = n, wt_currency = w_currency wallet,
             wt_ref_type = None, wt_ref_id = None\<rparr>) w2 = (Val (), w')"
    unfolding deposit_def emit_def
    by (auto simp: Val_iffs get_wallet_Val exec_simps split: option.splits)
  from found_wallet [OF found] have wal: "wallet \<in> set (wallets (db w))" "w_user_id wallet = uid"
    by simp_all
  then have "balance_of (db w) (w_id wallet) = Some (w_balance_minor wallet)"
    using balance_of_Some [OF ok] by blast
  with wallet_credit_Val [OF ok credit] have n: "n = w_balance_minor wallet + amount" "0 \<le> n"
    and w1: "w1 = move_balance (w_id wallet) amount w" by simp_all
  note app = ledger_append_Val [OF append]
  have e: "deposit_entry (w_id wallet) amount (w_balance_minor wallet + amount) (l_id e) (tx_time w) = e"
    using app n(1) by (simp add: deposit_entry_def w1 move_balance_def)
  have sel: "l_wallet_id e = w_id wallet" "l_amount_minor e = amount" "l_balance_after_minor e = n"
    "l_kind e = ''deposit''" "l_ref_type e = None" "l_ref_id e = None"
    using app by simp_all
  have chk: "check_ledger (db w1) e = None" using app by blast
  have w2: "db w2 = (db w1)\<lparr>ledger := ledger (db w1) @ [e]\<rparr>" "tx_time w2 = tx_time w"
    using app by (simp_all add: w1 move_balance_def)
  from emit_Val [OF emit] obtain ev where
    ev: "pending_event cfg (uuid_str uid) (Some ik) (tx_time w2) (entry_event uid (w_currency wallet) e) ev"
      "db w' = (db w2)\<lparr>outbox := outbox (db w2) @ [ev]\<rparr>"
    unfolding entry_event_def sel by blast
  have "check_ledger (db w) e = None"
    using chk by (simp add: w1 move_balance_def check_ledger_def)
  with wal n e ev v w2 show ?thesis
    by (intro exI [of _ wallet] exI [of _ "l_id e"] exI [of _ ev])
      (simp add: Let_def e w1 move_balance_def)
qed

lemma deposit_books:
  assumes inv: "books_balance (db w)" and run: "deposit cfg uid ik amount w = (Val v, w')"
  shows "books_balance (db w')"
proof -
  have ok: "wallets_ok (db w)" using inv by (simp add: books_balance_def)
  from deposit_Val [OF ok run] obtain wallet eid ev where
    wal: "wallet \<in> set (wallets (db w))" and n: "0 \<le> w_balance_minor wallet + amount"
    and d: "db w' = (db w)\<lparr>wallets := add_balance (w_id wallet) amount (wallets (db w)),
        ledger := ledger (db w) @ [deposit_entry (w_id wallet) amount (w_balance_minor wallet + amount) eid (tx_time w)],
        outbox := outbox (db w) @ [ev]\<rparr>"
    by (auto simp: Let_def)
  have "balance_of (db w) (w_id wallet) = Some (w_balance_minor wallet)"
    using wal balance_of_Some [OF ok] by blast
  then show ?thesis
    by (rule books_balance_step [OF inv, where c = "w_balance_minor wallet + amount"])
      (use n in \<open>simp_all add: d deposit_entry_def\<close>)
qed

lemma keeps_committed_deposit: "no_commit (deposit cfg uid ik amount)"
  unfolding deposit_def by (auto intro!: frame_rules)

section \<open>Properties\<close>

text \<open>
  C17: a deposit that returns has credited the user's own wallet, written one ledger entry
  with the balance it left and enqueued one event that repeats that entry under the user's
  key, and has touched no other row of any table; the books still balance.
\<close>

theorem deposit_effect:
  assumes "books_balance (db w)" and "deposit cfg uid ik amount w = (Val v, w')"
  shows "books_balance (db w') \<and> (\<exists>wallet eid ev.
      wallet \<in> set (wallets (db w)) \<and> w_user_id wallet = uid
    \<and> (let e = deposit_entry (w_id wallet) amount (w_balance_minor wallet + amount) eid (tx_time w) in
        v = \<lparr>bv_balance_minor = w_balance_minor wallet + amount, bv_currency = w_currency wallet\<rparr>
      \<and> pending_event cfg (uuid_str uid) (Some ik) (tx_time w) (entry_event uid (w_currency wallet) e) ev
      \<and> db w' = (db w)\<lparr>wallets := add_balance (w_id wallet) amount (wallets (db w)),
                       ledger := ledger (db w) @ [e], outbox := outbox (db w) @ [ev]\<rparr>))"
proof -
  have ok: "wallets_ok (db w)" using assms(1) by (simp add: books_balance_def)
  from deposit_Val [OF ok assms(2)] deposit_books [OF assms] show ?thesis
    by (metis (no_types, lifting))
qed

lemma demo_deposit:
  "fst (deposit default_settings 1 ''k'' 500 demo_world) = Val \<lparr>bv_balance_minor = 1500, bv_currency = ''EUR''\<rparr>"
  by (simp add: deposit_def get_wallet_by_user_id_def wallet_credit_def ledger_append_def
      new_envelope_def enqueue_event_def EVENT_TOPIC_SUFFIXES_def validated_def valid_wallet_tx_def
      exec_simps bind_def update_returning_def insert_into_def select_rows_def Let_def check_defs
      check_row_def bigint_def int4_def LEDGER_KINDS_def demo_defs scalar_one_or_none_def
      scalar_one_def)

theorem deposit_effect_witness:
  "books_balance (db (snd (deposit default_settings 1 ''k'' 500 demo_world)))"
proof -
  have "deposit default_settings 1 ''k'' 500 demo_world =
      (Val \<lparr>bv_balance_minor = 1500, bv_currency = ''EUR''\<rparr>,
       snd (deposit default_settings 1 ''k'' 500 demo_world))"
    using demo_deposit by (metis prod.collapse)
  from deposit_effect [OF demo_books_balance this] show ?thesis by blast
qed

end
