(* ===== verification/Round_Store.thy ===== *)
theory Round_Store
  imports Demo_World
begin

text \<open>
  The writing half of \<open>app/repositories/rounds.py\<close>: a round is stored already settled, with
  its bets, one row each, in the order they were placed.
\<close>

record resolved_bet_input =
  ri_bet_type :: string
  ri_selection :: selection
  ri_stake_minor :: int
  ri_payout_minor :: int
  ri_won :: bool

definition insert_bet :: "uuid \<Rightarrow> resolved_bet_input \<Rightarrow> (world, bet_row) exec" where
  "insert_bet rid b =
     bind uuid4 (\<lambda>bid.
     insert_into bets_update check_bet
       \<lparr>b_id = bid, b_round_id = rid, b_bet_type = ri_bet_type b, b_selection = ri_selection b,
        b_stake_minor = ri_stake_minor b, b_payout_minor = ri_payout_minor b,
        b_status = (if ri_won b then ''won'' else ''lost'')\<rparr>)"

definition create_settled_round ::
  "uuid \<Rightarrow> uuid \<Rightarrow> int \<Rightarrow> int \<Rightarrow> resolved_bet_input list \<Rightarrow> (world, round_row \<times> bet_row list) exec" where
  "create_settled_round uid pid n outcome inputs =
     bind now_utc (\<lambda>now.
     bind uuid4 (\<lambda>rid.
     bind db_now (\<lambda>t.
     bind (insert_into rounds_update check_round
       \<lparr>r_id = rid, r_user_id = uid, r_seed_pair_id = pid, r_nonce = n,
        r_outcome = Some outcome, r_status = ''settled'', r_created_at = t,
        r_settled_at = Some now\<rparr>) (\<lambda>round.
     bind (mapx (insert_bet (r_id round)) inputs) (\<lambda>bet_rows.
     ret (round, bet_rows))))))"

section \<open>Its effect\<close>

definition bet_row_of :: "uuid \<Rightarrow> resolved_bet_input \<Rightarrow> bet_row \<Rightarrow> bool" where
  "bet_row_of rid b r \<longleftrightarrow> b_round_id r = rid \<and> b_bet_type r = ri_bet_type b
     \<and> b_selection r = ri_selection b \<and> b_stake_minor r = ri_stake_minor b
     \<and> b_payout_minor r = ri_payout_minor b
     \<and> b_status r = (if ri_won b then ''won'' else ''lost'')"

lemma insert_bets_Val:
  "mapx (insert_bet rid) inputs w = (Val rows, w') \<Longrightarrow>
     list_all2 (bet_row_of rid) inputs rows
     \<and> db w' = (db w)\<lparr>bets := bets (db w) @ rows\<rparr> \<and> tx_time w' = tx_time w
     \<and> (\<forall>b \<in> set inputs. 0 < ri_stake_minor b \<and> 0 \<le> ri_payout_minor b)"
proof (induction inputs arbitrary: w rows)
  case Nil
  then show ?case by (auto simp: exec_simps)
next
  case (Cons b bs)
  then obtain r w1 rs where first: "insert_bet rid b w = (Val r, w1)"
    and rest: "mapx (insert_bet rid) bs w1 = (Val rs, w')" and rows: "rows = r # rs"
    by (auto simp: bind_Val_iff exec_simps)
  from first have "bet_row_of rid b r \<and> db w1 = (db w)\<lparr>bets := bets (db w) @ [r]\<rparr>
      \<and> tx_time w1 = tx_time w \<and> 0 < ri_stake_minor b \<and> 0 \<le> ri_payout_minor b"
    unfolding insert_bet_def by (auto simp: exec_simps insert_into_Val_iff bet_row_of_def check_bet_def)
  with Cons.IH [OF rest] rows show ?case by simp
qed

lemma create_settled_round_Val:
  assumes "create_settled_round uid pid n outcome inputs w = (Val (round, rows), w')"
  shows "r_user_id round = uid \<and> r_seed_pair_id round = pid \<and> r_nonce round = n
    \<and> r_outcome round = Some outcome \<and> r_status round = ''settled'' \<and> r_created_at round = tx_time w
    \<and> check_round (db w) round = None
    \<and> list_all2 (bet_row_of (r_id round)) inputs rows
    \<and> (\<forall>b \<in> set inputs. 0 < ri_stake_minor b \<and> 0 \<le> ri_payout_minor b)
    \<and> db w' = (db w)\<lparr>rounds := rounds (db w) @ [round], bets := bets (db w) @ rows\<rparr>
    \<and> tx_time w' = tx_time w"
proof -
  from assms obtain w1 where
    ins: "insert_into rounds_update check_round
       \<lparr>r_id = uuid_source w (uuids_drawn w), r_user_id = uid, r_seed_pair_id = pid, r_nonce = n,
        r_outcome = Some outcome, r_status = ''settled'', r_created_at = tx_time w,
        r_settled_at = Some (clock w (ticks w))\<rparr>
       (w\<lparr>ticks := ticks w + 1, uuids_drawn := uuids_drawn w + 1\<rparr>) = (Val round, w1)"
    and run: "mapx (insert_bet (r_id round)) inputs w1 = (Val rows, w')"
    unfolding create_settled_round_def by (auto simp: exec_simps bind_Val_iff)
  from ins have
    round: "check_round (db w) round = None" "r_user_id round = uid" "r_seed_pair_id round = pid"
      "r_nonce round = n" "r_outcome round = Some outcome" "r_status round = ''settled''"
      "r_created_at round = tx_time w"
    and w1: "db w1 = (db w)\<lparr>rounds := rounds (db w) @ [round]\<rparr>" "tx_time w1 = tx_time w"
    by (auto simp: insert_into_Val_iff)
  from insert_bets_Val [OF run] round w1 show ?thesis by simp
qed

lemma keeps_create_settled_round [frame_rules]:
  assumes "\<And>w u. f (w\<lparr>db := rounds_update u (db w)\<rparr>) = f w" "\<And>w u. f (w\<lparr>db := bets_update u (db w)\<rparr>) = f w"
    "\<And>w n. f (w\<lparr>uuids_drawn := n\<rparr>) = f w" "\<And>w n. f (w\<lparr>ticks := n\<rparr>) = f w"
  shows "keeps f (create_settled_round uid pid n outcome inputs)"
  unfolding create_settled_round_def insert_bet_def using assms by (auto intro!: frame_rules)

end
