(* ===== verification/Fair_History.thy ===== *)
theory Fair_History
  imports Wallet_Store Seed_Store Roulette_Engine
begin

text \<open>
  The invariant of the stored history: every settled round can be recomputed from its seed
  pair, every stored bet paid what the pay table owes for the outcome of its round, and the
  operations that only add to the history or move counters keep it so.
\<close>

section \<open>Honest rounds and bets\<close>

definition material :: "seed_row \<Rightarrow> int \<Rightarrow> seed_material" where
  "material s n = \<lparr>server_seed = s_server_seed s, client_seed = s_client_seed s, nonce = n\<rparr>"

definition honest_round :: "seed_row list \<Rightarrow> round_row \<Rightarrow> bool" where
  "honest_round ss r \<longleftrightarrow> r_status r = ''settled''
     \<and> (\<exists>s \<in> set ss. s_id s = r_seed_pair_id r \<and> s_user_id s = r_user_id r
          \<and> 1 \<le> r_nonce r \<and> r_nonce r \<le> s_nonce s
          \<and> (\<exists>v. r_outcome r = Some v \<and> spin (material s (r_nonce r)) = Some (Inr v)))"

definition honest_bet :: "round_row list \<Rightarrow> bet_row \<Rightarrow> bool" where
  "honest_bet rs b \<longleftrightarrow>
     (\<exists>r \<in> set rs. \<exists>v bt S. r_id r = b_round_id b \<and> r_outcome r = Some v
        \<and> b_bet_type b = bet_type_value bt \<and> covered_numbers bt (b_selection b) = Inr S
        \<and> b_status b = (if v \<in> S then ''won'' else ''lost'')
        \<and> b_payout_minor b = (if v \<in> S then b_stake_minor b * (payout_ratio (BET_SPECS bt) + 1) else 0))"

definition honest_history :: "database \<Rightarrow> bool" where
  "honest_history d \<longleftrightarrow> (\<forall>r \<in> set (rounds d). honest_round (seed_pairs d) r)
     \<and> (\<forall>b \<in> set (bets d). honest_bet (rounds d) b)
     \<and> distinct (map (\<lambda>r. (r_seed_pair_id r, r_nonce r)) (rounds d))"

text \<open>The tables as the services leave them.\<close>

definition consistent :: "database \<Rightarrow> bool" where
  "consistent d \<longleftrightarrow> books_balance d \<and> seeds_ok d \<and> honest_history d"

section \<open>What keeps the history honest\<close>

text \<open>The pairs may only evolve: seeds stay, counters grow.\<close>

definition evolves :: "seed_row list \<Rightarrow> seed_row list \<Rightarrow> bool" where
  "evolves ss ss' \<longleftrightarrow> (\<forall>s \<in> set ss. \<exists>s' \<in> set ss'. s_id s' = s_id s \<and> s_user_id s' = s_user_id s
     \<and> s_server_seed s' = s_server_seed s \<and> s_client_seed s' = s_client_seed s \<and> s_nonce s \<le> s_nonce s')"

lemma honest_round_evolves: "honest_round ss r \<Longrightarrow> evolves ss ss' \<Longrightarrow> honest_round ss' r"
  unfolding honest_round_def evolves_def material_def by fastforce

lemma honest_bet_append: "honest_bet rs b \<Longrightarrow> honest_bet (rs @ xs) b"
  unfolding honest_bet_def set_append by blast

lemma evolves_refl [simp]: "evolves ss ss"
  unfolding evolves_def by blast

lemma evolves_append: "evolves ss ss' \<Longrightarrow> evolves ss (ss' @ xs)"
  unfolding evolves_def set_append by blast

lemma evolves_update:
  assumes "\<And>s. p s \<Longrightarrow> s_id (f s) = s_id s \<and> s_user_id (f s) = s_user_id s
    \<and> s_server_seed (f s) = s_server_seed s \<and> s_client_seed (f s) = s_client_seed s \<and> s_nonce s \<le> s_nonce (f s)"
  shows "evolves ss (update_where p f ss)"
  unfolding evolves_def
proof
  fix s assume "s \<in> set ss"
  then have "(if p s then f s else s) \<in> set (update_where p f ss)"
    by (simp only: set_update_where image_eqI)
  moreover from assms [of s] have "s_id (if p s then f s else s) = s_id s
    \<and> s_user_id (if p s then f s else s) = s_user_id s
    \<and> s_server_seed (if p s then f s else s) = s_server_seed s
    \<and> s_client_seed (if p s then f s else s) = s_client_seed s
    \<and> s_nonce s \<le> s_nonce (if p s then f s else s)" by auto
  ultimately show "\<exists>s' \<in> set (update_where p f ss). s_id s' = s_id s \<and> s_user_id s' = s_user_id s
    \<and> s_server_seed s' = s_server_seed s \<and> s_client_seed s' = s_client_seed s \<and> s_nonce s \<le> s_nonce s'"
    by blast
qed

lemma evolves_bump: "evolves ss (bump_nonce pid ss)"
  unfolding bump_nonce_def by (rule evolves_update) simp

lemma bump_nonce_member:
  "s \<in> set ss \<Longrightarrow> s\<lparr>s_nonce := s_nonce s + 1\<rparr> \<in> set (bump_nonce (s_id s) ss)"
  by (auto simp: in_bump_nonce)

text \<open>A round and its bets appended to an honest history.\<close>

lemma honest_history_append:
  assumes "honest_history d" and "evolves (seed_pairs d) (seed_pairs d')"
    and "rounds d' = rounds d @ [rnd]" "bets d' = bets d @ rows"
    and "honest_round (seed_pairs d') rnd" "\<forall>b \<in> set rows. honest_bet (rounds d') b"
    and "(r_seed_pair_id rnd, r_nonce rnd) \<notin> (\<lambda>x. (r_seed_pair_id x, r_nonce x)) ` set (rounds d)"
  shows "honest_history d'"
  using assms unfolding honest_history_def
  by (auto intro: honest_round_evolves honest_bet_append)

lemma honest_history_frame:
  assumes "honest_history d" "evolves (seed_pairs d) (seed_pairs d')"
    and "rounds d' = rounds d" "bets d' = bets d"
  shows "honest_history d'"
  using assms unfolding honest_history_def by (auto intro: honest_round_evolves)

lemma consistent_frame:
  assumes "consistent d" "wallets d' = wallets d" "ledger d' = ledger d"
    "seed_pairs d' = seed_pairs d" "rounds d' = rounds d" "bets d' = bets d"
  shows "consistent d'"
  using assms honest_history_frame [of d d'] books_balance_frame [of d' d]
  unfolding consistent_def seeds_ok_def by auto

lemma demo_consistent: "consistent (db demo_world)"
  using demo_books_balance demo_seeds_ok
  by (simp add: consistent_def honest_history_def demo_defs)

end
