(* ===== verification/Roulette_Service.thy ===== *)
theory Roulette_Service
  imports Wallet_Service Round_Store Fair_History
begin

text \<open>
  \<open>app/services/roulette.py\<close>: placing the bets of a round. \<open>place_bet\<close> is the whole handler in
  the order of the code: validation, debit, nonce, spin, resolution, credit, the round and its
  bets, the ledger entries and the events. The theorems state its effect as one abstract
  update of the tables, that any other ending is a rollback, and that it keeps the books and
  the fairness of the history.
\<close>

section \<open>Data\<close>

record bet_request =
  br_bet_type :: bet_type
  br_selection :: selection
  br_stake_minor :: int

record settled_bet_view =
  sv_bet_type :: bet_type
  sv_selection :: selection
  sv_stake_minor :: int
  sv_payout_minor :: int
  sv_won :: bool

record place_bet_result =
  pr_round_id :: uuid
  pr_outcome :: int
  pr_bets :: "settled_bet_view list"
  pr_total_stake_minor :: int
  pr_total_payout_minor :: int
  pr_net_minor :: int
  pr_balance_minor :: int

fun sel_value_json :: "sel_value \<Rightarrow> json" where
  "sel_value_json (SelInt n) = JInt n"
| "sel_value_json (SelList ns) = JList (map JInt ns)"

definition selection_json :: "selection \<Rightarrow> json" where
  "selection_json sel = JObj (map (\<lambda>(k, v). (k, sel_value_json v)) sel)"

definition settled_bet_view_to_dict :: "settled_bet_view \<Rightarrow> json" where
  "settled_bet_view_to_dict b = JObj
     [(''bet_type'', JStr (bet_type_value (sv_bet_type b))),
      (''selection'', selection_json (sv_selection b)),
      (''stake_minor'', JInt (sv_stake_minor b)),
      (''payout_minor'', JInt (sv_payout_minor b)),
      (''won'', JBool (sv_won b))]"

definition place_bet_result_to_dict :: "place_bet_result \<Rightarrow> json" where
  "place_bet_result_to_dict r = JObj
     [(''round_id'', JStr (uuid_str (pr_round_id r))),
      (''outcome'', JInt (pr_outcome r)),
      (''bets'', JList (map settled_bet_view_to_dict (pr_bets r))),
      (''total_stake_minor'', JInt (pr_total_stake_minor r)),
      (''total_payout_minor'', JInt (pr_total_payout_minor r)),
      (''net_minor'', JInt (pr_net_minor r)),
      (''balance_minor'', JInt (pr_balance_minor r))]"

record round_context =
  rc_user_id :: uuid
  rc_wallet_id :: uuid
  rc_round :: round_row
  rc_seed_pair_id :: uuid
  rc_nonce :: int
  rc_outcome :: int
  rc_bet_rows :: "bet_row list"
  rc_resolved :: "resolved_bet list"
  rc_total_stake :: int
  rc_total_payout :: int
  rc_stake_entry_id :: uuid
  rc_payout_entry_id :: "uuid option"
  rc_balance_after_stake :: int
  rc_balance_after_payout :: "int option"
  rc_currency :: string
  rc_idempotency_key :: string

section \<open>Events of a round\<close>

text \<open>\<open>zip(xs, ys, strict=True)\<close> under a comprehension and under a loop with effects.\<close>

fun zip_each :: "('a \<Rightarrow> 'b \<Rightarrow> exn + 'c) \<Rightarrow> 'a list \<Rightarrow> 'b list \<Rightarrow> exn + 'c list" where
  "zip_each f [] [] = Inr []"
| "zip_each f (x # xs) (y # ys) = sbind (f x y) (\<lambda>z. sbind (zip_each f xs ys) (\<lambda>zs. Inr (z # zs)))"
| "zip_each f _ _ = Inl ValueError"

fun zip_run :: "('a \<Rightarrow> 'b \<Rightarrow> ('s, unit) exec) \<Rightarrow> 'a list \<Rightarrow> 'b list \<Rightarrow> ('s, unit) exec" where
  "zip_run f [] [] = ret ()"
| "zip_run f (x # xs) (y # ys) = bind (f x y) (\<lambda>_. zip_run f xs ys)"
| "zip_run f _ _ = throw ValueError"

definition bet_placed_of :: "round_context \<Rightarrow> bet_row \<Rightarrow> resolved_bet \<Rightarrow> bet_placed_data" where
  "bet_placed_of ctx row r =
     \<lparr>bp_round_id = r_id (rc_round ctx), bp_bet_id = b_id row, bp_user_id = rc_user_id ctx,
      bp_bet_type = bet_type (bet r), bp_selection = selection (bet r),
      bp_stake_minor = minor (stake (bet r)), bp_currency = rc_currency ctx\<rparr>"

definition settled_bet_of :: "bet_row \<Rightarrow> resolved_bet \<Rightarrow> settled_bet" where
  "settled_bet_of row r =
     \<lparr>sb_bet_id = b_id row, sb_bet_type = bet_type (bet r), sb_selection = selection (bet r),
      sb_stake_minor = minor (stake (bet r)), sb_payout_minor = minor (payout r),
      sb_won = won r\<rparr>"

definition round_settled_of :: "round_context \<Rightarrow> settled_bet list \<Rightarrow> round_settled_data" where
  "round_settled_of ctx sbets =
     \<lparr>rs_round_id = r_id (rc_round ctx), rs_user_id = rc_user_id ctx,
      rs_seed_pair_id = rc_seed_pair_id ctx, rs_nonce = rc_nonce ctx,
      rs_outcome = rc_outcome ctx, rs_bets = sbets,
      rs_total_stake_minor = rc_total_stake ctx, rs_total_payout_minor = rc_total_payout ctx,
      rs_net_minor = rc_total_payout ctx - rc_total_stake ctx, rs_currency = rc_currency ctx\<rparr>"

definition wallet_tx_of :: "round_context \<Rightarrow> uuid \<Rightarrow> string \<Rightarrow> int \<Rightarrow> int \<Rightarrow> wallet_tx_data" where
  "wallet_tx_of ctx entry_id kind amount balance_after =
     \<lparr>wt_transaction_id = entry_id, wt_user_id = rc_user_id ctx, wt_wallet_id = rc_wallet_id ctx,
      wt_kind = kind, wt_amount_minor = amount, wt_balance_after_minor = balance_after,
      wt_currency = rc_currency ctx, wt_ref_type = Some ''round'',
      wt_ref_id = Some (r_id (rc_round ctx))\<rparr>"

definition enqueue_round_events :: "settings \<Rightarrow> round_context \<Rightarrow> (world, unit) exec" where
  "enqueue_round_events cfg ctx =
     (let key = uuid_str (rc_user_id ctx); ik = Some (rc_idempotency_key ctx) in
     bind (zip_run (\<lambda>row r.
         bind (lift_sum (validated valid_bet_placed (bet_placed_of ctx row r))) (\<lambda>data.
         bind (new_envelope ''bet.placed'' (BetPlacedData data) ik) (\<lambda>envl.
         enqueue_event cfg envl key))) (rc_bet_rows ctx) (rc_resolved ctx)) (\<lambda>_.
     bind (lift_sum (zip_each (\<lambda>row r. validated valid_settled_bet (settled_bet_of row r))
         (rc_bet_rows ctx) (rc_resolved ctx))) (\<lambda>sbets.
     bind (lift_sum (validated valid_round_settled (round_settled_of ctx sbets))) (\<lambda>data.
     bind (new_envelope ''round.settled'' (RoundSettledData data) ik) (\<lambda>round_envelope.
     bind (enqueue_event cfg round_envelope key) (\<lambda>_.
     bind (lift_sum (validated valid_wallet_tx (wallet_tx_of ctx (rc_stake_entry_id ctx) ''bet_stake''
         (- rc_total_stake ctx) (rc_balance_after_stake ctx)))) (\<lambda>data.
     bind (new_envelope ''wallet.transaction'' (WalletTransactionData data) ik) (\<lambda>stake_tx_envelope.
     bind (enqueue_event cfg stake_tx_envelope key) (\<lambda>_.
     (case rc_payout_entry_id ctx of
        None \<Rightarrow> ret ()
      | Some payout_entry_id \<Rightarrow>
         (case rc_balance_after_payout ctx of
            None \<Rightarrow> throw AssertionError
          | Some balance \<Rightarrow>
              bind (lift_sum (validated valid_wallet_tx (wallet_tx_of ctx payout_entry_id ''bet_payout''
                (rc_total_payout ctx) balance))) (\<lambda>data.
              bind (new_envelope ''wallet.transaction'' (WalletTransactionData data) ik) (\<lambda>payout_tx_envelope.
              enqueue_event cfg payout_tx_envelope key)))))))))))))"

section \<open>Placing bets\<close>

definition run_spin :: "seed_material \<Rightarrow> (world, int) exec" where
  "run_spin m = (case spin m of None \<Rightarrow> diverge | Some r \<Rightarrow> lift_sum r)"

definition placed_bets_of :: "bet_request list \<Rightarrow> placed_bet list" where
  "placed_bets_of reqs =
     map (\<lambda>b. \<lparr>bet_type = br_bet_type b, selection = br_selection b, stake = eur (br_stake_minor b)\<rparr>) reqs"

definition input_of :: "resolved_bet \<Rightarrow> resolved_bet_input" where
  "input_of r =
     \<lparr>ri_bet_type = bet_type_value (bet_type (bet r)), ri_selection = selection (bet r),
      ri_stake_minor = minor (stake (bet r)), ri_payout_minor = minor (payout r), ri_won = won r\<rparr>"

definition view_of :: "resolved_bet \<Rightarrow> settled_bet_view" where
  "view_of r =
     \<lparr>sv_bet_type = bet_type (bet r), sv_selection = selection (bet r),
      sv_stake_minor = minor (stake (bet r)), sv_payout_minor = minor (payout r), sv_won = won r\<rparr>"

definition place_bet :: "settings \<Rightarrow> uuid \<Rightarrow> string \<Rightarrow> bet_request list \<Rightarrow> (world, place_bet_result) exec" where
  "place_bet cfg uid ik reqs =
     (let placed_bets = placed_bets_of reqs;
          min_bet = eur (TABLE_MIN_BET_MINOR cfg); max_bet = eur (TABLE_MAX_BET_MINOR cfg) in
     bind (lift_sum (smap (\<lambda>b. validate_bet b min_bet max_bet) placed_bets)) (\<lambda>_.
     let staked = total_stake placed_bets in
     bind (get_wallet_by_user_id uid) (\<lambda>found.
     case found of None \<Rightarrow> throw DataIntegrityError | Some wallet \<Rightarrow>
     bind (wallet_debit (w_id wallet) (eur staked)) (\<lambda>balance_after_stake.
     bind (get_active_by_user_id uid) (\<lambda>active.
     case active of None \<Rightarrow> throw DataIntegrityError | Some seed_pair \<Rightarrow>
     bind (consume_nonce (s_id seed_pair)) (\<lambda>n.
     bind (run_spin \<lparr>server_seed = s_server_seed seed_pair, client_seed = s_client_seed seed_pair,
         nonce = n\<rparr>) (\<lambda>outcome.
     bind (lift_sum (resolve_bets placed_bets outcome)) (\<lambda>resolved.
     let paid = total_payout resolved in
     bind (if paid > 0
           then bind (wallet_credit (w_id wallet) (eur paid)) (\<lambda>b. ret (Some b))
           else ret None) (\<lambda>balance_after_payout.
     let final_balance =
           (case balance_after_payout of Some b \<Rightarrow> b | None \<Rightarrow> balance_after_stake) in
     bind (create_settled_round uid (s_id seed_pair) n outcome (map input_of resolved)) (\<lambda>(rnd, bet_rows).
     bind (ledger_append (w_id wallet) (eur (- staked)) balance_after_stake ''bet_stake''
         (Some ''round'') (Some (r_id rnd))) (\<lambda>stake_entry.
     bind (if paid > 0
           then (case balance_after_payout of
                   None \<Rightarrow> throw AssertionError
                 | Some b \<Rightarrow> bind (ledger_append (w_id wallet) (eur paid) b ''bet_payout''
                     (Some ''round'') (Some (r_id rnd))) (\<lambda>e. ret (Some e)))
           else ret None) (\<lambda>payout_entry.
     bind (enqueue_round_events cfg
       \<lparr>rc_user_id = uid, rc_wallet_id = w_id wallet, rc_round = rnd,
        rc_seed_pair_id = s_id seed_pair, rc_nonce = n, rc_outcome = outcome,
        rc_bet_rows = bet_rows, rc_resolved = resolved, rc_total_stake = staked,
        rc_total_payout = paid, rc_stake_entry_id = l_id stake_entry,
        rc_payout_entry_id = map_option l_id payout_entry,
        rc_balance_after_stake = balance_after_stake,
        rc_balance_after_payout = balance_after_payout,
        rc_currency = w_currency wallet, rc_idempotency_key = ik\<rparr>) (\<lambda>_.
     ret \<lparr>pr_round_id = r_id rnd, pr_outcome = outcome, pr_bets = map view_of resolved,
          pr_total_stake_minor = staked, pr_total_payout_minor = paid,
          pr_net_minor = paid - staked, pr_balance_minor = final_balance\<rparr>)))))))))))))"

section \<open>What the round enqueues\<close>

text \<open>
  The events of a round, in order: one per bet, the settled round, the stake and, when the
  round paid, the payout.
\<close>

definition round_events :: "round_context \<Rightarrow> (string \<times> event_data) list" where
  "round_events ctx =
     map2 (\<lambda>row r. (''bet.placed'', BetPlacedData (bet_placed_of ctx row r))) (rc_bet_rows ctx) (rc_resolved ctx)
     @ [(''round.settled'', RoundSettledData
           (round_settled_of ctx (map2 settled_bet_of (rc_bet_rows ctx) (rc_resolved ctx)))),
        (''wallet.transaction'', WalletTransactionData (wallet_tx_of ctx (rc_stake_entry_id ctx)
           ''bet_stake'' (- rc_total_stake ctx) (rc_balance_after_stake ctx)))]
     @ (case rc_payout_entry_id ctx of None \<Rightarrow> []
        | Some eid \<Rightarrow> [(''wallet.transaction'', WalletTransactionData (wallet_tx_of ctx eid
            ''bet_payout'' (rc_total_payout ctx) (the (rc_balance_after_payout ctx))))])"

lemma zip_each_validated:
  "zip_each (\<lambda>x y. validated ok (f x y)) xs ys = Inr zs \<Longrightarrow>
     length xs = length ys \<and> zs = map2 f xs ys"
  by (induction "\<lambda>x y. validated ok (f x y)" xs ys arbitrary: zs rule: zip_each.induct)
    (auto simp: sbind_Inr_iff)

lemma zip_run_emit:
  assumes "zip_run (\<lambda>x y. bind (lift_sum (validated ok (d x y))) (\<lambda>data.
      bind (new_envelope et (C data) ik) (\<lambda>envl. enqueue_event cfg envl key))) xs ys w = (Val (), w')"
    (is "zip_run ?f xs ys w = _")
  shows "length xs = length ys \<and> emit_all cfg key ik (map2 (\<lambda>x y. (et, C (d x y))) xs ys) w = (Val (), w')"
  using assms
proof (induction ?f xs ys arbitrary: w rule: zip_run.induct)
  case (2 x xs y ys)
  then obtain w1 where "emit cfg key ik (et, C (d x y)) w = (Val (), w1)"
    and "zip_run ?f xs ys w1 = (Val (), w')"
    by (auto simp: Val_iffs emit_def)
  with 2(1) [of w1] show ?case by (simp add: bind_Val)
qed (auto simp: exec_simps)

lemma enqueue_round_events_Val:
  assumes "enqueue_round_events cfg ctx w = (Val (), w')"
  shows "length (rc_bet_rows ctx) = length (rc_resolved ctx) \<and> rc_bet_rows ctx \<noteq> []
    \<and> emit_all cfg (uuid_str (rc_user_id ctx)) (Some (rc_idempotency_key ctx)) (round_events ctx) w = (Val (), w')"
proof -
  let ?key = "uuid_str (rc_user_id ctx)" and ?ik = "Some (rc_idempotency_key ctx)"
  let ?emit = "emit cfg ?key ?ik"
  from assms obtain w1 sbets w2 w3 where
    placed: "zip_run (\<lambda>row r.
         bind (lift_sum (validated valid_bet_placed (bet_placed_of ctx row r))) (\<lambda>data.
         bind (new_envelope ''bet.placed'' (BetPlacedData data) ?ik) (\<lambda>envl.
         enqueue_event cfg envl ?key))) (rc_bet_rows ctx) (rc_resolved ctx) w = (Val (), w1)"
    and sbets: "zip_each (\<lambda>row r. validated valid_settled_bet (settled_bet_of row r))
         (rc_bet_rows ctx) (rc_resolved ctx) = Inr sbets"
    and some: "valid_round_settled (round_settled_of ctx sbets)"
    and settled: "?emit (''round.settled'', RoundSettledData (round_settled_of ctx sbets)) w1 = (Val (), w2)"
    and staked: "?emit (''wallet.transaction'', WalletTransactionData (wallet_tx_of ctx
         (rc_stake_entry_id ctx) ''bet_stake'' (- rc_total_stake ctx) (rc_balance_after_stake ctx))) w2 = (Val (), w3)"
    and paid: "(case rc_payout_entry_id ctx of None \<Rightarrow> ret ()
      | Some eid \<Rightarrow> (case rc_balance_after_payout ctx of None \<Rightarrow> throw AssertionError
          | Some balance \<Rightarrow>
              bind (lift_sum (validated valid_wallet_tx (wallet_tx_of ctx eid ''bet_payout''
                (rc_total_payout ctx) balance))) (\<lambda>data.
              bind (new_envelope ''wallet.transaction'' (WalletTransactionData data) ?ik) (\<lambda>envl.
              enqueue_event cfg envl ?key)))) w3 = (Val (), w')"
    unfolding enqueue_round_events_def Let_def emit_def by (auto simp: Val_iffs)
  have last: "emit_all cfg ?key ?ik (case rc_payout_entry_id ctx of None \<Rightarrow> []
        | Some eid \<Rightarrow> [(''wallet.transaction'', WalletTransactionData (wallet_tx_of ctx eid
            ''bet_payout'' (rc_total_payout ctx) (the (rc_balance_after_payout ctx))))]) w3 = (Val (), w')"
    using paid by (auto simp: exec_simps Val_iffs emit_def bind_Val split: option.splits)
  have "rc_bet_rows ctx \<noteq> []"
    using some zip_each_validated [OF sbets] by (auto simp: valid_round_settled_def round_settled_of_def)
  with zip_run_emit [OF placed] zip_each_validated [OF sbets] settled staked last show ?thesis
    by (auto simp: round_events_def bind_Val simp flip: emit_all_append)
qed

section \<open>The abstract effect of a round\<close>

text \<open>
  \<open>settles\<close> is what placing bets promises, as one update of the tables \<open>d\<close> at time \<open>t\<close>: the
  user's wallet moves by payouts minus stakes, the active pair spends one nonce, the outcome
  is the spin of that nonce, and the round, its bets, its ledger entries and its events are
  appended, all of them about the same round.
\<close>

definition round_entry :: "uuid \<Rightarrow> uuid \<Rightarrow> string \<Rightarrow> int \<Rightarrow> int \<Rightarrow> uuid \<Rightarrow> time \<Rightarrow> ledger_row" where
  "round_entry wid rid kind amount balance eid t =
     \<lparr>l_id = eid, l_wallet_id = wid, l_amount_minor = amount, l_balance_after_minor = balance,
      l_kind = kind, l_ref_type = Some ''round'', l_ref_id = Some rid, l_created_at = t\<rparr>"

definition round_entries :: "wallet_row \<Rightarrow> round_row \<Rightarrow> int \<Rightarrow> int \<Rightarrow> uuid \<Rightarrow> uuid \<Rightarrow> time \<Rightarrow> ledger_row list" where
  "round_entries wallet rnd staked paid eid pid t =
     round_entry (w_id wallet) (r_id rnd) ''bet_stake'' (- staked) (w_balance_minor wallet - staked) eid t
     # (if paid > 0 then [round_entry (w_id wallet) (r_id rnd) ''bet_payout'' paid
          (w_balance_minor wallet - staked + paid) pid t] else [])"

definition settled_events ::
  "uuid \<Rightarrow> string \<Rightarrow> round_row \<Rightarrow> int \<Rightarrow> bet_row list \<Rightarrow> resolved_bet list \<Rightarrow> int \<Rightarrow> int
     \<Rightarrow> ledger_row list \<Rightarrow> (string \<times> event_data) list" where
  "settled_events uid cur rnd outcome rows resolved staked paid es =
     map2 (\<lambda>row r. (''bet.placed'', BetPlacedData
       \<lparr>bp_round_id = r_id rnd, bp_bet_id = b_id row, bp_user_id = uid,
        bp_bet_type = bet_type (bet r), bp_selection = selection (bet r),
        bp_stake_minor = minor (stake (bet r)), bp_currency = cur\<rparr>)) rows resolved
     @ [(''round.settled'', RoundSettledData
       \<lparr>rs_round_id = r_id rnd, rs_user_id = uid, rs_seed_pair_id = r_seed_pair_id rnd,
        rs_nonce = r_nonce rnd, rs_outcome = outcome, rs_bets = map2 settled_bet_of rows resolved,
        rs_total_stake_minor = staked, rs_total_payout_minor = paid, rs_net_minor = paid - staked,
        rs_currency = cur\<rparr>)]
     @ map (entry_event uid cur) es"

definition settles ::
  "settings \<Rightarrow> uuid \<Rightarrow> string \<Rightarrow> placed_bet list \<Rightarrow> time \<Rightarrow> database \<Rightarrow> place_bet_result \<Rightarrow> database \<Rightarrow> bool" where
  "settles cfg uid ik placed t d res d' \<longleftrightarrow>
     (\<exists>wallet seed rnd rows eid pid evs.
        let outcome = pr_outcome res; resolved = map (resolution outcome) placed;
            staked = total_stake placed; paid = total_payout resolved;
            es = round_entries wallet rnd staked paid eid pid t in
        wallet \<in> set (wallets d) \<and> w_user_id wallet = uid
      \<and> seed \<in> set (seed_pairs d) \<and> s_user_id seed = uid \<and> s_status seed = ''active''
      \<and> 0 < staked \<and> staked \<le> w_balance_minor wallet \<and> 0 \<le> paid
      \<and> spin \<lparr>server_seed = s_server_seed seed, client_seed = s_client_seed seed,
           nonce = s_nonce seed + 1\<rparr> = Some (Inr outcome)
      \<and> r_user_id rnd = uid \<and> r_seed_pair_id rnd = s_id seed \<and> r_nonce rnd = s_nonce seed + 1
      \<and> r_outcome rnd = Some outcome \<and> r_status rnd = ''settled'' \<and> r_created_at rnd = t
      \<and> check_round d rnd = None
      \<and> list_all2 (bet_row_of (r_id rnd)) (map input_of resolved) rows
      \<and> list_all2 (pending_event cfg (uuid_str uid) (Some ik) t)
           (settled_events uid (w_currency wallet) rnd outcome rows resolved staked paid es) evs
      \<and> d' = d\<lparr>wallets := add_balance (w_id wallet) (paid - staked) (wallets d),
               seed_pairs := bump_nonce (s_id seed) (seed_pairs d),
               rounds := rounds d @ [rnd], bets := bets d @ rows,
               ledger := ledger d @ es, outbox := outbox d @ evs\<rparr>
      \<and> res = \<lparr>pr_round_id = r_id rnd, pr_outcome = outcome, pr_bets = map view_of resolved,
                pr_total_stake_minor = staked, pr_total_payout_minor = paid,
                pr_net_minor = paid - staked,
                pr_balance_minor = w_balance_minor wallet - staked + paid\<rparr>)"

subsection \<open>The steps of the handler\<close>

lemma run_spin_Val: "run_spin m w = (Val n, w') \<longleftrightarrow> spin m = Some (Inr n) \<and> w' = w"
  by (auto simp: run_spin_def lift_sum_Val_iff exec_simps split: option.splits)

lemma credit_payout_Val:
  assumes ok: "wallets_ok (db w)" and b: "balance_of (db w) wid = Some b" and paid: "0 \<le> paid"
    and run: "(if paid > 0 then bind (wallet_credit wid (eur paid)) (\<lambda>b. ret (Some b)) else ret None) w
      = (Val bo, w')"
  shows "bo = (if paid > 0 then Some (b + paid) else None) \<and> w' = move_balance wid paid w"
proof (cases "paid > 0")
  case True
  with run obtain n where n: "wallet_credit wid (eur paid) w = (Val n, w')" "bo = Some n"
    by (auto simp: bind_Val_iff exec_simps)
  from wallet_credit_Val [OF ok n(1)] b n(2) True show ?thesis by simp
next
  case False
  have "add_balance wid 0 rows = rows" for rows
    by (induction rows) (simp_all add: add_balance_def)
  with False paid run show ?thesis by (auto simp: exec_simps move_balance_def)
qed

lemma total_payout_nonneg:
  "\<forall>b \<in> set placed. 0 < minor (stake b) \<Longrightarrow> 0 \<le> total_payout (map (resolution outcome) placed)"
  unfolding total_payout_resolution using sum_payout_bounds [of placed outcome] by fastforce

lemma total_stake_pos:
  "placed \<noteq> [] \<Longrightarrow> \<forall>b \<in> set placed. 0 < minor (stake b) \<Longrightarrow> 0 < total_stake placed"
proof (induction placed)
  case (Cons b bs)
  then show ?case by (cases "bs = []") (auto simp: total_stake_def intro: add_pos_pos)
qed simp

lemma found_seed:
  assumes "scalar_one_or_none (filter (\<lambda>r. s_user_id r = uid \<and> s_status r = ''active'') rows) = Inr (Some seed)"
  shows "seed \<in> set rows \<and> s_user_id seed = uid \<and> s_status seed = ''active''"
  using assms by (auto dest: filter_eq_single)

text \<open>The ledger entries of the round, given what was debited and credited.\<close>

lemma append_entries_Val:
  assumes stake: "ledger_append wid (eur (- staked)) b1 ''bet_stake'' (Some ''round'') (Some rid) w = (Val se, w1)"
    and pay: "(if paid > 0 then (case bo of None \<Rightarrow> throw AssertionError
         | Some b \<Rightarrow> bind (ledger_append wid (eur paid) b ''bet_payout'' (Some ''round'') (Some rid)) (\<lambda>e. ret (Some e)))
       else ret None) w1 = (Val po, w2)"
    and bo: "bo = (if paid > 0 then Some b2 else None)"
  shows "\<exists>pid. se = round_entry wid rid ''bet_stake'' (- staked) b1 (l_id se) (tx_time w)
    \<and> po = (if paid > 0 then Some (round_entry wid rid ''bet_payout'' paid b2 pid (tx_time w)) else None)
    \<and> db w2 = (db w)\<lparr>ledger := ledger (db w) @ se #
         (if paid > 0 then [round_entry wid rid ''bet_payout'' paid b2 pid (tx_time w)] else [])\<rparr>
    \<and> tx_time w2 = tx_time w"
proof -
  note s = ledger_append_Val [OF stake]
  have se: "se = round_entry wid rid ''bet_stake'' (- staked) b1 (l_id se) (tx_time w)"
    using s by (simp add: round_entry_def)
  have w1: "db w1 = (db w)\<lparr>ledger := ledger (db w) @ [se]\<rparr>" "tx_time w1 = tx_time w"
    using s by simp_all
  show ?thesis
  proof (cases "paid > 0")
    case True
    with pay bo obtain pe where p: "ledger_append wid (eur paid) b2 ''bet_payout'' (Some ''round'') (Some rid) w1
        = (Val pe, w2)" and po: "po = Some pe"
      by (auto simp: bind_Val_iff exec_simps)
    note q = ledger_append_Val [OF p]
    have pe: "round_entry wid rid ''bet_payout'' paid b2 (l_id pe) (tx_time w) = pe"
      using q w1 by (simp add: round_entry_def)
    have "db w2 = (db w1)\<lparr>ledger := ledger (db w1) @ [pe]\<rparr>" "tx_time w2 = tx_time w1"
      using q by simp_all
    with True w1 se po pe show ?thesis by (intro exI [of _ "l_id pe"]) simp
  next
    case False
    with pay se w1 show ?thesis by (simp add: exec_simps)
  qed
qed

lemma round_events_settled:
  assumes "r_seed_pair_id rnd = sid" "r_nonce rnd = n"
    and "se = round_entry wid (r_id rnd) ''bet_stake'' (- staked) b1 (l_id se) t"
    and "po = (if paid > 0 then Some (round_entry wid (r_id rnd) ''bet_payout'' paid b2 pid t) else None)"
    and "bo = (if paid > 0 then Some b2 else None)"
  shows "round_events
       \<lparr>rc_user_id = uid, rc_wallet_id = wid, rc_round = rnd,
        rc_seed_pair_id = sid, rc_nonce = n, rc_outcome = outcome,
        rc_bet_rows = rows, rc_resolved = resolved, rc_total_stake = staked,
        rc_total_payout = paid, rc_stake_entry_id = l_id se,
        rc_payout_entry_id = map_option l_id po, rc_balance_after_stake = b1,
        rc_balance_after_payout = bo, rc_currency = cur, rc_idempotency_key = ik\<rparr>
    = settled_events uid cur rnd outcome rows resolved staked paid
        (se # (if paid > 0 then [round_entry wid (r_id rnd) ''bet_payout'' paid b2 pid t] else []))"
proof -
  have "entry_event uid cur se = entry_event uid cur
      (round_entry wid (r_id rnd) ''bet_stake'' (- staked) b1 (l_id se) t)"
    using assms(3) by (rule arg_cong)
  then show ?thesis
    by (simp add: assms(1,2,4,5) round_events_def settled_events_def bet_placed_of_def
        round_settled_of_def wallet_tx_of_def entry_event_def round_entry_def)
qed

lemma accepted_bets:
  assumes "smap (\<lambda>b. validate_bet b (eur lo) (eur hi)) placed = Inr us" and "b \<in> set placed"
  shows "validate_bet b (eur lo) (eur hi) = Inr ()"
proof -
  from assms(2) obtain i where "i < length placed" "b = placed ! i" by (auto simp: in_set_conv_nth)
  with assms(1) show ?thesis by (auto simp: smap_Inr_iff dest: list_all2_nthD)
qed

lemma place_bet_Val:
  assumes wok: "wallets_ok (db w)" and sok: "seeds_ok (db w)"
    and run: "place_bet cfg uid ik reqs w = (Val res, w')"
  shows "settles cfg uid ik (placed_bets_of reqs) (tx_time w) (db w) res (db w')"
proof -
  let ?placed = "placed_bets_of reqs"
  let ?staked = "total_stake ?placed"
  from run obtain us wallet w1 b1 seed n w2 outcome resolved bo w3 rnd rows w4 se w5 po w6 where
    valid: "smap (\<lambda>b. validate_bet b (eur (TABLE_MIN_BET_MINOR cfg)) (eur (TABLE_MAX_BET_MINOR cfg))) ?placed = Inr us"
    and found: "scalar_one_or_none (filter (\<lambda>r. w_user_id r = uid) (wallets (db w))) = Inr (Some wallet)"
    and debit: "wallet_debit (w_id wallet) (eur ?staked) w = (Val b1, w1)"
    and active: "scalar_one_or_none (filter (\<lambda>r. s_user_id r = uid \<and> s_status r = ''active'')
        (seed_pairs (db w1))) = Inr (Some seed)"
    and consume: "consume_nonce (s_id seed) w1 = (Val n, w2)"
    and spun: "spin \<lparr>server_seed = s_server_seed seed, client_seed = s_client_seed seed, nonce = n\<rparr> = Some (Inr outcome)"
    and resolved: "resolve_bets ?placed outcome = Inr resolved"
    and credit: "(if total_payout resolved > 0
        then bind (wallet_credit (w_id wallet) (eur (total_payout resolved))) (\<lambda>b. ret (Some b)) else ret None) w2
        = (Val bo, w3)"
    and create: "create_settled_round uid (s_id seed) n outcome (map input_of resolved) w3 = (Val (rnd, rows), w4)"
    and stake: "ledger_append (w_id wallet) (eur (- ?staked)) b1 ''bet_stake'' (Some ''round'') (Some (r_id rnd)) w4
        = (Val se, w5)"
    and pay: "(if total_payout resolved > 0 then (case bo of None \<Rightarrow> throw AssertionError
         | Some b \<Rightarrow> bind (ledger_append (w_id wallet) (eur (total_payout resolved)) b ''bet_payout''
              (Some ''round'') (Some (r_id rnd))) (\<lambda>e. ret (Some e))) else ret None) w5 = (Val po, w6)"
    and events: "enqueue_round_events cfg
       \<lparr>rc_user_id = uid, rc_wallet_id = w_id wallet, rc_round = rnd,
        rc_seed_pair_id = s_id seed, rc_nonce = n, rc_outcome = outcome,
        rc_bet_rows = rows, rc_resolved = resolved, rc_total_stake = ?staked,
        rc_total_payout = total_payout resolved, rc_stake_entry_id = l_id se,
        rc_payout_entry_id = map_option l_id po, rc_balance_after_stake = b1,
        rc_balance_after_payout = bo, rc_currency = w_currency wallet,
        rc_idempotency_key = ik\<rparr> w6 = (Val (), w')"
    and res: "res = \<lparr>pr_round_id = r_id rnd, pr_outcome = outcome, pr_bets = map view_of resolved,
          pr_total_stake_minor = ?staked, pr_total_payout_minor = total_payout resolved,
          pr_net_minor = total_payout resolved - ?staked,
          pr_balance_minor = (case bo of Some b \<Rightarrow> b | None \<Rightarrow> b1)\<rparr>"
    unfolding place_bet_def Let_def
    by (auto simp: bind_Val_iff lift_sum_Val_iff get_wallet_Val get_active_Val run_spin_Val
        option_throw_Val_iff exec_apply)
  let ?resolved = "map (resolution outcome) ?placed"
  let ?paid = "total_payout resolved"
  have rs: "resolved = ?resolved" using resolve_bets_Inr [OF resolved] by blast
  from found_wallet [OF found] have wal: "wallet \<in> set (wallets (db w))" "w_user_id wallet = uid"
    by simp_all
  have bal: "balance_of (db w) (w_id wallet) = Some (w_balance_minor wallet)"
    using wal balance_of_Some [OF wok] by blast
  with wallet_debit_Val [OF wok debit] have b1: "b1 = w_balance_minor wallet - ?staked" "0 \<le> b1"
    and w1: "w1 = move_balance (w_id wallet) (- ?staked) w" by simp_all
  have sok1: "seeds_ok (db w1)" using sok by (simp add: w1 move_balance_def seeds_ok_def)
  have seed: "seed \<in> set (seed_pairs (db w))" "s_user_id seed = uid" "s_status seed = ''active''"
    using found_seed [OF active] by (simp_all add: w1 move_balance_def)
  then have "nonce_of (db w1) (s_id seed) = Some (s_nonce seed)"
    using nonce_of_Some [OF sok1] by (auto simp: w1 move_balance_def)
  with consume_nonce_Val [OF sok1 consume] have n: "n = s_nonce seed + 1"
    and w2: "w2 = spend_nonce (s_id seed) w1" by simp_all
  note created = create_settled_round_Val [OF create]
  have pos: "\<forall>b \<in> set ?placed. 0 < minor (stake b)"
    using created by (simp add: rs input_of_def resolution_def)
  have paid: "0 \<le> ?paid" unfolding rs by (rule total_payout_nonneg [OF pos])
  have wok2: "wallets_ok (db w2)"
    using wallets_ok_move [OF wok bal, of "- ?staked"] b1
    by (simp add: w1 w2 spend_nonce_def move_balance_def wallets_ok_def)
  have bal2: "balance_of (db w2) (w_id wallet) = Some b1"
  proof -
    have "wallets (db w2) = wallets (db w1)" by (simp add: w2 spend_nonce_def)
    then have "balance_of (db w2) = balance_of (db w1)" by (simp add: balance_of_def fun_eq_iff)
    then show ?thesis using bal b1(1) by (simp add: w1 balance_of_move)
  qed
  note bo = credit_payout_Val [OF wok2 bal2 paid credit]
  from append_entries_Val [OF stake pay, of "b1 + ?paid"] bo obtain pid where
    se: "se = round_entry (w_id wallet) (r_id rnd) ''bet_stake'' (- ?staked) b1 (l_id se) (tx_time w4)"
    and po: "po = (if ?paid > 0 then Some (round_entry (w_id wallet) (r_id rnd) ''bet_payout'' ?paid
        (b1 + ?paid) pid (tx_time w4)) else None)"
    and w6: "db w6 = (db w4)\<lparr>ledger := ledger (db w4) @ se # (if ?paid > 0
        then [round_entry (w_id wallet) (r_id rnd) ''bet_payout'' ?paid (b1 + ?paid) pid (tx_time w4)] else [])\<rparr>"
      "tx_time w6 = tx_time w4"
    by auto
  have t4: "tx_time w4 = tx_time w"
    using created bo by (simp add: w1 w2 move_balance_def spend_nonce_def)
  let ?es = "round_entries wallet rnd ?staked ?paid (l_id se) pid (tx_time w)"
  have es: "se # (if ?paid > 0 then [round_entry (w_id wallet) (r_id rnd) ''bet_payout'' ?paid
      (b1 + ?paid) pid (tx_time w4)] else []) = ?es"
    using se b1(1) t4 by (simp add: round_entries_def)
  note queued = enqueue_round_events_Val [OF events]
  have "bo = (if ?paid > 0 then Some (b1 + ?paid) else None)" using bo by blast
  note evs = round_events_settled [OF _ _ se po this, of "s_id seed" n uid outcome rows resolved
      "w_currency wallet" ik, unfolded es]
  have "emit_all cfg (uuid_str uid) (Some ik)
      (settled_events uid (w_currency wallet) rnd outcome rows resolved ?staked ?paid ?es) w6 = (Val (), w')"
    and "rows \<noteq> []"
    using queued evs created by simp_all
  then obtain ev_rows where
    ev: "list_all2 (pending_event cfg (uuid_str uid) (Some ik) (tx_time w))
      (settled_events uid (w_currency wallet) rnd outcome rows resolved ?staked ?paid ?es) ev_rows"
    and w': "db w' = (db w6)\<lparr>outbox := outbox (db w6) @ ev_rows\<rparr>"
    using emit_all_Val w6(2) t4 by metis
  have "?placed \<noteq> []" using created \<open>rows \<noteq> []\<close> by (auto simp: rs)
  then have staked: "0 < ?staked" by (rule total_stake_pos [OF _ pos])
  have d': "db w' = (db w)\<lparr>wallets := add_balance (w_id wallet) (?paid - ?staked) (wallets (db w)),
      seed_pairs := bump_nonce (s_id seed) (seed_pairs (db w)),
      rounds := rounds (db w) @ [rnd], bets := bets (db w) @ rows,
      ledger := ledger (db w) @ ?es, outbox := outbox (db w) @ ev_rows\<rparr>"
    using created bo es w6(1) unfolding w'
    by (intro database.equality) (simp_all add: w1 w2 move_balance_def spend_nonce_def)
  have "users (db w3) = users (db w)" "rounds (db w3) = rounds (db w)"
    "s_id ` set (seed_pairs (db w3)) = s_id ` set (seed_pairs (db w))"
    using bo by (simp_all add: w1 w2 move_balance_def spend_nonce_def)
  moreover have "check_round (db w3) rnd = None" using created by blast
  ultimately have chk: "check_round (db w) rnd = None"
    unfolding check_round_def by (simp only:)
  have bal': "(case bo of Some b \<Rightarrow> b | None \<Rightarrow> b1) = w_balance_minor wallet - ?staked + ?paid"
    using bo paid b1(1) by simp
  have res': "pr_outcome res = outcome" by (simp add: res)
  show ?thesis
    unfolding settles_def Let_def res'
    apply (rule exI [of _ wallet], rule exI [of _ seed], rule exI [of _ rnd], rule exI [of _ rows],
        rule exI [of _ "l_id se"], rule exI [of _ pid], rule exI [of _ ev_rows])
    using wal seed b1 staked paid spun created t4 chk ev d' res bal' bo
    by (simp add: rs n w1 w2 move_balance_def spend_nonce_def)
qed

section \<open>What a settled round preserves\<close>

lemma settles_books:
  assumes inv: "books_balance d" and s: "settles cfg uid ik placed t d res d'"
  shows "books_balance d'"
proof -
  from s obtain wallet seed rnd rows eid pid evs staked paid where
    wal: "wallet \<in> set (wallets d)" and pos: "staked \<le> w_balance_minor wallet" "0 \<le> paid"
    and d: "wallets d' = add_balance (w_id wallet) (paid - staked) (wallets d)"
      "ledger d' = ledger d @ round_entries wallet rnd staked paid eid pid t"
    unfolding settles_def Let_def by force
  have ok: "wallets_ok d" using inv by (simp add: books_balance_def)
  have b: "balance_of d (w_id wallet) = Some (w_balance_minor wallet)"
    using wal balance_of_Some [OF ok] by blast
  let ?c = "w_balance_minor wallet - staked + paid"
  show ?thesis
  proof (rule books_balance_step [OF inv b])
    show "\<forall>e \<in> set (round_entries wallet rnd staked paid eid pid t). l_wallet_id e = w_id wallet"
      by (simp add: round_entries_def round_entry_def)
    show "books (w_balance_minor wallet) (round_entries wallet rnd staked paid eid pid t) = Some ?c"
      using pos by (simp add: round_entries_def round_entry_def)
    show "wallets d' = add_balance (w_id wallet) (?c - w_balance_minor wallet) (wallets d)"
      using d(1) by (simp add: algebra_simps)
  qed (use pos d in simp_all)
qed

lemma resolved_bet_honest:
  assumes "bet_row_of rid (input_of (resolution v b)) row" "well_shaped b"
    and "rnd \<in> set rs" "r_id rnd = rid" "r_outcome rnd = Some v"
  shows "honest_bet rs row"
proof -
  from assms(2) obtain S where S: "covered_numbers (bet_type b) (selection b) = Inr S"
    by (auto simp: well_shaped_def)
  have "b_bet_type row = bet_type_value (bet_type b) \<and> covered_numbers (bet_type b) (b_selection row) = Inr S
      \<and> b_status row = (if v \<in> S then ''won'' else ''lost'')
      \<and> b_payout_minor row = (if v \<in> S then b_stake_minor row * (payout_ratio (BET_SPECS (bet_type b)) + 1) else 0)
      \<and> b_round_id row = rid"
    using assms(1) S by (simp add: bet_row_of_def input_of_def resolution_def payout_minor_of_def covers_eq)
  with assms(3-) show ?thesis unfolding honest_bet_def by metis
qed

lemma settles_history:
  assumes inv: "honest_history d" and ok: "seeds_ok d" and ws: "\<forall>b \<in> set placed. well_shaped b"
    and s: "settles cfg uid ik placed t d res d'"
  shows "honest_history d'"
proof -
  let ?v = "pr_outcome res"
  from s obtain seed rnd rows where
    seed: "seed \<in> set (seed_pairs d)" "s_user_id seed = uid"
    and spun: "spin (material seed (s_nonce seed + 1)) = Some (Inr ?v)"
    and r: "r_user_id rnd = uid" "r_seed_pair_id rnd = s_id seed" "r_nonce rnd = s_nonce seed + 1"
      "r_outcome rnd = Some ?v" "r_status rnd = ''settled''" "check_round d rnd = None"
    and rows: "list_all2 (bet_row_of (r_id rnd)) (map input_of (map (resolution ?v) placed)) rows"
    and d: "seed_pairs d' = bump_nonce (s_id seed) (seed_pairs d)"
      "rounds d' = rounds d @ [rnd]" "bets d' = bets d @ rows"
    unfolding settles_def Let_def material_def by force
  let ?s = "seed\<lparr>s_nonce := s_nonce seed + 1\<rparr>"
  have "?s \<in> set (seed_pairs d')" using bump_nonce_member [OF seed(1)] d(1) by simp
  moreover have "0 \<le> s_nonce seed" using ok seed(1) by (simp add: seeds_ok_def)
  moreover have "material ?s (s_nonce seed + 1) = material seed (s_nonce seed + 1)"
    by (simp add: material_def)
  ultimately have "honest_round (seed_pairs d') rnd"
    unfolding honest_round_def using r spun seed(2) by (intro conjI bexI [of _ ?s]) auto
  moreover have "honest_bet (rounds d') row" if "row \<in> set rows" for row
  proof -
    from that obtain i where i: "i < length rows" "row = rows ! i"
      unfolding in_set_conv_nth by blast
    moreover have len: "length rows = length placed" using list_all2_lengthD [OF rows] by simp
    ultimately have "bet_row_of (r_id rnd) (input_of (resolution ?v (placed ! i))) row"
      using list_all2_nthD2 [OF rows, of i] by simp
    moreover have "well_shaped (placed ! i)" using ws i(1) len by simp
    ultimately show ?thesis
      by (rule resolved_bet_honest) (use d(2) r(4) in simp_all)
  qed
  moreover have "(r_seed_pair_id rnd, r_nonce rnd) \<notin> (\<lambda>x. (r_seed_pair_id x, r_nonce x)) ` set (rounds d)"
    using r(6) by (simp add: check_round_def)
  ultimately show ?thesis
    using honest_history_append [OF inv _ d(2,3)] evolves_bump [of "seed_pairs d" "s_id seed"] d(1)
    by simp
qed

lemma settles_seeds:
  assumes "seeds_ok d" and s: "settles cfg uid ik placed t d res d'"
  shows "seeds_ok d'"
proof -
  from s obtain pid where "seed_pairs d' = bump_nonce pid (seed_pairs d)"
    unfolding settles_def Let_def by force
  with seeds_ok_bump [OF assms(1), of pid] show ?thesis by (simp add: seeds_ok_def)
qed

lemma place_bet_shaped:
  assumes "place_bet cfg uid ik reqs w = (Val res, w')"
  shows "\<forall>b \<in> set (placed_bets_of reqs). well_shaped b
    \<and> TABLE_MIN_BET_MINOR cfg \<le> minor (stake b) \<and> minor (stake b) \<le> TABLE_MAX_BET_MINOR cfg"
proof
  fix b assume b: "b \<in> set (placed_bets_of reqs)"
  from assms obtain us where "smap (\<lambda>b. validate_bet b (eur (TABLE_MIN_BET_MINOR cfg))
      (eur (TABLE_MAX_BET_MINOR cfg))) (placed_bets_of reqs) = Inr us"
    unfolding place_bet_def Let_def by (auto simp: bind_Val_iff lift_sum_Val_iff)
  from accepted_bets [OF this b] show "well_shaped b
    \<and> TABLE_MIN_BET_MINOR cfg \<le> minor (stake b) \<and> minor (stake b) \<le> TABLE_MAX_BET_MINOR cfg"
    unfolding validate_bet_euro_iff well_shaped_def by simp
qed

lemma place_bet_consistent:
  assumes inv: "consistent (db w)" and run: "place_bet cfg uid ik reqs w = (Val res, w')"
  shows "consistent (db w')"
proof -
  have wok: "wallets_ok (db w)" using inv by (simp add: consistent_def books_balance_def)
  have sok: "seeds_ok (db w)" using inv by (simp add: consistent_def)
  note s = place_bet_Val [OF wok sok run]
  show ?thesis
    using inv settles_books [OF _ s] settles_seeds [OF sok s] settles_history [OF _ sok _ s]
      place_bet_shaped [OF run] unfolding consistent_def by blast
qed

lemma keeps_zip_run [frame_rules]: "(\<And>x y. keeps g (f x y)) \<Longrightarrow> keeps g (zip_run f xs ys)"
  by (induction f xs ys rule: zip_run.induct) (auto intro!: frame_rules)

lemma no_commit_enqueue: "no_commit (enqueue_round_events cfg ctx)"
  unfolding enqueue_round_events_def Let_def by (auto intro!: frame_rules)

lemma no_commit_place_bet: "no_commit (place_bet cfg uid ik reqs)"
  unfolding place_bet_def Let_def run_spin_def
  by (auto intro!: frame_rules no_commit_enqueue split: prod.splits)

end
