(* ===== verification/Round_Properties.thy ===== *)
theory Round_Properties
  imports Roulette_Service Spin_Demo
begin

text \<open>
  The properties of placing bets, with one round run on the concrete world: 100 on number 6
  and 250 on red, the outcome is 6, so the straight bet pays 3600 and red loses.
\<close>

section \<open>One round on the concrete world\<close>

definition demo_requests :: "bet_request list" where
  "demo_requests =
     [\<lparr>br_bet_type = STRAIGHT, br_selection = [(''numbers'', SelList [6])], br_stake_minor = 100\<rparr>,
      \<lparr>br_bet_type = RED, br_selection = [], br_stake_minor = 250\<rparr>]"

lemma demo_placed: "placed_bets_of demo_requests = demo_bets"
  by (simp add: placed_bets_of_def demo_requests_def demo_bets_def)

lemma demo_covers:
  "covered_numbers STRAIGHT [(''numbers'', SelList [6])] = Inr {6}"
  "covered_numbers RED [] = Inr RED_NUMBERS"
  by (code_simp, simp add: covered_numbers_def)

lemma demo_valid:
  "validate_bet \<lparr>bet_type = STRAIGHT, selection = [(''numbers'', SelList [6])], stake = eur 100\<rparr>
     (eur (TABLE_MIN_BET_MINOR default_settings)) (eur (TABLE_MAX_BET_MINOR default_settings)) = Inr ()"
  "validate_bet \<lparr>bet_type = RED, selection = [], stake = eur 250\<rparr>
     (eur (TABLE_MIN_BET_MINOR default_settings)) (eur (TABLE_MAX_BET_MINOR default_settings)) = Inr ()"
  by (simp_all add: demo_covers validate_bet_euro_iff) (simp_all add: default_settings_def eur_def)

lemma demo_spin: "spin \<lparr>server_seed = demo_server_seed, client_seed = demo_client_seed, nonce = 1\<rparr> = Some (Inr 6)"
  using spin_demo by (simp add: demo_material_def)

definition demo_resolved :: "resolved_bet list" where
  "demo_resolved =
     [\<lparr>bet = hd demo_bets, won = True, payout = eur 3600\<rparr>,
      \<lparr>bet = demo_bets ! 1, won = False, payout = eur 0\<rparr>]"

lemma demo_resolve: "resolve_bets demo_bets 6 = Inr demo_resolved"
  by (simp add: resolve_bets_def resolve_bet_def demo_bets_def demo_resolved_def demo_covers
      money_mul_def money_zero_def Let_def eur_def RED_NUMBERS_def)

lemma demo_totals: "total_stake demo_bets = 350" "total_payout demo_resolved = 3600"
  by (simp_all add: total_stake_def demo_bets_def total_payout_def demo_resolved_def)

definition demo_result :: place_bet_result where
  "demo_result = \<lparr>pr_round_id = 100, pr_outcome = 6, pr_bets = map view_of demo_resolved,
     pr_total_stake_minor = 350, pr_total_payout_minor = 3600, pr_net_minor = 3250,
     pr_balance_minor = 4250\<rparr>"

lemmas place_bet_run = place_bet_def Let_def demo_placed demo_bets_def
  demo_valid demo_resolve [unfolded demo_bets_def demo_resolved_def]
  demo_result_def demo_resolved_def total_payout_def total_stake_def view_of_def input_of_def
  get_wallet_by_user_id_def wallet_debit_def wallet_credit_def get_active_by_user_id_def
  consume_nonce_def run_spin_def demo_spin create_settled_round_def insert_bet_def
  ledger_append_def enqueue_round_events_def new_envelope_def enqueue_event_def
  EVENT_TOPIC_SUFFIXES_def validated_def valid_bet_placed_def valid_settled_bet_def
  valid_round_settled_def valid_wallet_tx_def bet_placed_of_def settled_bet_of_def
  round_settled_of_def wallet_tx_of_def
  exec_simps bind_def update_returning_def insert_into_def select_rows_def check_defs
  check_row_def bigint_def int4_def LEDGER_KINDS_def demo_defs scalar_one_or_none_def
  scalar_one_def

lemma demo_place_bet:
  "fst (place_bet default_settings 1 ''k'' demo_requests demo_world) = Val demo_result"
  by (simp add: place_bet_run)

lemma demo_run:
  "place_bet default_settings 1 ''k'' demo_requests demo_world
     = (Val demo_result, snd (place_bet default_settings 1 ''k'' demo_requests demo_world))"
  using demo_place_bet by (metis prod.collapse)

lemma smap_unit_error:
  "\<exists>b \<in> set bs. f b \<noteq> Inr () \<Longrightarrow> (\<And>b e. f b = Inl e \<Longrightarrow> e = E) \<Longrightarrow> smap f bs = Inl E"
proof (induction bs)
  case (Cons b bs)
  then show ?case by (cases "f b") auto
qed simp

lemma smap_ok: "\<forall>b \<in> set bs. f b = Inr () \<Longrightarrow> smap f bs = Inr (map (\<lambda>_. ()) bs)"
  by (rule smap_all_Inr) simp

section \<open>Properties\<close>

text \<open>
  C7: placing bets implements its abstract effect: when it returns, the wallet, the seed
  pair, the round, the bets, the ledger and the outbox have changed exactly as \<open>settles\<close> says,
  every other table is as it was, and the result reports that same round.
\<close>

theorem place_bet_settles:
  assumes "consistent (db w)" and "place_bet cfg uid ik reqs w = (Val res, w')"
  shows "settles cfg uid ik (placed_bets_of reqs) (tx_time w) (db w) res (db w')"
proof -
  have "wallets_ok (db w)" "seeds_ok (db w)"
    using assms(1) by (simp_all add: consistent_def books_balance_def)
  then show ?thesis using assms(2) by (rule place_bet_Val)
qed

theorem place_bet_settles_witness:
  "settles default_settings 1 ''k'' (placed_bets_of demo_requests) (tx_time demo_world) (db demo_world)
     demo_result (db (snd (place_bet default_settings 1 ''k'' demo_requests demo_world)))"
  by (rule place_bet_settles [OF demo_consistent demo_run])

text \<open>
  C6: a round is one transaction: run inside \<open>unit_of_work\<close>, placing bets either settles the
  round completely or, when anything raises or never returns, leaves every table as it was;
  in every case the books balance, the pairs are sound and the history stays honest.
\<close>

theorem place_bet_all_or_nothing:
  assumes "consistent (db w)" and "unit_of_work (place_bet cfg uid ik reqs) w = (r, w')"
  shows "consistent (db w')
    \<and> (case r of Val res \<Rightarrow> settles cfg uid ik (placed_bets_of reqs) (clock w (ticks w)) (db w) res (db w')
       | _ \<Rightarrow> db w' = db w)"
proof -
  have "consistent (db w')"
    by (rule unit_of_work_invariant [where I = consistent, OF no_commit_place_bet _ assms])
      (rule place_bet_consistent)
  moreover have "case r of Val res \<Rightarrow>
      settles cfg uid ik (placed_bets_of reqs) (clock w (ticks w)) (db w) res (db w') | _ \<Rightarrow> db w' = db w"
  proof (cases r)
    case (Val res)
    then obtain w1 where w1: "place_bet cfg uid ik reqs (start_tx w) = (Val res, w1)" "db w' = db w1"
      using assms(2) by (auto simp: unit_of_work_Val)
    have "wallets_ok (db (start_tx w))" "seeds_ok (db (start_tx w))"
      using assms(1) by (simp_all add: consistent_def books_balance_def)
    from place_bet_Val [OF this w1(1)] w1(2) Val show ?thesis by simp
  qed (use unit_of_work_rollback [OF no_commit_place_bet assms(2)] in auto)
  ultimately show ?thesis by blast
qed

theorem place_bet_all_or_nothing_witness:
  "consistent (db (snd (unit_of_work (place_bet default_settings 1 ''k'' demo_requests) demo_world)))"
  using place_bet_all_or_nothing [OF demo_consistent prod.collapse [symmetric]] by blast

text \<open>
  C16: the refusals of a round, before anything is spun: a bet out of the limits or off the
  table raises \<open>InvalidBetError\<close> without looking at the wallet, a user without a wallet is a
  \<open>DataIntegrityError\<close>, and a total stake above the balance is an
  \<open>InsufficientFundsError\<close>; none of them changes the world.
\<close>

theorem place_bet_refusals:
  assumes "wallets_ok (db w)"
  shows "((\<exists>b \<in> set (placed_bets_of reqs).
        validate_bet b (eur (TABLE_MIN_BET_MINOR cfg)) (eur (TABLE_MAX_BET_MINOR cfg)) \<noteq> Inr ())
      \<longrightarrow> place_bet cfg uid ik reqs w = (Exc InvalidBetError, w))
    \<and> ((\<forall>b \<in> set (placed_bets_of reqs).
        validate_bet b (eur (TABLE_MIN_BET_MINOR cfg)) (eur (TABLE_MAX_BET_MINOR cfg)) = Inr ())
      \<and> (\<forall>r \<in> set (wallets (db w)). w_user_id r \<noteq> uid)
      \<longrightarrow> place_bet cfg uid ik reqs w = (Exc DataIntegrityError, w))
    \<and> ((\<forall>b \<in> set (placed_bets_of reqs).
        validate_bet b (eur (TABLE_MIN_BET_MINOR cfg)) (eur (TABLE_MAX_BET_MINOR cfg)) = Inr ())
      \<and> (\<exists>r \<in> set (wallets (db w)). w_user_id r = uid \<and> w_balance_minor r < total_stake (placed_bets_of reqs))
      \<and> bigint (total_stake (placed_bets_of reqs))
      \<longrightarrow> place_bet cfg uid ik reqs w = (Exc InsufficientFundsError, w))"
proof (intro conjI)
  let ?v = "\<lambda>b. validate_bet b (eur (TABLE_MIN_BET_MINOR cfg)) (eur (TABLE_MAX_BET_MINOR cfg))"
  let ?placed = "placed_bets_of reqs"
  show "(\<exists>b \<in> set ?placed. ?v b \<noteq> Inr ()) \<longrightarrow> place_bet cfg uid ik reqs w = (Exc InvalidBetError, w)"
  proof
    assume "\<exists>b \<in> set ?placed. ?v b \<noteq> Inr ()"
    from smap_unit_error [OF this validate_bet_euro_error] show
      "place_bet cfg uid ik reqs w = (Exc InvalidBetError, w)"
      by (simp add: place_bet_def Let_def exec_simps)
  qed
  show "(\<forall>b \<in> set ?placed. ?v b = Inr ()) \<and> (\<forall>r \<in> set (wallets (db w)). w_user_id r \<noteq> uid)
      \<longrightarrow> place_bet cfg uid ik reqs w = (Exc DataIntegrityError, w)"
  proof (intro impI, elim conjE)
    assume v: "\<forall>b \<in> set ?placed. ?v b = Inr ()" and "\<forall>r \<in> set (wallets (db w)). w_user_id r \<noteq> uid"
    then have "get_wallet_by_user_id uid w = (Val None, w)"
      by (simp add: get_wallet_Val filter_empty_conv)
    then show "place_bet cfg uid ik reqs w = (Exc DataIntegrityError, w)"
      by (simp add: place_bet_def Let_def smap_ok [OF v] bind_simps lift_sum_simps bind_Val exec_apply)
  qed
  show "(\<forall>b \<in> set ?placed. ?v b = Inr ())
      \<and> (\<exists>r \<in> set (wallets (db w)). w_user_id r = uid \<and> w_balance_minor r < total_stake ?placed)
      \<and> bigint (total_stake ?placed)
      \<longrightarrow> place_bet cfg uid ik reqs w = (Exc InsufficientFundsError, w)"
  proof (intro impI, elim conjE bexE)
    fix r assume v: "\<forall>b \<in> set ?placed. ?v b = Inr ()" and big: "bigint (total_stake ?placed)"
      and r: "r \<in> set (wallets (db w))" "w_user_id r = uid" "w_balance_minor r < total_stake ?placed"
    have "filter (\<lambda>x. w_user_id x = w_user_id r) (wallets (db w)) = [r]"
      using assms r(1) by (intro filter_key_singleton) (simp_all add: wallets_ok_def)
    then have found: "get_wallet_by_user_id uid w = (Val (Some r), w)"
      using r(2) by (simp add: get_wallet_Val)
    have "balance_of (db w) (w_id r) = Some (w_balance_minor r)"
      using r balance_of_Some [OF assms] by blast
    then have "wallet_debit (w_id r) (eur (total_stake ?placed)) w = (Exc InsufficientFundsError, w)"
      using r(3) big by (simp add: wallet_debit_spec [OF assms])
    then show "place_bet cfg uid ik reqs w = (Exc InsufficientFundsError, w)"
      by (simp add: place_bet_def Let_def smap_ok [OF v] bind_simps lift_sum_simps found
          bind_Val [of "get_wallet_by_user_id uid"] bind_Exc)
  qed
qed

theorem place_bet_refusals_witness:
  "place_bet default_settings 2 ''k'' demo_requests demo_world = (Exc DataIntegrityError, demo_world)"
proof -
  have "\<forall>b \<in> set (placed_bets_of demo_requests).
      validate_bet b (eur (TABLE_MIN_BET_MINOR default_settings)) (eur (TABLE_MAX_BET_MINOR default_settings)) = Inr ()"
    unfolding demo_placed by (simp add: demo_bets_def demo_valid)
  moreover have "\<forall>r \<in> set (wallets (db demo_world)). w_user_id r \<noteq> 2" by (simp add: demo_defs)
  ultimately show ?thesis
    using place_bet_refusals [OF demo_wallets_ok, of demo_requests default_settings 2 "''k''"] by blast
qed

end
