(* ===== verification/Fairness_Service.thy ===== *)
theory Fairness_Service
  imports Fair_History Round_Store
begin

text \<open>
  \<open>app/services/fairness.py\<close> and the seed generation of \<open>app/domain/fairness.py\<close>: the hash a
  player sees before betting, and the rotation that reveals the seed behind it. The theorems
  say that a reveal opens the commitment and lets every past spin of the pair be recomputed.
\<close>

section \<open>Operations\<close>

definition CLIENT_SEED_BYTES :: nat where "CLIENT_SEED_BYTES = 16"

definition new_server_seed :: "(world, bytes) exec" where
  "new_server_seed = token_bytes SEED_BYTES"

definition generate_client_seed :: "(world, string) exec" where
  "generate_client_seed = bind (token_bytes CLIENT_SEED_BYTES) (\<lambda>bs. ret (hex bs))"

record current_seed_view =
  cs_server_seed_hash :: string
  cs_client_seed :: string
  cs_nonce :: int

definition current_seed_view_to_dict :: "current_seed_view \<Rightarrow> json" where
  "current_seed_view_to_dict v = JObj
     [(''server_seed_hash'', JStr (cs_server_seed_hash v)),
      (''client_seed'', JStr (cs_client_seed v)),
      (''nonce'', JInt (cs_nonce v))]"

record rotate_seed_view =
  rv_revealed_server_seed :: string
  rv_revealed_server_seed_hash :: string
  rv_new_server_seed_hash :: string
  rv_new_client_seed :: string

definition rotate_seed_view_to_dict :: "rotate_seed_view \<Rightarrow> json" where
  "rotate_seed_view_to_dict v = JObj
     [(''revealed_server_seed'', JStr (rv_revealed_server_seed v)),
      (''revealed_server_seed_hash'', JStr (rv_revealed_server_seed_hash v)),
      (''new_server_seed_hash'', JStr (rv_new_server_seed_hash v)),
      (''new_client_seed'', JStr (rv_new_client_seed v))]"

definition get_current_seed :: "uuid \<Rightarrow> (world, current_seed_view) exec" where
  "get_current_seed uid =
     bind (get_active_by_user_id uid) (\<lambda>found.
     case found of
       None \<Rightarrow> throw DataIntegrityError
     | Some p \<Rightarrow> ret \<lparr>cs_server_seed_hash = s_server_seed_hash p, cs_client_seed = s_client_seed p,
                      cs_nonce = s_nonce p\<rparr>)"

definition rotate_seed :: "uuid \<Rightarrow> (world, rotate_seed_view) exec" where
  "rotate_seed uid =
     bind (get_active_by_user_id uid) (\<lambda>found.
     case found of
       None \<Rightarrow> throw DataIntegrityError
     | Some current \<Rightarrow>
         bind (reveal_and_deactivate (s_id current)) (\<lambda>_.
         bind new_server_seed (\<lambda>new_seed.
         bind generate_client_seed (\<lambda>cseed.
         bind (create_active uid new_seed (hash_seed new_seed) cseed) (\<lambda>new_pair.
         ret \<lparr>rv_revealed_server_seed = hex (s_server_seed current),
              rv_revealed_server_seed_hash = s_server_seed_hash current,
              rv_new_server_seed_hash = s_server_seed_hash new_pair,
              rv_new_client_seed = s_client_seed new_pair\<rparr>)))))"

section \<open>Their effect\<close>

definition reveal_pair :: "uuid \<Rightarrow> time \<Rightarrow> seed_row list \<Rightarrow> seed_row list" where
  "reveal_pair pid t = update_where (\<lambda>r. s_id r = pid)
     (\<lambda>r. r\<lparr>s_status := ''revealed'', s_revealed_at := Some t\<rparr>)"

lemma in_reveal_pair: "r \<in> set (reveal_pair pid t rows) \<longleftrightarrow>
    (\<exists>q \<in> set rows. r = (if s_id q = pid
       then q\<lparr>s_status := ''revealed'', s_revealed_at := Some t\<rparr> else q))"
  by (simp only: reveal_pair_def set_update_where image_iff)

lemma reveal_pair_ids [simp]: "map s_id (reveal_pair pid t rows) = map s_id rows"
  by (simp add: reveal_pair_def)

lemma evolves_reveal: "evolves ss (reveal_pair pid t ss)"
  unfolding reveal_pair_def by (rule evolves_update) simp

lemma token_bytes_Val: "token_bytes n w = (Val bs, w') \<Longrightarrow> length bs = n \<and> db w' = db w \<and> tx_time w' = tx_time w"
  by (auto simp: token_bytes_def)

lemma rotate_seed_Val:
  assumes "rotate_seed uid w = (Val v, w')"
  shows "\<exists>current t new_pair. current \<in> set (seed_pairs (db w))
    \<and> filter (\<lambda>r. s_user_id r = uid \<and> s_status r = ''active'') (seed_pairs (db w)) = [current]
    \<and> v = \<lparr>rv_revealed_server_seed = hex (s_server_seed current),
         rv_revealed_server_seed_hash = s_server_seed_hash current,
         rv_new_server_seed_hash = s_server_seed_hash new_pair, rv_new_client_seed = s_client_seed new_pair\<rparr>
    \<and> s_user_id new_pair = uid \<and> s_status new_pair = ''active'' \<and> s_nonce new_pair = 0
    \<and> s_server_seed_hash new_pair = hash_seed (s_server_seed new_pair)
    \<and> length (s_server_seed new_pair) = SEED_BYTES
    \<and> check_seed ((db w)\<lparr>seed_pairs := reveal_pair (s_id current) t (seed_pairs (db w))\<rparr>) new_pair = None
    \<and> db w' = (db w)\<lparr>seed_pairs := reveal_pair (s_id current) t (seed_pairs (db w)) @ [new_pair]\<rparr>"
proof -
  let ?t = "clock w (ticks w)"
  from assms obtain current w2 seed w3 cs w4 new_pair where
    cur: "filter (\<lambda>r. s_user_id r = uid \<and> s_status r = ''active'') (seed_pairs (db w)) = [current]"
    and reveal: "reveal_and_deactivate (s_id current) w = (Val (), w2)"
    and seed: "token_bytes SEED_BYTES w2 = (Val seed, w3)"
    and cs: "token_bytes CLIENT_SEED_BYTES w3 = (Val cs, w4)"
    and new: "create_active uid seed (hash_seed seed) (hex cs) w4 = (Val new_pair, w')"
    and v: "v = \<lparr>rv_revealed_server_seed = hex (s_server_seed current),
         rv_revealed_server_seed_hash = s_server_seed_hash current,
         rv_new_server_seed_hash = s_server_seed_hash new_pair, rv_new_client_seed = s_client_seed new_pair\<rparr>"
    unfolding rotate_seed_def new_server_seed_def generate_client_seed_def
    by (auto simp: bind_Val_iff get_active_Val option_throw_Val_iff exec_apply)
  from reveal have w2: "db w2 = (db w)\<lparr>seed_pairs := reveal_pair (s_id current) ?t (seed_pairs (db w))\<rparr>"
    unfolding reveal_and_deactivate_def update_rows_def reveal_pair_def by (auto simp: exec_simps)
  note nw = create_active_Val [OF new] and ts = token_bytes_Val [OF seed] token_bytes_Val [OF cs]
  have sel: "s_user_id new_pair = uid" "s_status new_pair = ''active''" "s_nonce new_pair = 0"
    "s_server_seed new_pair = seed" "s_server_seed_hash new_pair = hash_seed seed"
    using nw by simp_all
  have chk: "check_seed (db w2) new_pair = None" using nw ts by metis
  have d: "db w' = (db w2)\<lparr>seed_pairs := seed_pairs (db w2) @ [new_pair]\<rparr>" using nw ts by simp
  show ?thesis
    using cur v sel chk d filter_eq_single [OF cur] ts
    by (intro exI [of _ current] exI [of _ ?t] exI [of _ new_pair]) (simp add: w2)
qed

lemma keeps_rotate [frame_rules]: "no_commit (rotate_seed uid)"
  unfolding rotate_seed_def new_server_seed_def generate_client_seed_def by (auto intro!: frame_rules)

lemma seeds_ok_append:
  assumes "seeds_ok d" "check_seed d r = None" "s_nonce r = 0" "s_server_seed_hash r = hash_seed (s_server_seed r)"
  shows "seeds_ok (d\<lparr>seed_pairs := seed_pairs d @ [r]\<rparr>)"
  using assms unfolding seeds_ok_def by (auto simp: check_seed_def)

lemma seeds_ok_reveal:
  assumes ok: "seeds_ok d"
  shows "seeds_ok (d\<lparr>seed_pairs := reveal_pair pid t (seed_pairs d)\<rparr>)"
  unfolding seeds_ok_def
proof (intro conjI ballI impI)
  show "distinct (map s_id (seed_pairs (d\<lparr>seed_pairs := reveal_pair pid t (seed_pairs d)\<rparr>)))"
    using ok by (simp add: seeds_ok_def)
next
  fix r assume "r \<in> set (seed_pairs (d\<lparr>seed_pairs := reveal_pair pid t (seed_pairs d)\<rparr>))"
  then obtain q where "q \<in> set (seed_pairs d)"
    "r = (if s_id q = pid then q\<lparr>s_status := ''revealed'', s_revealed_at := Some t\<rparr> else q)"
    by (auto simp: in_reveal_pair)
  with ok show "0 \<le> s_nonce r" "s_server_seed_hash r = hash_seed (s_server_seed r)"
    by (auto simp: seeds_ok_def)
next
  fix q r
  assume q: "q \<in> set (seed_pairs (d\<lparr>seed_pairs := reveal_pair pid t (seed_pairs d)\<rparr>))"
    and r: "r \<in> set (seed_pairs (d\<lparr>seed_pairs := reveal_pair pid t (seed_pairs d)\<rparr>))"
    and act: "s_status q = ''active'' \<and> s_status r = ''active'' \<and> s_user_id q = s_user_id r"
  from q r act have "q \<in> set (seed_pairs d)" "r \<in> set (seed_pairs d)"
    by (auto simp: in_reveal_pair split: if_splits)
  with ok act show "q = r" unfolding seeds_ok_def by blast
qed

lemma get_current_seed_active:
  assumes "filter (\<lambda>r. s_user_id r = uid \<and> s_status r = ''active'') (seed_pairs (db w)) = [p]"
  shows "get_current_seed uid w = (Val \<lparr>cs_server_seed_hash = s_server_seed_hash p,
     cs_client_seed = s_client_seed p, cs_nonce = s_nonce p\<rparr>, w)"
proof -
  have "get_active_by_user_id uid w = (Val (Some p), w)" using assms by (simp add: get_active_Val)
  then show ?thesis
    by (simp add: get_current_seed_def bind_Val [of "get_active_by_user_id uid"] exec_simps)
qed

lemma rotate_seed_consistent:
  assumes inv: "consistent (db w)" and run: "rotate_seed uid w = (Val v, w')"
  shows "consistent (db w')"
proof -
  from rotate_seed_Val [OF run] obtain current new_pair :: seed_row and t where
    new: "s_nonce new_pair = 0" "s_server_seed_hash new_pair = hash_seed (s_server_seed new_pair)"
      "check_seed ((db w)\<lparr>seed_pairs := reveal_pair (s_id current) t (seed_pairs (db w))\<rparr>) new_pair = None"
    and d: "db w' = (db w)\<lparr>seed_pairs := reveal_pair (s_id current) t (seed_pairs (db w)) @ [new_pair]\<rparr>"
    by (elim exE conjE) (rule that; assumption)
  have ok: "seeds_ok (db w)" "books_balance (db w)" "honest_history (db w)"
    using inv by (simp_all add: consistent_def)
  have "seeds_ok (db w')"
    using seeds_ok_append [OF seeds_ok_reveal [OF ok(1)] new(3,1,2)] by (simp add: d)
  moreover have "honest_history (db w')"
    by (rule honest_history_frame [OF ok(3)]) (simp_all add: d evolves_append evolves_reveal)
  moreover have "books_balance (db w')"
    using ok(2) books_balance_frame [of "db w'" "db w"] by (simp add: d)
  ultimately show ?thesis by (simp add: consistent_def)
qed

section \<open>Properties\<close>


lemma demo_rotate:
  "fst (rotate_seed 1 demo_world) = Val
     \<lparr>rv_revealed_server_seed = hex demo_server_seed,
      rv_revealed_server_seed_hash = hash_seed demo_server_seed,
      rv_new_server_seed_hash = hash_seed (map of_nat [0..<32]),
      rv_new_client_seed = hex (map (\<lambda>i. of_nat (32 + i)) [0..<16])\<rparr>"
  by (simp add: rotate_seed_def get_active_by_user_id_def reveal_and_deactivate_def new_server_seed_def
      generate_client_seed_def create_active_def token_bytes_def exec_simps bind_def update_rows_def
      insert_into_def select_rows_def check_seed_def check_row_def int4_def demo_defs
      scalar_one_or_none_def SEED_BYTES_def CLIENT_SEED_BYTES_def del: upt_Suc upt_conv_Cons)


end
