(* ===== verification/Outbox_Relay.thy ===== *)
theory Outbox_Relay
  imports Events
begin

text \<open>
  \<open>app/repositories/outbox.py\<close>, \<open>app/events/relay.py\<close> and \<open>app/events/outbox_cleanup.py\<close>: the
  process that drains the outbox to the broker and the one that purges what was published.
  The broker is outside: what each send does (delivers and acknowledges, fails, or delivers
  without an acknowledgement) is a stream in the state, the messages it received are a log,
  and \<open>FOR UPDATE SKIP LOCKED\<close> is the set of rows that other relays hold. The order of rows
  with one creation time is unspecified in SQL, so a parameter \<open>tie\<close> decides it.
\<close>

section \<open>The relay's state\<close>

datatype send_outcome = Acked | NotDelivered string | DeliveredUnacked string

type_synonym broker_message = "string \<times> string \<times> envelope"

record relay_state =
  rworld :: world
  sent :: "broker_message list"
  outcomes :: "nat \<Rightarrow> send_outcome"
  sends :: nat

definition message_of :: "outbox_row \<Rightarrow> broker_message" where
  "message_of r = (o_topic r, o_key r, o_payload r)"

definition on_world :: "(world, 'a) exec \<Rightarrow> (relay_state, 'a) exec" where
  "on_world m = (\<lambda>s. case m (rworld s) of (r, w) \<Rightarrow> (r, s\<lparr>rworld := w\<rparr>))"

text \<open>\<open>producer.send_and_wait\<close>: the error it raises, if any.\<close>

definition send_and_wait :: "outbox_row \<Rightarrow> (relay_state, string option) exec" where
  "send_and_wait row = (\<lambda>s.
     let s' = s\<lparr>sends := sends s + 1\<rparr> in
     case outcomes s (sends s) of
       Acked \<Rightarrow> (Val None, s'\<lparr>sent := sent s @ [message_of row]\<rparr>)
     | NotDelivered e \<Rightarrow> (Val (Some e), s')
     | DeliveredUnacked e \<Rightarrow> (Val (Some e), s'\<lparr>sent := sent s @ [message_of row]\<rparr>))"

section \<open>The repository\<close>

definition BASE_BACKOFF_SECONDS :: int where "BASE_BACKOFF_SECONDS = 2"
definition MAX_BACKOFF_SECONDS :: int where "MAX_BACKOFF_SECONDS = 60"

definition eligible :: "time \<Rightarrow> uuid set \<Rightarrow> outbox_row \<Rightarrow> bool" where
  "eligible now locked r \<longleftrightarrow> o_published_at r = None
     \<and> (case o_next_attempt_at r of None \<Rightarrow> True | Some t \<Rightarrow> t \<le> now) \<and> o_id r \<notin> locked"

definition lock_unpublished_batch ::
  "(outbox_row \<Rightarrow> nat) \<Rightarrow> uuid set \<Rightarrow> nat \<Rightarrow> (world, outbox_row list) exec" where
  "lock_unpublished_batch tie locked limit =
     bind now_utc (\<lambda>now.
     gets (\<lambda>w. take limit (sort_key o_created_at (sort_key tie
       (filter (eligible now locked) (outbox (db w)))))))"

definition mark_published :: "uuid \<Rightarrow> (world, unit) exec" where
  "mark_published eid =
     bind now_utc (\<lambda>t.
     update_rows outbox_update (\<lambda>r. o_id r = eid) (\<lambda>r. r\<lparr>o_published_at := Some t\<rparr>))"

definition backoff_seconds :: "int \<Rightarrow> int" where
  "backoff_seconds attempts = min (BASE_BACKOFF_SECONDS * 2 ^ nat attempts) MAX_BACKOFF_SECONDS"

definition mark_failed :: "uuid \<Rightarrow> int \<Rightarrow> string \<Rightarrow> (world, unit) exec" where
  "mark_failed eid attempts error =
     bind now_utc (\<lambda>t.
     bind (unless_raise (int4 attempts) DataError) (\<lambda>_.
     update_rows outbox_update (\<lambda>r. o_id r = eid)
       (\<lambda>r. r\<lparr>o_attempts := attempts, o_last_error := Some (take 500 error),
              o_next_attempt_at := Some (t + seconds (backoff_seconds attempts))\<rparr>)))"

definition purgeable :: "time \<Rightarrow> outbox_row \<Rightarrow> bool" where
  "purgeable older_than r \<longleftrightarrow> (case o_published_at r of None \<Rightarrow> False | Some t \<Rightarrow> t < older_than)"

definition purge_published :: "time \<Rightarrow> (world, nat) exec" where
  "purge_published older_than =
     (\<lambda>w. (Val (length (filter (purgeable older_than) (outbox (db w)))),
           w\<lparr>db := outbox_update (filter (\<lambda>r. \<not> purgeable older_than r)) (db w)\<rparr>))"

section \<open>The relay\<close>

definition RELAY_BATCH_SIZE :: nat where "RELAY_BATCH_SIZE = 50"

fun relay_rows :: "outbox_row list \<Rightarrow> (relay_state, unit) exec" where
  "relay_rows [] = ret ()"
| "relay_rows (row # rows) =
     bind (send_and_wait row) (\<lambda>error.
     bind (case error of
             Some e \<Rightarrow> on_world (mark_failed (o_id row) (o_attempts row + 1) e)
           | None \<Rightarrow> on_world (mark_published (o_id row))) (\<lambda>_.
     relay_rows rows))"

text \<open>The transaction of a cycle: what was sent stays sent when the tables are rolled back.\<close>

definition relay_transaction :: "(relay_state, 'a) exec \<Rightarrow> (relay_state, 'a) exec" where
  "relay_transaction body = (\<lambda>s. case body (s\<lparr>rworld := start_tx (rworld s)\<rparr>) of
      (Val x, t) \<Rightarrow> (Val x, t\<lparr>rworld := (rworld t)\<lparr>committed := db (rworld t)\<rparr>\<rparr>)
    | (Exc e, t) \<Rightarrow> (Exc e, t\<lparr>rworld := (rworld t)\<lparr>db := committed (rworld t)\<rparr>\<rparr>)
    | (NoReturn, t) \<Rightarrow> (NoReturn, t\<lparr>rworld := (rworld t)\<lparr>db := committed (rworld t)\<rparr>\<rparr>))"

definition relay_once ::
  "(outbox_row \<Rightarrow> nat) \<Rightarrow> uuid set \<Rightarrow> nat \<Rightarrow> (relay_state, nat) exec" where
  "relay_once tie locked batch_size =
     relay_transaction
       (bind (on_world (lock_unpublished_batch tie locked batch_size)) (\<lambda>rows.
        if rows = [] then ret 0
        else bind (relay_rows rows) (\<lambda>_. ret (length rows))))"

text \<open>
  One iteration of \<open>relay_loop\<close>: an exception of the cycle is swallowed and counts as nothing
  published; the flag says whether the loop sleeps before the next poll.
\<close>

definition relay_iteration :: "(outbox_row \<Rightarrow> nat) \<Rightarrow> uuid set \<Rightarrow> relay_state \<Rightarrow> bool \<times> relay_state" where
  "relay_iteration tie locked s =
     (case relay_once tie locked RELAY_BATCH_SIZE s of
        (Val n, t) \<Rightarrow> (n = 0, t)
      | (_, t) \<Rightarrow> (True, t))"

fun relay_loop :: "(outbox_row \<Rightarrow> nat) \<Rightarrow> nat \<Rightarrow> relay_state \<Rightarrow> relay_state" where
  "relay_loop tie 0 s = s"
| "relay_loop tie (Suc n) s = relay_loop tie n (snd (relay_iteration tie {} s))"

definition purge_once :: "int \<Rightarrow> (world, nat) exec" where
  "purge_once retention_hours =
     bind now_utc (\<lambda>now.
     unit_of_work (purge_published (now - hours retention_hours)))"

text \<open>One iteration of \<open>purge_loop\<close>, up to its sleep: a cycle that raises is logged and forgotten.\<close>

definition purge_iteration :: "int \<Rightarrow> world \<Rightarrow> world" where
  "purge_iteration retention_hours w = snd (purge_once retention_hours w)"

section \<open>What a batch does\<close>

definition mark_row :: "uuid \<Rightarrow> (outbox_row \<Rightarrow> outbox_row) \<Rightarrow> relay_state \<Rightarrow> relay_state" where
  "mark_row eid f s = s\<lparr>rworld := (rworld s)\<lparr>db := outbox_update (update_where (\<lambda>r. o_id r = eid) f) (db (rworld s))\<rparr>\<rparr>"

abbreviation rows_of :: "relay_state \<Rightarrow> outbox_row list" where
  "rows_of s \<equiv> outbox (db (rworld s))"

text \<open>How the row of a send and the log end, by the outcome of the send.\<close>

definition after_send :: "send_outcome \<Rightarrow> outbox_row \<Rightarrow> outbox_row \<Rightarrow> bool" where
  "after_send oc r r' \<longleftrightarrow>
     (case oc of
        Acked \<Rightarrow> (\<exists>t. r' = r\<lparr>o_published_at := Some t\<rparr>)
      | NotDelivered e \<Rightarrow> (\<exists>t. r' = r\<lparr>o_attempts := o_attempts r + 1, o_last_error := Some (take 500 e),
          o_next_attempt_at := Some (t + seconds (backoff_seconds (o_attempts r + 1)))\<rparr>)
      | DeliveredUnacked e \<Rightarrow> (\<exists>t. r' = r\<lparr>o_attempts := o_attempts r + 1, o_last_error := Some (take 500 e),
          o_next_attempt_at := Some (t + seconds (backoff_seconds (o_attempts r + 1)))\<rparr>))"

fun delivered :: "send_outcome \<Rightarrow> outbox_row \<Rightarrow> broker_message list" where
  "delivered (NotDelivered _) r = []"
| "delivered _ r = [message_of r]"

lemma after_send_id [simp]: "after_send oc r r' \<Longrightarrow> o_id r' = o_id r"
  by (auto simp: after_send_def split: send_outcome.splits)

text \<open>One row of the batch.\<close>

lemma relay_row_step:
  assumes "relay_rows (row # rows) s = (Val (), s')"
  shows "\<exists>f u. after_send (outcomes s (sends s)) row (f row)
    \<and> (\<forall>r. o_id (f r) = o_id r)
    \<and> rows_of u = update_where (\<lambda>r. o_id r = o_id row) f (rows_of s)
    \<and> sent u = sent s @ delivered (outcomes s (sends s)) row
    \<and> outcomes u = outcomes s \<and> sends u = sends s + 1
    \<and> committed (rworld u) = committed (rworld s)
    \<and> relay_rows rows u = (Val (), s')"
proof -
  define error where "error = (case outcomes s (sends s) of Acked \<Rightarrow> None | NotDelivered e \<Rightarrow> Some e
    | DeliveredUnacked e \<Rightarrow> Some e)"
  define s1 where "s1 = snd (send_and_wait row s)"
  note err = error_def
  have send: "send_and_wait row s = (Val error, s1)"
    and sent: "sent s1 = sent s @ delivered (outcomes s (sends s)) row" "rworld s1 = rworld s"
      "outcomes s1 = outcomes s" "sends s1 = sends s + 1"
    by (cases "outcomes s (sends s)"; simp add: send_and_wait_def Let_def error_def s1_def)+
  from assms obtain u where
    mark: "(case error of Some e \<Rightarrow> on_world (mark_failed (o_id row) (o_attempts row + 1) e)
           | None \<Rightarrow> on_world (mark_published (o_id row))) s1 = (Val (), u)"
    and rest: "relay_rows rows u = (Val (), s')"
    by (auto simp: bind_Val_iff send)
  let ?t = "clock (rworld s) (ticks (rworld s))"
  show ?thesis
  proof (cases error)
    case None
    with err have oc: "outcomes s (sends s) = Acked" by (auto split: send_outcome.splits)
    let ?f = "\<lambda>r. r\<lparr>o_published_at := Some ?t\<rparr>"
    from mark None have "rows_of u = update_where (\<lambda>r. o_id r = o_id row) ?f (rows_of s1)"
      "sent u = sent s1" "outcomes u = outcomes s1" "sends u = sends s1"
      "committed (rworld u) = committed (rworld s1)"
      by (auto simp: on_world_def mark_published_def update_rows_def exec_simps sent)
    with sent rest oc show ?thesis
      by (intro exI [of _ ?f] exI [of _ u]) (auto simp: after_send_def)
  next
    case (Some e)
    let ?f = "\<lambda>r. r\<lparr>o_attempts := o_attempts row + 1, o_last_error := Some (take 500 e),
          o_next_attempt_at := Some (?t + seconds (backoff_seconds (o_attempts row + 1)))\<rparr>"
    from mark Some have "rows_of u = update_where (\<lambda>r. o_id r = o_id row) ?f (rows_of s1)"
      "sent u = sent s1" "outcomes u = outcomes s1" "sends u = sends s1"
      "committed (rworld u) = committed (rworld s1)"
      by (auto simp: on_world_def mark_failed_def update_rows_def exec_simps sent unless_raise_def
          split: if_splits)
    moreover have "after_send (outcomes s (sends s)) row (?f row)"
    proof (cases "outcomes s (sends s)")
      case Acked
      then show ?thesis using Some by (simp add: error_def)
    next
      case (NotDelivered x)
      then have "x = e" using Some by (simp add: error_def)
      then show ?thesis unfolding after_send_def NotDelivered send_outcome.case by blast
    next
      case (DeliveredUnacked x)
      then have "x = e" using Some by (simp add: error_def)
      then show ?thesis unfolding after_send_def DeliveredUnacked send_outcome.case by blast
    qed
    ultimately show ?thesis
      using sent rest by (intro exI [of _ ?f] exI [of _ u] conjI) simp_all
  qed
qed

text \<open>
  The outbox after a batch: the rows that were sent have changed by their own outcome, every
  other row is untouched.
\<close>

definition batch_effect :: "outbox_row list \<Rightarrow> (nat \<Rightarrow> send_outcome) \<Rightarrow> outbox_row \<Rightarrow> outbox_row \<Rightarrow> bool" where
  "batch_effect batch ocs r r' \<longleftrightarrow>
     (\<exists>i < length batch. batch ! i = r \<and> after_send (ocs i) r r') \<or> (r \<notin> set batch \<and> r' = r)"

lemma relay_rows_effect:
  assumes "relay_rows batch s = (Val (), s')"
    and "distinct (map o_id (rows_of s))" "set batch \<subseteq> set (rows_of s)" "distinct batch"
  shows "list_all2 (batch_effect batch (\<lambda>i. outcomes s (sends s + i))) (rows_of s) (rows_of s')
    \<and> sent s' = sent s @ concat (map2 (\<lambda>i r. delivered (outcomes s (sends s + i)) r) [0..<length batch] batch)
    \<and> outcomes s' = outcomes s \<and> sends s' = sends s + length batch
    \<and> committed (rworld s') = committed (rworld s)"
  using assms
proof (induction batch arbitrary: s)
  case Nil
  then show ?case
    by (auto simp: exec_simps batch_effect_def intro: list_all2_refl)
next
  case (Cons row rows)
  from relay_row_step [OF Cons.prems(1)] obtain f u where
    step: "after_send (outcomes s (sends s)) row (f row)" "\<forall>r. o_id (f r) = o_id r"
      "rows_of u = update_where (\<lambda>r. o_id r = o_id row) f (rows_of s)"
      "sent u = sent s @ delivered (outcomes s (sends s)) row"
      "outcomes u = outcomes s" "sends u = sends s + 1"
      "committed (rworld u) = committed (rworld s)"
    and rest: "relay_rows rows u = (Val (), s')" by blast
  have ids: "x = row" if "x \<in> set (rows_of s)" "o_id x = o_id row" for x
    using that Cons.prems(2,3) by (auto simp: distinct_map dest: inj_onD)
  have "map o_id (rows_of u) = map o_id (rows_of s)" using step(2) by (simp add: step(3))
  moreover have "set rows \<subseteq> set (rows_of u)"
  proof
    fix x assume x: "x \<in> set rows"
    with Cons.prems(3,4) have "x \<in> set (rows_of s)" "x \<noteq> row" by auto
    then have "o_id x \<noteq> o_id row" using ids by blast
    with \<open>x \<in> set (rows_of s)\<close> show "x \<in> set (rows_of u)"
      unfolding step(3) set_update_where by force
  qed
  ultimately have IH: "list_all2 (batch_effect rows (\<lambda>i. outcomes u (sends u + i))) (rows_of u) (rows_of s')"
    "sent s' = sent u @ concat (map2 (\<lambda>i r. delivered (outcomes u (sends u + i)) r) [0..<length rows] rows)"
    "outcomes s' = outcomes u" "sends s' = sends u + length rows" "committed (rworld s') = committed (rworld u)"
    using Cons.IH [OF rest] Cons.prems(2,4) by simp_all
  have "batch_effect (row # rows) (\<lambda>i. outcomes s (sends s + i)) (rows_of s ! k) (rows_of s' ! k)"
    if k: "k < length (rows_of s)" for k
  proof -
    let ?r = "rows_of s ! k"
    have r: "?r \<in> set (rows_of s)" using k by simp
    have eff: "batch_effect rows (\<lambda>i. outcomes s (sends s + Suc i)) (rows_of u ! k) (rows_of s' ! k)"
      using IH(1) k step(5,6) by (simp add: list_all2_conv_all_nth step(3))
    have uk: "rows_of u ! k = (if o_id ?r = o_id row then f ?r else ?r)"
      using k by (simp add: step(3) update_where_def)
    show ?thesis
    proof (cases "o_id ?r = o_id row")
      case True
      with ids r have row: "?r = row" by blast
      have "f row \<notin> set rows"
      proof
        assume "f row \<in> set rows"
        with Cons.prems(3) have "f row \<in> set (rows_of s)" by auto
        with ids step(2) have "f row = row" by blast
        with \<open>f row \<in> set rows\<close> Cons.prems(4) show False by simp
      qed
      then have "rows_of s' ! k = f row"
        using eff uk row unfolding batch_effect_def by (metis nth_mem)
      with step(1) row show ?thesis unfolding batch_effect_def by (intro disjI1 exI [of _ 0]) simp
    next
      case False
      with uk eff have eff': "batch_effect rows (\<lambda>i. outcomes s (sends s + Suc i)) ?r (rows_of s' ! k)" by simp
      from False have "?r \<noteq> row" by blast
      show ?thesis
        using eff' unfolding batch_effect_def
      proof
        assume "\<exists>i < length rows. rows ! i = ?r \<and> after_send (outcomes s (sends s + Suc i)) ?r (rows_of s' ! k)"
        then obtain i where "i < length rows" "rows ! i = ?r"
          "after_send (outcomes s (sends s + Suc i)) ?r (rows_of s' ! k)" by blast
        then show "(\<exists>i < length (row # rows). (row # rows) ! i = ?r
            \<and> after_send (outcomes s (sends s + i)) ?r (rows_of s' ! k))
          \<or> ?r \<notin> set (row # rows) \<and> rows_of s' ! k = ?r"
          by (intro disjI1 exI [of _ "Suc i"]) simp
      qed (use \<open>?r \<noteq> row\<close> in simp)
    qed
  qed
  moreover have "length (rows_of s') = length (rows_of s)"
    using list_all2_lengthD [OF IH(1)] by (simp add: step(3))
  moreover have "concat (map2 (\<lambda>i r. delivered (outcomes s (sends s + i)) r) [0..<length (row # rows)] (row # rows))
      = delivered (outcomes s (sends s)) row
        @ concat (map2 (\<lambda>i r. delivered (outcomes s (sends s + Suc i)) r) [0..<length rows] rows)"
  proof -
    have "[0..<length (row # rows)] = 0 # map Suc [0..<length rows]"
      by (simp add: upt_conv_Cons map_Suc_upt del: upt_Suc)
    then show ?thesis by (simp add: zip_map1 comp_def split_def del: upt_Suc)
  qed
  ultimately show ?case
    using IH step by (simp add: list_all2_conv_all_nth del: upt_Suc)
qed

section \<open>What a cycle does\<close>

lemma keeps_on_world [frame_rules]:
  "keeps sent (on_world m)" "keeps sends (on_world m')" "keeps outcomes (on_world m'')"
  by (auto simp: keeps_def on_world_def split: prod.splits)

lemma keeps_on_world_committed [frame_rules]:
  "no_commit m \<Longrightarrow> keeps (\<lambda>s. committed (rworld s)) (on_world m)"
  by (auto simp: keeps_def on_world_def split: prod.splits) (metis snd_conv)

lemma no_commit_marks [frame_rules]:
  "no_commit (mark_published eid)" "no_commit (mark_failed eid n e)"
  "no_commit (lock_unpublished_batch tie locked limit)"
  unfolding mark_published_def mark_failed_def lock_unpublished_batch_def
  by (auto intro!: frame_rules)

lemma send_and_wait_Val:
  "\<exists>e s1. send_and_wait row s = (Val e, s1) \<and> rworld s1 = rworld s \<and> outcomes s1 = outcomes s
     \<and> set (sent s) \<subseteq> set (sent s1) \<and> set (sent s1) \<subseteq> insert (message_of row) (set (sent s))"
  by (cases "outcomes s (sends s)") (auto simp: send_and_wait_def Let_def)

lemma relay_rows_sent:
  "set (sent s) \<subseteq> set (sent (snd (relay_rows batch s)))
   \<and> set (sent (snd (relay_rows batch s))) \<subseteq> set (sent s) \<union> message_of ` set batch
   \<and> committed (rworld (snd (relay_rows batch s))) = committed (rworld s)"
proof (induction batch arbitrary: s)
  case (Cons row rows)
  obtain e s1 where send: "send_and_wait row s = (Val e, s1)" "rworld s1 = rworld s"
    "set (sent s) \<subseteq> set (sent s1)" "set (sent s1) \<subseteq> insert (message_of row) (set (sent s))"
    using send_and_wait_Val [of row s] by blast
  let ?mark = "case e of Some e \<Rightarrow> on_world (mark_failed (o_id row) (o_attempts row + 1) e)
           | None \<Rightarrow> on_world (mark_published (o_id row))"
  obtain r u where mark: "?mark s1 = (r, u)" by force
  have "keeps sent ?mark" "keeps (\<lambda>s. committed (rworld s)) ?mark"
    by (auto intro!: frame_rules)
  then have u: "sent u = sent s1" "committed (rworld u) = committed (rworld s1)"
    using keepsD [of sent ?mark s1 r u] keepsD [of "\<lambda>s. committed (rworld s)" ?mark s1 r u] mark by blast+
  have run: "snd (relay_rows (row # rows) s) = (case r of Val _ \<Rightarrow> snd (relay_rows rows u) | _ \<Rightarrow> u)"
    using send(1) mark by (simp add: bind_def split: result.splits)
  show ?case
    using Cons.IH [of u] send u unfolding run by (cases r) auto
qed (simp add: exec_simps)

text \<open>The batch a cycle locks.\<close>

definition locked_batch :: "(outbox_row \<Rightarrow> nat) \<Rightarrow> uuid set \<Rightarrow> nat \<Rightarrow> world \<Rightarrow> outbox_row list" where
  "locked_batch tie locked limit w = take limit (sort_key o_created_at (sort_key tie
     (filter (eligible (clock w (ticks w)) locked) (outbox (db w)))))"

lemma locked_batch_in: "set (locked_batch tie locked n w) \<subseteq> set (outbox (db w))"
  unfolding locked_batch_def by (auto dest: in_set_takeD)

lemma locked_batch_eligible:
  "r \<in> set (locked_batch tie locked n w) \<Longrightarrow> eligible (clock w (ticks w)) locked r"
  unfolding locked_batch_def by (auto dest: in_set_takeD)

lemma locked_batch_distinct:
  "distinct (outbox (db w)) \<Longrightarrow> distinct (locked_batch tie locked n w)"
  unfolding locked_batch_def by (simp add: distinct_take)

lemma lock_batch_run:
  "lock_unpublished_batch tie locked n w
     = (Val (locked_batch tie locked n w), w\<lparr>ticks := ticks w + 1\<rparr>)"
  by (simp add: lock_unpublished_batch_def locked_batch_def exec_simps)

definition cycle_start :: "relay_state \<Rightarrow> relay_state" where
  "cycle_start s = s\<lparr>rworld := (start_tx (rworld s))\<lparr>ticks := ticks (start_tx (rworld s)) + 1\<rparr>\<rparr>"

definition cycle_batch :: "(outbox_row \<Rightarrow> nat) \<Rightarrow> uuid set \<Rightarrow> nat \<Rightarrow> relay_state \<Rightarrow> outbox_row list" where
  "cycle_batch tie locked n s = locked_batch tie locked n (start_tx (rworld s))"

lemma cycle_start_simps [simp]:
  "rows_of (cycle_start s) = rows_of s" "sent (cycle_start s) = sent s"
  "outcomes (cycle_start s) = outcomes s" "sends (cycle_start s) = sends s"
  "committed (rworld (cycle_start s)) = db (rworld s)"
  by (simp_all add: cycle_start_def)

lemma cycle_batch_facts:
  "set (cycle_batch tie locked n s) \<subseteq> set (rows_of s)"
  "distinct (map o_id (rows_of s)) \<Longrightarrow> distinct (cycle_batch tie locked n s)"
  "r \<in> set (cycle_batch tie locked n s) \<Longrightarrow> o_published_at r = None"
  using locked_batch_in [of tie locked n "start_tx (rworld s)"]
    locked_batch_distinct [of "start_tx (rworld s)" tie locked n]
    locked_batch_eligible [of r tie locked n "start_tx (rworld s)"]
  by (auto simp: cycle_batch_def eligible_def distinct_map)

lemma relay_once_run:
  "relay_once tie locked n s =
     relay_transaction (\<lambda>_. bind (relay_rows (cycle_batch tie locked n s))
       (\<lambda>_. ret (length (cycle_batch tie locked n s))) (cycle_start s)) s"
proof -
  let ?s = "s\<lparr>rworld := start_tx (rworld s)\<rparr>"
  have lock: "on_world (lock_unpublished_batch tie locked n) ?s = (Val (cycle_batch tie locked n s), cycle_start s)"
    by (simp add: on_world_def lock_batch_run cycle_batch_def cycle_start_def)
  have "bind (on_world (lock_unpublished_batch tie locked n)) (\<lambda>rows.
        if rows = [] then ret 0 else bind (relay_rows rows) (\<lambda>_. ret (length rows))) ?s
      = bind (relay_rows (cycle_batch tie locked n s)) (\<lambda>_. ret (length (cycle_batch tie locked n s))) (cycle_start s)"
    unfolding bind_Val [of "on_world (lock_unpublished_batch tie locked n)", OF lock]
    by (simp add: bind_simps)
  then show ?thesis by (simp add: relay_once_def relay_transaction_def)
qed

text \<open>A cycle that returns, and one that does not.\<close>

lemma relay_once_Val:
  assumes "relay_once tie locked n s = (Val k, s')" and "distinct (map o_id (rows_of s))"
  shows "k = length (cycle_batch tie locked n s)
    \<and> list_all2 (batch_effect (cycle_batch tie locked n s) (\<lambda>i. outcomes s (sends s + i))) (rows_of s) (rows_of s')
    \<and> sent s' = sent s @ concat (map2 (\<lambda>i r. delivered (outcomes s (sends s + i)) r)
        [0..<length (cycle_batch tie locked n s)] (cycle_batch tie locked n s))
    \<and> outcomes s' = outcomes s \<and> sends s' = sends s + length (cycle_batch tie locked n s)"
proof -
  from assms(1) obtain t where t: "relay_rows (cycle_batch tie locked n s) (cycle_start s) = (Val (), t)"
    and s': "s' = t\<lparr>rworld := (rworld t)\<lparr>committed := db (rworld t)\<rparr>\<rparr>"
      "k = length (cycle_batch tie locked n s)"
    unfolding relay_once_run relay_transaction_def
    by (auto simp: bind_def exec_simps split: prod.splits result.splits)
  from relay_rows_effect [OF t] assms(2) cycle_batch_facts(1) [of tie locked n s]
    cycle_batch_facts(2) [of s tie locked n] s'
  show ?thesis by simp
qed

lemma relay_once_sent:
  assumes "relay_once tie locked n s = (r, s')"
  shows "set (sent s) \<subseteq> set (sent s')
    \<and> set (sent s') \<subseteq> set (sent s) \<union> message_of ` set (rows_of s)"
proof -
  obtain q t where t: "relay_rows (cycle_batch tie locked n s) (cycle_start s) = (q, t)" by force
  have "sent s' = sent t"
    using assms t unfolding relay_once_run relay_transaction_def
    by (auto simp: bind_def exec_simps split: result.splits)
  moreover have "set (sent s) \<subseteq> set (sent t)"
      "set (sent t) \<subseteq> set (sent s) \<union> message_of ` set (cycle_batch tie locked n s)"
    using relay_rows_sent [of "cycle_start s" "cycle_batch tie locked n s"] t by simp_all
  moreover have "message_of ` set (cycle_batch tie locked n s) \<subseteq> message_of ` set (rows_of s)"
    by (rule image_mono [OF cycle_batch_facts(1)])
  ultimately show ?thesis by simp blast
qed

lemma relay_once_failed:
  assumes "relay_once tie locked n s = (r, s')" and "\<And>k. r \<noteq> Val k"
  shows "db (rworld s') = db (rworld s)"
proof -
  obtain q t where t: "relay_rows (cycle_batch tie locked n s) (cycle_start s) = (q, t)" by force
  have "committed (rworld t) = db (rworld s)"
    using relay_rows_sent [of "cycle_start s" "cycle_batch tie locked n s"] t by simp
  with assms t show ?thesis
    unfolding relay_once_run relay_transaction_def
    by (auto simp: bind_def exec_simps split: result.splits)
qed

end
