(* ===== verification/Outbox_Machine.thy ===== *)
theory Outbox_Machine
  imports Outbox_Relay
begin

text \<open>
  The outbox as a state machine: the services enqueue, the relay publishes, the cleanup
  purges, in any order, with any failures of the broker and of the cycles. The theorems are
  the delivery guarantee of the outbox pattern and its progress once the broker answers.
\<close>

section \<open>The machine\<close>

text \<open>The second component is the history of everything that was ever enqueued.\<close>

inductive outbox_step :: "relay_state \<times> broker_message list \<Rightarrow> relay_state \<times> broker_message list \<Rightarrow> bool" where
  step_enqueue: "emit cfg key ik e (rworld s) = (Val (), w') \<Longrightarrow>
     outbox_step (s, h) (s\<lparr>rworld := w'\<rparr>,
       h @ map message_of (drop (length (rows_of s)) (outbox (db w'))))"
| step_relay: "relay_once tie locked n s = (r, s') \<Longrightarrow> outbox_step (s, h) (s', h)"
| step_purge: "purge_once retention (rworld s) = (r, w') \<Longrightarrow> outbox_step (s, h) (s\<lparr>rworld := w'\<rparr>, h)"

inductive_cases outbox_stepE: "outbox_step (s, h) (s', h')"

definition outbox_init :: "relay_state \<times> broker_message list \<Rightarrow> bool" where
  "outbox_init c \<longleftrightarrow> rows_of (fst c) = [] \<and> sent (fst c) = [] \<and> snd c = []"

definition outbox_inv :: "relay_state \<times> broker_message list \<Rightarrow> bool" where
  "outbox_inv c \<longleftrightarrow> (let s = fst c; h = snd c in
     distinct (map o_id (rows_of s))
   \<and> (\<forall>r \<in> set (rows_of s). message_of r \<in> set h)
   \<and> (\<forall>r \<in> set (rows_of s). o_published_at r \<noteq> None \<longrightarrow> message_of r \<in> set (sent s))
   \<and> (\<forall>m \<in> set h. m \<in> set (sent s) \<or> (\<exists>r \<in> set (rows_of s). message_of r = m \<and> o_published_at r = None))
   \<and> set (sent s) \<subseteq> set h)"

lemma purge_once_run:
  "purge_once retention w = (r, w') \<Longrightarrow> \<exists>cutoff. outbox (db w') = filter (\<lambda>r. \<not> purgeable cutoff r) (outbox (db w))
     \<and> r = Val (length (filter (purgeable cutoff) (outbox (db w))))"
  by (auto simp: purge_once_def unit_of_work_def purge_published_def exec_simps)

text \<open>A row and its image after a batch: the message is the same, and it is marked only if sent.\<close>

lemma batch_effect_row:
  assumes "batch_effect batch ocs r r'"
  shows "o_id r' = o_id r \<and> message_of r' = message_of r
    \<and> (o_published_at r' \<noteq> None \<longrightarrow> o_published_at r \<noteq> None
        \<or> (\<exists>i < length batch. batch ! i = r \<and> delivered (ocs i) r = [message_of r]))
    \<and> (o_published_at r \<noteq> None \<longrightarrow> r \<notin> set batch \<or> o_published_at r' \<noteq> None)"
  using assms unfolding batch_effect_def
proof
  assume "\<exists>i < length batch. batch ! i = r \<and> after_send (ocs i) r r'"
  then obtain i where i: "i < length batch" "batch ! i = r" "after_send (ocs i) r r'" by blast
  then show ?thesis
    by (cases "ocs i") (auto simp: after_send_def message_of_def intro: exI [of _ i])
qed auto

lemma delivered_in_batch:
  assumes "i < length batch" "delivered (ocs i) (batch ! i) = [m]"
  shows "m \<in> set (concat (map2 (\<lambda>i r. delivered (ocs i) r) [0..<length batch] batch))"
proof -
  have "(i, batch ! i) \<in> set (zip [0..<length batch] batch)"
    using assms(1) by (auto simp: set_zip intro!: exI [of _ i])
  then show ?thesis using assms(2) by force
qed

lemma relay_once_inv:
  assumes inv: "outbox_inv (s, h)" and run: "relay_once tie locked n s = (r, s')"
  shows "outbox_inv (s', h)"
proof (cases r)
  case (Val k)
  let ?batch = "cycle_batch tie locked n s" and ?ocs = "\<lambda>i. outcomes s (sends s + i)"
  have d: "distinct (map o_id (rows_of s))" using inv by (simp add: outbox_inv_def)
  note eff = relay_once_Val [OF run [unfolded Val] d]
  then have l2: "list_all2 (batch_effect ?batch ?ocs) (rows_of s) (rows_of s')" by blast
  have fwd: "\<exists>r' \<in> set (rows_of s'). batch_effect ?batch ?ocs r r'" if "r \<in> set (rows_of s)" for r
    using l2 that by (metis in_set_conv_nth list_all2_conv_all_nth)
  have bwd: "\<exists>r \<in> set (rows_of s). batch_effect ?batch ?ocs r r'" if "r' \<in> set (rows_of s')" for r'
    using l2 that by (metis in_set_conv_nth list_all2_conv_all_nth)
  have sent': "set (sent s) \<subseteq> set (sent s')" "set (sent s') \<subseteq> set (sent s) \<union> message_of ` set (rows_of s)"
    using relay_once_sent [OF run] by blast+
  have newly: "message_of r \<in> set (sent s')"
    if "i < length ?batch" "?batch ! i = r" "delivered (?ocs i) r = [message_of r]" for i r
    using delivered_in_batch [of i ?batch ?ocs "message_of r"] that eff by simp
  have "map o_id (rows_of s') = map o_id (rows_of s)"
  proof (rule nth_equalityI)
    show "length (map o_id (rows_of s')) = length (map o_id (rows_of s))"
      using list_all2_lengthD [OF l2] by simp
    fix i assume "i < length (map o_id (rows_of s'))"
    then have i: "i < length (rows_of s)" "i < length (rows_of s')" using list_all2_lengthD [OF l2] by simp_all
    with batch_effect_row [OF list_all2_nthD [OF l2 i(1)]]
    show "map o_id (rows_of s') ! i = map o_id (rows_of s) ! i" by simp
  qed
  moreover have "message_of r' \<in> set h" if "r' \<in> set (rows_of s')" for r'
    using bwd [OF that] batch_effect_row inv by (fastforce simp: outbox_inv_def)
  moreover have "message_of r' \<in> set (sent s')" if r': "r' \<in> set (rows_of s')" "o_published_at r' \<noteq> None" for r'
  proof -
    obtain r where "r \<in> set (rows_of s)" "batch_effect ?batch ?ocs r r'" using bwd [OF r'(1)] by blast
    with batch_effect_row [OF this(2)] r'(2) newly sent'(1) inv show ?thesis
      by (auto simp: outbox_inv_def)
  qed
  moreover have "m \<in> set (sent s') \<or> (\<exists>r \<in> set (rows_of s'). message_of r = m \<and> o_published_at r = None)"
    if m: "m \<in> set h" for m
  proof -
    from inv m consider "m \<in> set (sent s)" | r where "r \<in> set (rows_of s)" "message_of r = m"
      "o_published_at r = None" by (auto simp: outbox_inv_def)
    then show ?thesis
    proof cases
      case 1
      with sent'(1) show ?thesis by blast
    next
      case (2 r)
      obtain r' where r': "r' \<in> set (rows_of s')" "batch_effect ?batch ?ocs r r'" using fwd [OF 2(1)] by blast
      from batch_effect_row [OF r'(2)] 2 newly r'(1) show ?thesis by (cases "o_published_at r'") metis+
    qed
  qed
  moreover have "set (sent s') \<subseteq> set h"
    using sent'(2) inv by (auto simp: outbox_inv_def)
  ultimately show ?thesis using d by (simp add: outbox_inv_def)
next
  case (Exc e)
  with relay_once_failed [OF run] relay_once_sent [OF run] inv show ?thesis
    by (auto simp: outbox_inv_def)
next
  case NoReturn
  with relay_once_failed [OF run] relay_once_sent [OF run] inv show ?thesis
    by (auto simp: outbox_inv_def)
qed

lemma enqueue_inv:
  assumes inv: "outbox_inv (s, h)" and run: "emit cfg key ik e (rworld s) = (Val (), w')"
  shows "outbox_inv (s\<lparr>rworld := w'\<rparr>, h @ map message_of (drop (length (rows_of s)) (outbox (db w'))))"
proof -
  from emit_Val [OF run] obtain r where r: "pending_event cfg key ik (tx_time (rworld s)) e r"
    "o_id r \<notin> o_id ` set (rows_of s)" "db w' = (db (rworld s))\<lparr>outbox := rows_of s @ [r]\<rparr>" by blast
  then have "o_published_at r = None" by (simp add: pending_event_def)
  with r(2,3) inv show ?thesis by (auto simp: outbox_inv_def)
qed

lemma purge_inv:
  assumes inv: "outbox_inv (s, h)" and run: "purge_once retention (rworld s) = (r, w')"
  shows "outbox_inv (s\<lparr>rworld := w'\<rparr>, h)"
proof -
  from purge_once_run [OF run] obtain cutoff where
    "outbox (db w') = filter (\<lambda>r. \<not> purgeable cutoff r) (rows_of s)" by blast
  with inv show ?thesis
    by (auto simp: outbox_inv_def purgeable_def distinct_map_filter split: option.splits)
qed

interpretation outbox_machine: inductive_invariant outbox_init outbox_step outbox_inv
proof unfold_locales
  fix c assume "outbox_init c"
  then show "outbox_inv c" by (simp add: outbox_init_def outbox_inv_def Let_def)
next
  fix c c' assume "outbox_inv c" and "outbox_step c c'"
  from this(2,1) show "outbox_inv c'"
    by cases (auto intro: enqueue_inv relay_once_inv purge_inv)
qed

section \<open>Progress\<close>

text \<open>The events that wait, and the situation in which they drain: the broker acknowledges.\<close>

definition waiting :: "relay_state \<Rightarrow> outbox_row list" where
  "waiting s = filter (\<lambda>r. o_published_at r = None) (rows_of s)"

definition calm :: "relay_state \<Rightarrow> bool" where
  "calm s \<longleftrightarrow> (\<forall>i \<ge> sends s. outcomes s i = Acked) \<and> distinct (map o_id (rows_of s))
     \<and> (\<forall>r \<in> set (waiting s). case o_next_attempt_at r of None \<Rightarrow> True
          | Some t \<Rightarrow> \<forall>k \<ge> ticks (rworld s). t \<le> clock (rworld s) k)"

lemma relay_rows_acked:
  assumes "\<forall>i \<ge> sends s. outcomes s i = Acked"
  shows "\<exists>s'. relay_rows batch s = (Val (), s') \<and> clock (rworld s') = clock (rworld s)
    \<and> ticks (rworld s) \<le> ticks (rworld s')"
  using assms
proof (induction batch arbitrary: s)
  case (Cons row rows)
  define s1 where "s1 = s\<lparr>sends := sends s + 1, sent := sent s @ [message_of row]\<rparr>"
  have send: "send_and_wait row s = (Val None, s1)"
    using Cons.prems by (simp add: send_and_wait_def s1_def Let_def)
  define u where "u = snd (on_world (mark_published (o_id row)) s1)"
  have mark: "on_world (mark_published (o_id row)) s1 = (Val (), u)"
    and u: "clock (rworld u) = clock (rworld s)" "ticks (rworld u) = ticks (rworld s) + 1"
      "outcomes u = outcomes s" "sends u = sends s + 1"
    by (simp_all add: u_def s1_def on_world_def mark_published_def update_rows_def exec_simps)
  have "\<forall>i \<ge> sends u. outcomes u i = Acked" using Cons.prems u by simp
  from Cons.IH [OF this] obtain s' where "relay_rows rows u = (Val (), s')"
    "clock (rworld s') = clock (rworld u)" "ticks (rworld u) \<le> ticks (rworld s')" by blast
  then show ?case using u by (simp add: bind_Val [of "send_and_wait row"] send
        bind_Val [of "on_world (mark_published (o_id row))"] mark)
qed (simp add: exec_simps)

lemma filter_list_all2:
  "list_all2 P xs ys \<Longrightarrow> (\<And>x y. P x y \<Longrightarrow> (if q x then \<not> w y else y = x)) \<Longrightarrow>
     filter w ys = filter (\<lambda>x. \<not> q x \<and> w x) xs"
proof (induction rule: list_all2_induct)
  case (Cons x xs y ys)
  from Cons(4) [OF Cons(1)] Cons(3) [OF Cons(4)] show ?case by (cases "q x") simp_all
qed simp

lemma batch_effect_acked:
  assumes "batch_effect batch ocs r r'" "\<And>i. ocs i = Acked"
  shows "if r \<in> set batch then o_published_at r' \<noteq> None else r' = r"
  using assms unfolding batch_effect_def after_send_def by (auto split: if_splits)

lemma length_filter_not_in:
  "distinct xs \<Longrightarrow> distinct ys \<Longrightarrow> set ys \<subseteq> set xs \<Longrightarrow>
     length (filter (\<lambda>x. x \<notin> set ys) xs) = length xs - length ys"
proof -
  assume d: "distinct xs" "distinct ys" "set ys \<subseteq> set xs"
  have "length (filter (\<lambda>x. x \<notin> set ys) xs) = card (set xs - set ys)"
    using distinct_card [of "filter (\<lambda>x. x \<notin> set ys) xs"] d(1) by (simp add: set_diff_eq)
  also have "\<dots> = card (set xs) - card (set ys)" using d(3) by (intro card_Diff_subset) auto
  finally show ?thesis using d by (simp add: distinct_card)
qed

lemma calm_cycle:
  assumes calm: "calm s"
  shows "\<exists>s'. relay_once tie {} n s = (Val (min (length (waiting s)) n), s') \<and> calm s'
    \<and> length (waiting s') = length (waiting s) - n"
proof -
  let ?batch = "cycle_batch tie {} n s" and ?ocs = "\<lambda>i. outcomes s (sends s + i)"
  have ok: "\<forall>i \<ge> sends s. outcomes s i = Acked" and d: "distinct (map o_id (rows_of s))"
    using calm by (simp_all add: calm_def)
  have el: "filter (eligible (clock (rworld s) (Suc (ticks (rworld s)))) {}) (rows_of s) = waiting s"
    using calm unfolding waiting_def calm_def
    by (intro filter_cong) (auto simp: eligible_def split: option.splits)
  have batch: "?batch = take n (sort_key o_created_at (sort_key tie (waiting s)))"
    unfolding cycle_batch_def locked_batch_def using el by (simp add: start_tx_def)
  have len: "length ?batch = min (length (waiting s)) n" by (simp add: batch)
  have dw: "distinct (waiting s)" using d by (auto simp: waiting_def distinct_map)
  have sub: "set ?batch \<subseteq> set (waiting s)" by (auto simp: batch dest: in_set_takeD)
  have db: "distinct ?batch" using dw by (simp add: batch distinct_take)
  obtain t where t: "relay_rows ?batch (cycle_start s) = (Val (), t)"
    "clock (rworld t) = clock (rworld s)" "ticks (rworld s) \<le> ticks (rworld t)"
    using relay_rows_acked [of "cycle_start s" ?batch] ok by (auto simp: cycle_start_def start_tx_def)
  define s' where "s' = t\<lparr>rworld := (rworld t)\<lparr>committed := db (rworld t)\<rparr>\<rparr>"
  have run: "relay_once tie {} n s = (Val (length ?batch), s')"
    unfolding relay_once_run relay_transaction_def by (simp add: bind_Val [of "relay_rows ?batch"] t(1) exec_simps s'_def)
  note eff = relay_once_Val [OF run d]
  then have l2: "list_all2 (batch_effect ?batch ?ocs) (rows_of s) (rows_of s')" by blast
  have "waiting s' = filter (\<lambda>r. r \<notin> set ?batch \<and> o_published_at r = None) (rows_of s)"
    unfolding waiting_def
  proof (rule filter_list_all2 [OF l2])
    fix r r' assume "batch_effect ?batch ?ocs r r'"
    from batch_effect_acked [OF this] ok
    show "if r \<in> set ?batch then \<not> o_published_at r' = None else r' = r" by simp
  qed
  then have w': "waiting s' = filter (\<lambda>r. r \<notin> set ?batch) (waiting s)"
    by (simp add: waiting_def conj_commute)
  have "length (waiting s') = length (waiting s) - n"
    unfolding w' using length_filter_not_in [OF dw db sub] len by simp
  moreover have "map o_id (rows_of s') = map o_id (rows_of s)"
  proof (rule nth_equalityI)
    show "length (map o_id (rows_of s')) = length (map o_id (rows_of s))"
      using list_all2_lengthD [OF l2] by simp
    fix i assume "i < length (map o_id (rows_of s'))"
    then have "i < length (rows_of s)" "i < length (rows_of s')" using list_all2_lengthD [OF l2] by simp_all
    with batch_effect_row [OF list_all2_nthD [OF l2]]
    show "map o_id (rows_of s') ! i = map o_id (rows_of s) ! i" by simp
  qed
  moreover have "clock (rworld s') = clock (rworld s)" "ticks (rworld s) \<le> ticks (rworld s')"
    using t by (simp_all add: s'_def)
  moreover have "set (waiting s') \<subseteq> set (waiting s)" using w' by auto
  moreover have "\<forall>i \<ge> sends s'. outcomes s' i = Acked" using eff ok by simp
  ultimately have "calm s'"
    using calm unfolding calm_def by (fastforce split: option.splits)
  with run len \<open>length (waiting s') = length (waiting s) - n\<close> show ?thesis by auto
qed

section \<open>A concrete run\<close>

text \<open>One deposit event enqueued in the concrete world, with a broker that acknowledges.\<close>

definition demo_event :: "string \<times> event_data" where
  "demo_event = (''wallet.transaction'', WalletTransactionData
     \<lparr>wt_transaction_id = 8, wt_user_id = 1, wt_wallet_id = 7, wt_kind = ''deposit'',
      wt_amount_minor = 1000, wt_balance_after_minor = 1000, wt_currency = ''EUR'',
      wt_ref_type = None, wt_ref_id = None\<rparr>)"

definition demo_emitted :: world where
  "demo_emitted = snd (emit default_settings ''1'' None demo_event demo_world)"

definition demo_relay :: "world \<Rightarrow> relay_state" where
  "demo_relay w = \<lparr>rworld = w, sent = [], outcomes = (\<lambda>_. Acked), sends = 0\<rparr>"

lemma demo_emit: "emit default_settings ''1'' None demo_event demo_world = (Val (), demo_emitted)"
  by (simp add: demo_emitted_def emit_def new_envelope_def enqueue_event_def demo_event_def
      EVENT_TOPIC_SUFFIXES_def exec_simps bind_def insert_into_def check_outbox_def check_row_def
      int4_def demo_defs)

lemma demo_emitted_rows:
  "length (outbox (db demo_emitted)) = 1 \<and> (\<forall>r \<in> set (outbox (db demo_emitted)).
     o_published_at r = None \<and> o_next_attempt_at r = None)"
  by (simp add: demo_emitted_def emit_def new_envelope_def enqueue_event_def demo_event_def
      EVENT_TOPIC_SUFFIXES_def exec_simps bind_def insert_into_def check_outbox_def check_row_def
      int4_def demo_defs)

lemma demo_calm: "calm (demo_relay demo_emitted)"
proof -
  obtain r where "outbox (db demo_emitted) = [r]" "o_next_attempt_at r = None"
    using demo_emitted_rows by (cases "outbox (db demo_emitted)") auto
  then show ?thesis by (simp add: calm_def waiting_def demo_relay_def)
qed

lemma demo_reach:
  "reach outbox_init outbox_step (demo_relay demo_emitted, map message_of (outbox (db demo_emitted)))"
proof -
  have "reach outbox_init outbox_step (demo_relay demo_world, [])"
    by (rule reach_init) (simp add: outbox_init_def demo_relay_def demo_defs)
  moreover have "outbox_step (demo_relay demo_world, [])
      ((demo_relay demo_world)\<lparr>rworld := demo_emitted\<rparr>,
       [] @ map message_of (drop (length (rows_of (demo_relay demo_world))) (outbox (db demo_emitted))))"
    by (rule step_enqueue) (simp add: demo_relay_def, rule demo_emit)
  ultimately show ?thesis
    using reach_step [of outbox_init outbox_step] by (simp add: demo_relay_def demo_defs)
qed

section \<open>Properties\<close>

text \<open>
  C10: at least once, nothing lost and nothing invented: however enqueues, relay cycles that
  succeed, fail or roll back, and purges interleave, every event ever enqueued has reached the
  broker or still waits unpublished in the outbox, a row marked published has reached it, and
  the broker has received nothing that was not enqueued.
\<close>

theorem outbox_at_least_once:
  assumes "reach outbox_init outbox_step (s, h)"
  shows "(\<forall>m \<in> set h. m \<in> set (sent s) \<or> (\<exists>r \<in> set (rows_of s). message_of r = m \<and> o_published_at r = None))
    \<and> (\<forall>r \<in> set (rows_of s). o_published_at r \<noteq> None \<longrightarrow> message_of r \<in> set (sent s))
    \<and> set (sent s) \<subseteq> set h"
  using outbox_machine.inv_reach [OF assms] by (simp add: outbox_inv_def)

theorem outbox_at_least_once_witness:
  "\<exists>m. map message_of (outbox (db demo_emitted)) = [m]
     \<and> (m \<in> set (sent (demo_relay demo_emitted))
        \<or> (\<exists>r \<in> set (rows_of (demo_relay demo_emitted)). message_of r = m \<and> o_published_at r = None))"
proof -
  obtain r where "outbox (db demo_emitted) = [r]"
    using demo_emitted_rows by (cases "outbox (db demo_emitted)") auto
  with outbox_at_least_once [OF demo_reach] show ?thesis by simp
qed

text \<open>
  C28: progress: once the broker acknowledges, no row is held by another relay and every back-off
  has expired, each iteration of the loop publishes a full batch, so \<open>m\<close> iterations leave
  \<open>50 * m\<close> fewer events waiting and the outbox drains.
\<close>

theorem relay_drains:
  assumes "calm s"
  shows "length (waiting (relay_loop tie m s)) = length (waiting s) - RELAY_BATCH_SIZE * m"
  using assms
proof (induction m arbitrary: s)
  case (Suc m)
  obtain s' where "relay_once tie {} RELAY_BATCH_SIZE s = (Val (min (length (waiting s)) RELAY_BATCH_SIZE), s')"
    "calm s'" "length (waiting s') = length (waiting s) - RELAY_BATCH_SIZE"
    using calm_cycle [OF Suc.prems] by blast
  with Suc.IH [of s'] show ?case by (simp add: relay_iteration_def)
qed simp

theorem relay_drains_witness:
  "length (waiting (relay_loop o_id 1 (demo_relay demo_emitted))) = 0"
proof -
  have "length (waiting (demo_relay demo_emitted)) \<le> 1"
    using demo_emitted_rows length_filter_le [of "\<lambda>r. o_published_at r = None" "outbox (db demo_emitted)"]
    by (simp add: waiting_def demo_relay_def)
  with relay_drains [OF demo_calm, of o_id 1] show ?thesis by (simp add: RELAY_BATCH_SIZE_def)
qed

text \<open>
  failures are isolated: after a cycle that returns, each row of the batch has changed by
  the outcome of its own send alone, published when acknowledged, otherwise one more attempt, the error
  and the next attempt after the back-off, and every row outside the batch is untouched.
\<close>

theorem relay_failures_isolated:
  assumes "relay_once tie locked n s = (Val k, s')" and "distinct (map o_id (rows_of s))"
  shows "k = length (cycle_batch tie locked n s)
    \<and> list_all2 (batch_effect (cycle_batch tie locked n s) (\<lambda>i. outcomes s (sends s + i))) (rows_of s) (rows_of s')"
  using relay_once_Val [OF assms] by blast

theorem relay_failures_isolated_witness:
  "list_all2 (batch_effect (cycle_batch o_id {} 50 (demo_relay demo_emitted)) (\<lambda>i. Acked))
     (rows_of (demo_relay demo_emitted)) (rows_of (snd (relay_once o_id {} 50 (demo_relay demo_emitted))))"
proof -
  obtain k s' where run: "relay_once o_id {} 50 (demo_relay demo_emitted) = (Val k, s')"
    using calm_cycle [OF demo_calm] by blast
  have "distinct (map o_id (rows_of (demo_relay demo_emitted)))"
    using demo_calm by (simp add: calm_def)
  from relay_failures_isolated [OF run this] run show ?thesis by (simp add: demo_relay_def)
qed

text \<open>
  the retry delay: with the attempt numbers the relay passes (1, 2, 3, ...) a failed event
  waits \<open>4 * 2^k\<close> seconds before its retry number \<open>k\<close> (from 0), capped at 60: 4, 8, 16, 32 and
  then 60. The first retry is not after 2 seconds, as the comment beside the constants says.
\<close>

theorem backoff_sequence:
  "backoff_seconds (int k + 1) = min (4 * 2 ^ k) 60
   \<and> map backoff_seconds [1, 2, 3, 4, 5, 6] = [4, 8, 16, 32, 60, 60]"
proof
  show "backoff_seconds (int k + 1) = min (4 * 2 ^ k) 60"
    by (simp add: backoff_seconds_def BASE_BACKOFF_SECONDS_def MAX_BACKOFF_SECONDS_def nat_add_distrib)
  show "map backoff_seconds [1, 2, 3, 4, 5, 6] = [4, 8, 16, 32, 60, 60]" by code_simp
qed

end
