(* ===== verification/Idempotency.thy ===== *)
theory Idempotency
  imports Sha256 Wallet_Service
begin

text \<open>
  \<open>app/services/idempotency.py\<close> and \<open>app/repositories/idempotency.py\<close>: the reservation of an
  \<open>Idempotency-Key\<close>, the reuse of a stored response and the three transactions of
  \<open>run_idempotent\<close>. The work is an argument, as it is in the code; the lemmas ask of it that it
  neither commits by itself nor touches the table of keys. The lemmas give the outcome of each
  transaction; the properties say what one request, and the retries after it, see.
\<close>

section \<open>The repository\<close>

definition idem_get :: "uuid \<Rightarrow> string \<Rightarrow> (world, idem_row option) exec" where
  "idem_get uid key =
     bind (select_rows idem_keys (\<lambda>r. i_user_id r = uid \<and> i_key r = key)) (\<lambda>rows.
     lift_sum (scalar_one_or_none rows))"

definition create_pending :: "uuid \<Rightarrow> string \<Rightarrow> string \<Rightarrow> time \<Rightarrow> (world, idem_row) exec" where
  "create_pending uid key h expires =
     bind uuid4 (\<lambda>rid.
     bind db_now (\<lambda>t.
     insert_into idem_keys_update check_idem
       \<lparr>i_id = rid, i_user_id = uid, i_key = key, i_request_hash = h, i_response_body = None,
        i_status = ''pending'', i_expires_at = expires, i_created_at = t\<rparr>))"

definition mark_completed :: "uuid \<Rightarrow> json \<Rightarrow> (world, unit) exec" where
  "mark_completed rid body =
     update_rows idem_keys_update (\<lambda>r. i_id r = rid)
       (\<lambda>r. r\<lparr>i_status := ''completed'', i_response_body := Some body\<rparr>)"

definition idem_delete :: "uuid \<Rightarrow> (world, unit) exec" where
  "idem_delete rid = modify (\<lambda>w. w\<lparr>db := idem_keys_update (filter (\<lambda>r. i_id r \<noteq> rid)) (db w)\<rparr>)"

section \<open>The service\<close>

definition PENDING_RECLAIM_SECONDS :: int where "PENDING_RECLAIM_SECONDS = 30"
definition IDEMPOTENCY_KEY_MAX_LENGTH :: nat where "IDEMPOTENCY_KEY_MAX_LENGTH = 200"

definition hash_request_body :: "bytes \<Rightarrow> string" where
  "hash_request_body body = hex (sha256 body)"

text \<open>A session without \<open>begin()\<close>: what the body has not committed is rolled back at the end.\<close>

definition session_scope :: "(world, 'a) exec \<Rightarrow> (world, 'a) exec" where
  "session_scope body = (\<lambda>w. case bind begin_tx (\<lambda>_. body) w of (r, w') \<Rightarrow> (r, w'\<lparr>db := committed w'\<rparr>))"

definition try_reserve :: "uuid \<Rightarrow> string \<Rightarrow> string \<Rightarrow> int \<Rightarrow> (world, uuid option) exec" where
  "try_reserve uid key h ttl_hours = (\<lambda>w.
     case unit_of_work (bind now_utc (\<lambda>now.
            bind (create_pending uid key h (now + hours ttl_hours)) (\<lambda>row. ret (i_id row)))) w of
       (Val rid, w') \<Rightarrow> (Val (Some rid), w')
     | (Exc e, w') \<Rightarrow> (if e = IntegrityError then (Val None, w') else (Exc e, w'))
     | (NoReturn, w') \<Rightarrow> (NoReturn, w'))"

text \<open>\<open>existing.response_body or {}\<close>: a missing and an empty body both read as the empty one.\<close>

fun body_or_empty :: "json option \<Rightarrow> json" where
  "body_or_empty None = JObj []"
| "body_or_empty (Some b) = b"

definition resolve_existing :: "uuid \<Rightarrow> string \<Rightarrow> string \<Rightarrow> (world, json option) exec" where
  "resolve_existing uid key h = session_scope
     (bind (idem_get uid key) (\<lambda>found.
      case found of
        None \<Rightarrow> ret None
      | Some existing \<Rightarrow>
          if i_request_hash existing \<noteq> h then throw IdempotencyKeyConflictError
          else if i_status existing = ''completed'' then ret (Some (body_or_empty (i_response_body existing)))
          else bind now_utc (\<lambda>now.
            if \<not> seconds PENDING_RECLAIM_SECONDS < now - i_created_at existing
            then throw IdempotencyInProgressError
            else bind (idem_delete (i_id existing)) (\<lambda>_.
                 bind session_commit (\<lambda>_. ret None)))))"

text \<open>The transaction of the work, and the one that frees the key when it failed.\<close>

definition complete_work :: "(world, json) exec \<Rightarrow> uuid \<Rightarrow> (world, json) exec" where
  "complete_work work rid = unit_of_work
     (bind work (\<lambda>body. bind (mark_completed rid body) (\<lambda>_. ret body)))"

definition release_key :: "uuid \<Rightarrow> (world, unit) exec" where
  "release_key rid = unit_of_work (idem_delete rid)"

definition run_reserved :: "(world, json) exec \<Rightarrow> uuid \<Rightarrow> (world, json) exec" where
  "run_reserved work rid = (\<lambda>w. case complete_work work rid w of
      (Exc e, w') \<Rightarrow> bind (release_key rid) (\<lambda>_. throw e) w'
    | r \<Rightarrow> r)"

definition run_idempotent ::
  "uuid \<Rightarrow> string \<Rightarrow> string \<Rightarrow> int \<Rightarrow> (world, json) exec \<Rightarrow> (world, json) exec" where
  "run_idempotent uid key h ttl_hours work =
     bind (try_reserve uid key h ttl_hours) (\<lambda>row_id.
     case row_id of
       Some rid \<Rightarrow> run_reserved work rid
     | None \<Rightarrow>
         bind (resolve_existing uid key h) (\<lambda>cached.
         case cached of
           Some body \<Rightarrow> ret body
         | None \<Rightarrow>
             bind (try_reserve uid key h ttl_hours) (\<lambda>row_id.
             case row_id of
               None \<Rightarrow> throw IdempotencyInProgressError
             | Some rid \<Rightarrow> run_reserved work rid)))"

section \<open>The table of keys\<close>

definition idem_ok :: "database \<Rightarrow> bool" where
  "idem_ok d \<longleftrightarrow> distinct (map i_id (idem_keys d))
     \<and> distinct (map (\<lambda>r. (i_user_id r, i_key r)) (idem_keys d))"

definition row_of :: "database \<Rightarrow> uuid \<Rightarrow> string \<Rightarrow> idem_row option" where
  "row_of d uid key = (case filter (\<lambda>r. i_user_id r = uid \<and> i_key r = key) (idem_keys d) of
     [] \<Rightarrow> None | r # _ \<Rightarrow> Some r)"

definition pending_row :: "uuid \<Rightarrow> string \<Rightarrow> string \<Rightarrow> uuid \<Rightarrow> time \<Rightarrow> time \<Rightarrow> idem_row" where
  "pending_row uid key h rid expires t =
     \<lparr>i_id = rid, i_user_id = uid, i_key = key, i_request_hash = h, i_response_body = None,
      i_status = ''pending'', i_expires_at = expires, i_created_at = t\<rparr>"

lemma key_filter_cases [consumes 1, case_names none one]:
  assumes "idem_ok d"
  obtains (none) "filter (\<lambda>r. i_user_id r = uid \<and> i_key r = key) (idem_keys d) = []" "row_of d uid key = None"
      "(uid, key) \<notin> (\<lambda>x. (i_user_id x, i_key x)) ` set (idem_keys d)"
  | (one) r where "filter (\<lambda>r. i_user_id r = uid \<and> i_key r = key) (idem_keys d) = [r]"
      "row_of d uid key = Some r" "r \<in> set (idem_keys d)" "i_user_id r = uid" "i_key r = key"
proof -
  from assms have dist: "distinct (map (\<lambda>r. (i_user_id r, i_key r)) (idem_keys d))"
    by (simp add: idem_ok_def)
  show ?thesis
    using dist
  proof (cases rule: filter_key_cases [where a = "(uid, key)"])
    case none
    then show ?thesis using that(1) by (simp add: row_of_def)
  next
    case (one r)
    then show ?thesis using that(2) [of r] by (simp add: row_of_def)
  qed
qed

lemma row_of_Some: "row_of d uid key = Some r \<Longrightarrow>
    r \<in> set (idem_keys d) \<and> i_user_id r = uid \<and> i_key r = key"
  unfolding row_of_def by (auto split: list.splits dest: filter_eq_Cons_iff [THEN iffD1])

lemma row_of_member:
  assumes "idem_ok d" "r \<in> set (idem_keys d)"
  shows "row_of d (i_user_id r) (i_key r) = Some r"
proof -
  have "filter (\<lambda>x. (i_user_id x, i_key x) = (i_user_id r, i_key r)) (idem_keys d) = [r]"
    using assms by (intro filter_key_singleton) (simp_all add: idem_ok_def)
  then show ?thesis by (simp add: row_of_def)
qed

text \<open>The new tables after a reservation, a completion and a release.\<close>

definition completed_rows :: "uuid \<Rightarrow> json \<Rightarrow> idem_row list \<Rightarrow> idem_row list" where
  "completed_rows rid body = update_where (\<lambda>r. i_id r = rid)
     (\<lambda>r. r\<lparr>i_status := ''completed'', i_response_body := Some body\<rparr>)"

lemma completed_rows_keys [simp]:
  "map i_id (completed_rows rid body rows) = map i_id rows"
  "map (\<lambda>r. (i_user_id r, i_key r)) (completed_rows rid body rows) = map (\<lambda>r. (i_user_id r, i_key r)) rows"
  by (simp_all add: completed_rows_def)

lemma idem_ok_completed: "idem_keys d' = completed_rows rid body (idem_keys d) \<Longrightarrow> idem_ok d \<Longrightarrow> idem_ok d'"
  by (simp add: idem_ok_def)

lemma idem_ok_filter: "idem_keys d' = filter p (idem_keys d) \<Longrightarrow> idem_ok d \<Longrightarrow> idem_ok d'"
  by (simp add: idem_ok_def distinct_map_filter)

section \<open>The transactions\<close>

lemma bind_insert_into:
  "bind (insert_into upd chk r) f w = (case chk (db w) r of
     Some e \<Rightarrow> (Exc e, w) | None \<Rightarrow> f r (w\<lparr>db := upd (\<lambda>rs. rs @ [r]) (db w)\<rparr>))"
  by (simp add: bind_def insert_into_def split: option.split)

text \<open>Work that may run inside: no commit of its own, the table of keys left alone.\<close>

definition plain_work :: "(world, json) exec \<Rightarrow> bool" where
  "plain_work work \<longleftrightarrow> no_commit work \<and> keeps (\<lambda>w. idem_keys (db w)) work"

lemma try_reserve_cases [consumes 1, case_names reserved refused]:
  assumes run: "try_reserve uid key h ttl w = (r, w')"
  obtains (reserved) rid expires t where "r = Val (Some rid)"
      "db w' = (db w)\<lparr>idem_keys := idem_keys (db w) @ [pending_row uid key h rid expires t]\<rparr>"
      "rid = uuid_source w (uuids_drawn w)" "rid \<notin> i_id ` set (idem_keys (db w))"
      "(uid, key) \<notin> (\<lambda>x. (i_user_id x, i_key x)) ` set (idem_keys (db w))"
  | (refused) "r = Val None" "db w' = db w"
      "uuid_source w (uuids_drawn w) \<in> i_id ` set (idem_keys (db w)) \<or> uid \<notin> u_id ` set (users (db w))
       \<or> (uid, key) \<in> (\<lambda>x. (i_user_id x, i_key x)) ` set (idem_keys (db w))"
proof -
  define rid where "rid = uuid_source w (uuids_drawn w)"
  define row where "row = pending_row uid key h rid (clock w (Suc (ticks w)) + hours ttl) (clock w (ticks w))"
  have body: "bind now_utc (\<lambda>now. bind (create_pending uid key h (now + hours ttl)) (\<lambda>row. ret (i_id row))) (start_tx w)
      = (case check_idem (db w) row of Some e \<Rightarrow> (Exc e, (start_tx w)\<lparr>ticks := ticks w + 2, uuids_drawn := uuids_drawn w + 1\<rparr>)
         | None \<Rightarrow> (Val rid, (start_tx w)\<lparr>ticks := ticks w + 2, uuids_drawn := uuids_drawn w + 1,
             db := (db w)\<lparr>idem_keys := idem_keys (db w) @ [row]\<rparr>\<rparr>))"
    by (simp add: create_pending_def exec_simps bind_assoc bind_insert_into rid_def row_def pending_row_def
        start_tx_def split: option.split)
  show ?thesis
  proof (cases "check_idem (db w) row")
    case None
    with run body have "r = Val (Some rid)" "db w' = (db w)\<lparr>idem_keys := idem_keys (db w) @ [row]\<rparr>"
      by (auto simp: try_reserve_def unit_of_work_def exec_simps)
    with None show ?thesis
      by (intro reserved) (auto simp: row_def rid_def check_idem_def pending_row_def)
  next
    case (Some e)
    then have "e = IntegrityError" by (auto simp: check_idem_def check_row_def split: if_splits)
    with Some run body have "r = Val None" "db w' = db w"
      by (auto simp: try_reserve_def unit_of_work_def exec_simps)
    with Some show ?thesis
      by (intro refused) (auto simp: row_def rid_def check_idem_def check_row_def pending_row_def split: if_splits)
  qed
qed

text \<open>The delay after which a pending row counts as abandoned has passed.\<close>

definition reclaimable :: "time \<Rightarrow> idem_row \<Rightarrow> bool" where
  "reclaimable now r \<longleftrightarrow> seconds PENDING_RECLAIM_SECONDS < now - i_created_at r"

lemma resolve_cases [consumes 2, case_names absent conflict cached busy reclaimed]:
  assumes ok: "idem_ok (db w)" and run: "resolve_existing uid key h w = (r, w')"
  obtains (absent) "row_of (db w) uid key = None" "r = Val None" "db w' = db w"
  | (conflict) row where "row_of (db w) uid key = Some row" "i_request_hash row \<noteq> h"
      "r = Exc IdempotencyKeyConflictError" "db w' = db w"
  | (cached) row where "row_of (db w) uid key = Some row" "i_request_hash row = h" "i_status row = ''completed''"
      "r = Val (Some (body_or_empty (i_response_body row)))" "db w' = db w"
  | (busy) row where "row_of (db w) uid key = Some row" "i_request_hash row = h" "i_status row \<noteq> ''completed''"
      "\<not> reclaimable (clock w (Suc (ticks w))) row" "r = Exc IdempotencyInProgressError" "db w' = db w"
  | (reclaimed) row where "row_of (db w) uid key = Some row" "i_request_hash row = h" "i_status row \<noteq> ''completed''"
      "reclaimable (clock w (Suc (ticks w))) row" "r = Val None"
      "db w' = (db w)\<lparr>idem_keys := filter (\<lambda>x. i_id x \<noteq> i_id row) (idem_keys (db w))\<rparr>"
  using ok
proof (cases rule: key_filter_cases [where uid = uid and key = key])
  case none
  with run show ?thesis
    by (intro absent) (auto simp: resolve_existing_def session_scope_def idem_get_def exec_simps bind_assoc)
next
  case (one row)
  note eval = resolve_existing_def session_scope_def idem_get_def exec_simps bind_assoc one(1)
  show ?thesis
  proof (cases "i_request_hash row = h")
    case False
    with run one show ?thesis by (intro conflict) (auto simp: eval)
  next
    case hash: True
    show ?thesis
    proof (cases "i_status row = ''completed''")
      case True
      with hash run one show ?thesis by (intro cached) (auto simp: eval)
    next
      case pending: False
      show ?thesis
      proof (cases "reclaimable (clock w (Suc (ticks w))) row")
        case False
        with pending hash run one show ?thesis
          by (intro busy) (auto simp: eval reclaimable_def start_tx_def)
      next
        case True
        with pending hash run one show ?thesis
          by (intro reclaimed) (auto simp: eval reclaimable_def start_tx_def idem_delete_def session_commit_def)
      qed
    qed
  qed
qed

lemma release_key_run:
  obtains w' where "release_key rid w = (Val (), w')"
    "db w' = (db w)\<lparr>idem_keys := filter (\<lambda>x. i_id x \<noteq> rid) (idem_keys (db w))\<rparr>"
  by (simp add: release_key_def unit_of_work_def exec_simps idem_delete_def start_tx_def)

lemma complete_work_Val:
  assumes "plain_work work" "complete_work work rid w = (Val b, w')"
  shows "\<exists>w1. work (start_tx w) = (Val b, w1) \<and> idem_keys (db w1) = idem_keys (db w)
    \<and> db w' = (db w1)\<lparr>idem_keys := completed_rows rid b (idem_keys (db w))\<rparr>"
proof -
  from assms(2) obtain w1 where w1: "work (start_tx w) = (Val b, w1)"
    "db w' = idem_keys_update (completed_rows rid b) (db w1)"
    by (auto simp: complete_work_def unit_of_work_Val bind_Val_iff mark_completed_def update_rows_def
        completed_rows_def exec_simps)
  with assms(1) have "idem_keys (db w1) = idem_keys (db w)"
    using keepsD [of "\<lambda>w. idem_keys (db w)" work "start_tx w"] by (simp add: plain_work_def)
  with w1 show ?thesis by (intro exI [of _ w1]) simp
qed

lemma no_commit_complete: "plain_work work \<Longrightarrow> no_commit (bind work (\<lambda>b. bind (mark_completed rid b) (\<lambda>_. ret b)))"
  unfolding plain_work_def mark_completed_def by (auto intro!: frame_rules)

lemma complete_work_rollback:
  assumes "plain_work work" "complete_work work rid w = (r, w')" "\<And>b. r \<noteq> Val b"
  shows "db w' = db w"
  using unit_of_work_rollback [OF no_commit_complete [OF assms(1)] assms(2) [unfolded complete_work_def] assms(3)] .

lemma complete_work_Exc:
  assumes "complete_work work rid w = (Exc e, w')"
  shows "\<exists>w1. work (start_tx w) = (Exc e, w1)"
proof -
  obtain r w1 where "work (start_tx w) = (r, w1)" by force
  with assms show ?thesis
    by (cases r) (auto simp: complete_work_def unit_of_work_def exec_simps mark_completed_def update_rows_def
        bind_Val [of work] bind_Exc [of work] bind_NoReturn [of work])
qed

text \<open>The two ways a reserved run returns to its caller.\<close>

lemma run_reserved_Val:
  assumes "plain_work work" "run_reserved work rid w = (Val b, w')"
  shows "\<exists>w1. work (start_tx w) = (Val b, w1) \<and> idem_keys (db w1) = idem_keys (db w)
    \<and> db w' = (db w1)\<lparr>idem_keys := completed_rows rid b (idem_keys (db w))\<rparr>"
proof -
  from assms(2) have "complete_work work rid w = (Val b, w')"
    by (auto simp: run_reserved_def bind_Val_iff exec_simps split: prod.splits result.splits)
  then show ?thesis by (rule complete_work_Val [OF assms(1)])
qed

lemma run_reserved_Exc:
  assumes "plain_work work" "run_reserved work rid w = (Exc e, w')"
  shows "(\<exists>w1. work (start_tx w) = (Exc e, w1))
    \<and> db w' = (db w)\<lparr>idem_keys := filter (\<lambda>x. i_id x \<noteq> rid) (idem_keys (db w))\<rparr>"
proof -
  obtain r w1 where c: "complete_work work rid w = (r, w1)" by force
  with assms(2) obtain e' where r: "r = Exc e'" by (cases r) (auto simp: run_reserved_def)
  obtain w2 where "release_key rid w1 = (Val (), w2)"
    "db w2 = (db w1)\<lparr>idem_keys := filter (\<lambda>x. i_id x \<noteq> rid) (idem_keys (db w1))\<rparr>"
    by (rule release_key_run)
  with assms(2) c r complete_work_rollback [OF assms(1) c] complete_work_Exc [OF c [unfolded r]]
  show ?thesis by (auto simp: run_reserved_def bind_def exec_simps)
qed

section \<open>One request\<close>

definition fresh_key :: "world \<Rightarrow> uuid \<Rightarrow> string \<Rightarrow> bool" where
  "fresh_key w uid key \<longleftrightarrow> uuid_source w (uuids_drawn w) \<notin> i_id ` set (idem_keys (db w))
     \<and> uid \<in> u_id ` set (users (db w)) \<and> row_of (db w) uid key = None"

text \<open>A run that returns leaves its answer in the completed row of its key.\<close>

definition answered :: "database \<Rightarrow> uuid \<Rightarrow> string \<Rightarrow> string \<Rightarrow> json \<Rightarrow> bool" where
  "answered d uid key h b \<longleftrightarrow> idem_ok d \<and> (\<exists>row. row_of d uid key = Some row \<and> i_request_hash row = h
     \<and> i_status row = ''completed'' \<and> body_or_empty (i_response_body row) = b)"

lemma idem_ok_reserve:
  assumes "idem_ok d" "idem_keys d' = idem_keys d @ [pending_row uid key h rid expires t]"
    "rid \<notin> i_id ` set (idem_keys d)" "(uid, key) \<notin> (\<lambda>x. (i_user_id x, i_key x)) ` set (idem_keys d)"
  shows "idem_ok d'"
  using assms by (simp add: idem_ok_def pending_row_def)

lemma run_reserved_answered:
  assumes plain: "plain_work work" and run: "run_reserved work rid w = (Val b, w')" and ok: "idem_ok (db w)"
    and row: "row \<in> set (idem_keys (db w))" "i_id row = rid" "i_user_id row = uid" "i_key row = key" "i_request_hash row = h"
  shows "answered (db w') uid key h b"
proof -
  obtain w1 :: world where w1: "db w' = (db w1)\<lparr>idem_keys := completed_rows rid b (idem_keys (db w))\<rparr>"
    using run_reserved_Val [OF plain run] by blast
  let ?row = "row\<lparr>i_status := ''completed'', i_response_body := Some b\<rparr>"
  have ok': "idem_ok (db w')"
    by (rule idem_ok_completed [OF _ ok]) (simp add: w1)
  have "(if i_id row = rid then ?row else row) \<in> set (completed_rows rid b (idem_keys (db w)))"
    unfolding completed_rows_def set_update_where using row(1) by (rule imageI)
  then have "?row \<in> set (idem_keys (db w'))" using row(2) w1 by simp
  from row_of_member [OF ok' this] row ok' show ?thesis by (simp add: answered_def)
qed

lemma reserved_run_answered:
  assumes plain: "plain_work work" and ok: "idem_ok (db w)"
    and res: "try_reserve uid key h ttl w = (Val (Some rid), w1)"
    and run: "run_reserved work rid w1 = (Val b, w')"
  shows "answered (db w') uid key h b"
  using res
proof (cases rule: try_reserve_cases)
  case (reserved rid' expires t)
  have ok1: "idem_ok (db w1)"
    by (rule idem_ok_reserve [OF ok]) (use reserved in simp_all)
  show ?thesis
    by (rule run_reserved_answered [OF plain run ok1, of "pending_row uid key h rid expires t"])
      (use reserved in \<open>simp_all add: pending_row_def\<close>)
qed simp

lemma run_idempotent_answered:
  assumes plain: "plain_work work" and ok: "idem_ok (db w)"
    and run: "run_idempotent uid key h ttl work w = (Val b, w')"
  shows "answered (db w') uid key h b"
proof -
  from run obtain row_id w1 where res: "try_reserve uid key h ttl w = (Val row_id, w1)"
    and rest: "(case row_id of Some rid \<Rightarrow> run_reserved work rid
       | None \<Rightarrow> bind (resolve_existing uid key h) (\<lambda>cached.
           case cached of Some body \<Rightarrow> ret body
           | None \<Rightarrow> bind (try_reserve uid key h ttl) (\<lambda>row_id.
               case row_id of None \<Rightarrow> throw IdempotencyInProgressError
               | Some rid \<Rightarrow> run_reserved work rid))) w1 = (Val b, w')"
    unfolding run_idempotent_def bind_Val_iff by blast
  show ?thesis
  proof (cases row_id)
    case (Some rid)
    with res rest show ?thesis using reserved_run_answered [OF plain ok] by simp
  next
    case None
    with res have same: "db w1 = db w" by (auto elim: try_reserve_cases)
    from None rest obtain cached w2 where resolve: "resolve_existing uid key h w1 = (Val cached, w2)"
      and cont: "(case cached of Some body \<Rightarrow> ret body
           | None \<Rightarrow> bind (try_reserve uid key h ttl) (\<lambda>row_id.
               case row_id of None \<Rightarrow> throw IdempotencyInProgressError
               | Some rid \<Rightarrow> run_reserved work rid)) w2 = (Val b, w')"
      by (auto simp: bind_Val_iff)
    have again: "answered (db w') uid key h b" if "cached = None" "idem_ok (db w2)"
      using cont that reserved_run_answered [OF plain that(2)]
      by (auto simp: bind_Val_iff option_throw_Val_iff exec_simps split: option.splits)
    have ok1: "idem_ok (db w1)" using ok same by simp
    show ?thesis
      using ok1 resolve
    proof (cases rule: resolve_cases)
      case absent
      with ok1 show ?thesis by (intro again) simp_all
    next
      case (cached row)
      with cont ok1 show ?thesis by (auto simp: exec_simps answered_def)
    next
      case (reclaimed row)
      with idem_ok_filter [of "db w2" _ "db w1"] ok1 show ?thesis by (intro again) simp_all
    qed simp_all
  qed
qed

text \<open>What a key that is in the table answers, unless its row counts as abandoned.\<close>

definition existing_answer :: "string \<Rightarrow> idem_row \<Rightarrow> json result" where
  "existing_answer h row =
     (if i_request_hash row \<noteq> h then Exc IdempotencyKeyConflictError
      else if i_status row = ''completed'' then Val (body_or_empty (i_response_body row))
      else Exc IdempotencyInProgressError)"

lemma run_idempotent_existing:
  assumes ok: "idem_ok (db w)" and row: "row_of (db w) uid key = Some row"
    and kept: "i_request_hash row \<noteq> h \<or> i_status row = ''completed'' \<or> \<not> reclaimable (clock w (ticks w + 3)) row"
  shows "\<exists>w'. run_idempotent uid key h ttl work w = (existing_answer h row, w') \<and> db w' = db w"
proof -
  obtain r w1 where res: "try_reserve uid key h ttl w = (r, w1)" by force
  have taken: "(uid, key) \<in> (\<lambda>x. (i_user_id x, i_key x)) ` set (idem_keys (db w))"
    using row_of_Some [OF row] by (auto intro!: image_eqI [of _ _ row])
  from res taken have r: "r = Val None" "db w1 = db w"
    by (cases rule: try_reserve_cases; simp)+
  have ticks: "clock w1 (Suc (ticks w1)) = clock w (ticks w + 3)"
    using res r by (auto simp: try_reserve_def unit_of_work_def create_pending_def exec_simps bind_assoc
        bind_insert_into start_tx_def eval_nat_numeral
        split: option.splits if_splits)
  obtain c w2 where resolve: "resolve_existing uid key h w1 = (c, w2)" by force
  have "idem_ok (db w1)" using ok r by simp
  then have "c = map_result Some (existing_answer h row) \<and> db w2 = db w"
    using resolve
    by (cases rule: resolve_cases) (use row r kept ticks in \<open>auto simp: existing_answer_def\<close>)
  with res r(1) resolve show ?thesis
    by (cases "existing_answer h row") (auto simp: run_idempotent_def bind_def exec_simps)
qed

section \<open>A deposit as the work\<close>

definition deposit_work :: "settings \<Rightarrow> uuid \<Rightarrow> string \<Rightarrow> int \<Rightarrow> (world, json) exec" where
  "deposit_work cfg uid key amount =
     bind (deposit cfg uid key amount) (\<lambda>v. ret (balance_view_to_dict v))"

lemma plain_deposit_work: "plain_work (deposit_work cfg uid key amount)"
  unfolding plain_work_def deposit_work_def deposit_def get_wallet_by_user_id_def
  by (auto intro!: frame_rules)

lemma demo_fresh_key: "fresh_key demo_world 1 ''k'' \<and> idem_ok (db demo_world)"
  by (simp add: fresh_key_def row_of_def idem_ok_def demo_defs)

definition demo_body :: json where
  "demo_body = JObj [(''balance_minor'', JInt 1500), (''currency'', JStr ''EUR'')]"

lemma demo_idempotent_deposit:
  "fst (run_idempotent 1 ''k'' ''h'' 24 (deposit_work default_settings 1 ''k'' 500) demo_world) = Val demo_body"
  by (simp add: run_idempotent_def try_reserve_def run_reserved_def complete_work_def unit_of_work_def
      begin_tx_def create_pending_def mark_completed_def update_rows_def deposit_work_def demo_body_def
      balance_view_to_dict_def deposit_def get_wallet_by_user_id_def wallet_credit_def ledger_append_def
      new_envelope_def enqueue_event_def EVENT_TOPIC_SUFFIXES_def validated_def valid_wallet_tx_def
      exec_simps bind_def update_returning_def insert_into_def select_rows_def Let_def check_defs
      check_row_def bigint_def int4_def LEDGER_KINDS_def demo_defs scalar_one_or_none_def
      scalar_one_def)

section \<open>Properties\<close>

text \<open>
  a key that is already in the table never runs the work: a request with another body is
  refused as a conflict, a finished one gets the stored response, one still in progress (and not
  older than 30 seconds) is refused, and in each case every table is left as it was.
\<close>

theorem existing_key_answers:
  assumes "idem_ok (db w)" and "row_of (db w) uid key = Some row"
    and "i_request_hash row \<noteq> h \<or> i_status row = ''completed'' \<or> \<not> reclaimable (clock w (ticks w + 3)) row"
  shows "\<exists>w'. run_idempotent uid key h ttl work w = (existing_answer h row, w') \<and> db w' = db w"
  by (rule run_idempotent_existing [OF assms])

definition demo_key_row :: idem_row where
  "demo_key_row = pending_row 1 ''k'' ''h'' 50 1000000 0"

theorem existing_key_answers_witness:
  "\<exists>w'. run_idempotent 1 ''k'' ''h'' 24 (deposit_work default_settings 1 ''k'' 500)
         (demo_world\<lparr>db := demo_db\<lparr>idem_keys := [demo_key_row]\<rparr>\<rparr>)
       = (Exc IdempotencyInProgressError, w') \<and> db w' = demo_db\<lparr>idem_keys := [demo_key_row]\<rparr>"
  using existing_key_answers [of "demo_world\<lparr>db := demo_db\<lparr>idem_keys := [demo_key_row]\<rparr>\<rparr>" 1 "''k''" demo_key_row "''h''" 24
      "deposit_work default_settings 1 ''k'' 500"]
  by (simp add: idem_ok_def row_of_def demo_key_row_def pending_row_def reclaimable_def demo_world_def
      seconds_def PENDING_RECLAIM_SECONDS_def existing_answer_def)

text \<open>
  retries are replayed: once a request has returned a response, every later request with
  the same key and body returns that response and changes no table, whatever work it would have
  done, and one with another body is refused as a conflict, changing no table either.
\<close>

theorem retry_replays_response:
  assumes "plain_work work" and "idem_ok (db w)"
    and "run_idempotent uid key h ttl work w = (Val b, w1)"
  shows "(\<exists>w2. run_idempotent uid key h ttl' work' w1 = (Val b, w2) \<and> db w2 = db w1)
    \<and> (h' \<noteq> h \<longrightarrow> (\<exists>w2. run_idempotent uid key h' ttl' work' w1 = (Exc IdempotencyKeyConflictError, w2) \<and> db w2 = db w1))"
proof -
  from run_idempotent_answered [OF assms] obtain row where row: "idem_ok (db w1)" "row_of (db w1) uid key = Some row"
    "i_request_hash row = h" "i_status row = ''completed''" "body_or_empty (i_response_body row) = b"
    by (auto simp: answered_def)
  from run_idempotent_existing [OF row(1,2), of h ttl' work'] run_idempotent_existing [OF row(1,2), of h' ttl' work']
  show ?thesis using row(3-5) by (auto simp: existing_answer_def)
qed

lemma demo_first_run:
  obtains w1 where "run_idempotent 1 ''k'' ''h'' 24 (deposit_work default_settings 1 ''k'' 500) demo_world = (Val demo_body, w1)"
  using demo_idempotent_deposit
  by (cases "run_idempotent 1 ''k'' ''h'' 24 (deposit_work default_settings 1 ''k'' 500) demo_world") simp

theorem retry_replays_response_witness:
  "\<exists>w1 w2. run_idempotent 1 ''k'' ''h'' 24 (deposit_work default_settings 1 ''k'' 500) demo_world = (Val demo_body, w1)
     \<and> run_idempotent 1 ''k'' ''h'' 24 (deposit_work default_settings 1 ''k'' 900) w1 = (Val demo_body, w2)
     \<and> db w2 = db w1"
proof -
  obtain w1 where run: "run_idempotent 1 ''k'' ''h'' 24 (deposit_work default_settings 1 ''k'' 500) demo_world = (Val demo_body, w1)"
    by (rule demo_first_run)
  from retry_replays_response [OF plain_deposit_work _ run] demo_fresh_key run show ?thesis by blast
qed

text \<open>
  the first request with a key runs the work exactly once, on the tables with the reserved
  key: if it returns, its effect and the completed key are committed together; if it raises, the
  exception reaches the caller and every table is as before, the key free for a retry.
\<close>

theorem first_request_runs_once:
  assumes "plain_work work" and "idem_ok (db w)" and "fresh_key w uid key"
    and "run_idempotent uid key h ttl work w = (r, w')" and "r \<noteq> NoReturn"
  shows "\<exists>w0 w1 rid expires t. work w0 = (r, w1)
    \<and> db w0 = (db w)\<lparr>idem_keys := idem_keys (db w) @ [pending_row uid key h rid expires t]\<rparr>
    \<and> db w' = (case r of
         Val b \<Rightarrow> (db w1)\<lparr>idem_keys := idem_keys (db w) @
           [(pending_row uid key h rid expires t)\<lparr>i_status := ''completed'', i_response_body := Some b\<rparr>]\<rparr>
       | _ \<Rightarrow> db w)"
proof -
  obtain q w2 where res: "try_reserve uid key h ttl w = (q, w2)" by force
  then show ?thesis
  proof (cases rule: try_reserve_cases)
    case refused
    from assms(2) have "(uid, key) \<notin> (\<lambda>x. (i_user_id x, i_key x)) ` set (idem_keys (db w))"
      by (cases rule: key_filter_cases [where uid = uid and key = key])
        (use assms(3) in \<open>simp_all add: fresh_key_def\<close>)
    with refused assms(3) show ?thesis by (simp add: fresh_key_def)
  next
    case (reserved rid expires t)
    let ?row = "pending_row uid key h rid expires t"
    from res reserved(1) assms(4) have run: "run_reserved work rid w2 = (r, w')"
      by (simp add: run_idempotent_def bind_def)
    have start: "db (start_tx w2) = (db w)\<lparr>idem_keys := idem_keys (db w) @ [?row]\<rparr>"
      using reserved by simp
    have others: "completed_rows rid b (idem_keys (db w)) = idem_keys (db w)"
        "filter (\<lambda>x. i_id x \<noteq> rid) (idem_keys (db w)) = idem_keys (db w)" for b
      using reserved(4) by (auto simp: completed_rows_def filter_id_conv intro!: update_where_none)
    show ?thesis
    proof (cases r)
      case (Val b)
      from run_reserved_Val [OF assms(1) run [unfolded Val]] obtain w1 where "work (start_tx w2) = (Val b, w1)"
        "db w' = (db w1)\<lparr>idem_keys := completed_rows rid b (idem_keys (db w2))\<rparr>" by blast
      with Val start reserved(2) others show ?thesis
        by (intro exI [of _ "start_tx w2"] exI [of _ w1] exI [of _ rid] exI [of _ expires] exI [of _ t])
          (simp add: completed_rows_def pending_row_def)
    next
      case (Exc e)
      from run_reserved_Exc [OF assms(1) run [unfolded Exc]] obtain w1 where "work (start_tx w2) = (Exc e, w1)"
        "db w' = (db w2)\<lparr>idem_keys := filter (\<lambda>x. i_id x \<noteq> rid) (idem_keys (db w2))\<rparr>" by blast
      with Exc start reserved(2) others show ?thesis
        by (intro exI [of _ "start_tx w2"] exI [of _ w1] exI [of _ rid] exI [of _ expires] exI [of _ t])
          (simp add: pending_row_def)
    qed (use assms(5) in simp)
  qed
qed

theorem first_request_runs_once_witness:
  "\<exists>w0 w1 rid. deposit_work default_settings 1 ''k'' 500 w0 = (Val demo_body, w1)
     \<and> map i_id (idem_keys (db w0)) = [rid]"
proof -
  obtain w1 where run: "run_idempotent 1 ''k'' ''h'' 24 (deposit_work default_settings 1 ''k'' 500) demo_world = (Val demo_body, w1)"
    by (rule demo_first_run)
  from first_request_runs_once [OF plain_deposit_work _ _ run] demo_fresh_key show ?thesis
    by (auto simp: demo_defs)
qed

end
