(* ===== verification/Idempotency_Machine.thy ===== *)
theory Idempotency_Machine
  imports Idempotency
begin

text \<open>
  Concurrent requests that race for idempotency keys, as a state machine: each request is at one
  point of \<open>run_idempotent\<close> and a step runs its next transaction; other traffic may do anything
  that leaves the table of keys alone, and a process may die between two transactions. The
  committed runs of the work are logged. The promise of the service is at most one run per user
  and key; it rests on no row of a request still at work being taken for abandoned, and the last
  theorem shows the double execution that happens when one is.
\<close>

section \<open>The machine\<close>

record request =
  q_user :: uuid
  q_key :: string
  q_hash :: string
  q_ttl :: int
  q_work :: "(world, json) exec"

datatype request_phase =
    Arrived | Collided | Retrying | Reserved uuid | Failed uuid exn
  | Answered json | Refused exn | Died

record idem_state =
  iworld :: world
  phase :: "nat \<Rightarrow> request_phase"
  executed :: "(uuid \<times> string \<times> json) list"

text \<open>The next transaction of \<open>run_idempotent\<close>, from the point a request is at.\<close>

fun advance :: "request \<Rightarrow> request_phase \<Rightarrow> world \<Rightarrow> request_phase \<times> world" where
  "advance q Arrived w = (case try_reserve (q_user q) (q_key q) (q_hash q) (q_ttl q) w of
      (Val (Some rid), w') \<Rightarrow> (Reserved rid, w')
    | (Val None, w') \<Rightarrow> (Collided, w')
    | (Exc e, w') \<Rightarrow> (Refused e, w')
    | (NoReturn, w') \<Rightarrow> (Died, w'))"
| "advance q Collided w = (case resolve_existing (q_user q) (q_key q) (q_hash q) w of
      (Val (Some b), w') \<Rightarrow> (Answered b, w')
    | (Val None, w') \<Rightarrow> (Retrying, w')
    | (Exc e, w') \<Rightarrow> (Refused e, w')
    | (NoReturn, w') \<Rightarrow> (Died, w'))"
| "advance q Retrying w = (case try_reserve (q_user q) (q_key q) (q_hash q) (q_ttl q) w of
      (Val (Some rid), w') \<Rightarrow> (Reserved rid, w')
    | (Val None, w') \<Rightarrow> (Refused IdempotencyInProgressError, w')
    | (Exc e, w') \<Rightarrow> (Refused e, w')
    | (NoReturn, w') \<Rightarrow> (Died, w'))"
| "advance q (Reserved rid) w = (case complete_work (q_work q) rid w of
      (Val b, w') \<Rightarrow> (Answered b, w')
    | (Exc e, w') \<Rightarrow> (Failed rid e, w')
    | (NoReturn, w') \<Rightarrow> (Died, w'))"
| "advance q (Failed rid e) w = (case release_key rid w of (_, w') \<Rightarrow> (Refused e, w'))"
| "advance q ph w = (ph, w)"

fun ran :: "request \<Rightarrow> request_phase \<Rightarrow> request_phase \<Rightarrow> (uuid \<times> string \<times> json) list" where
  "ran q (Reserved _) (Answered b) = [(q_user q, q_key q, b)]"
| "ran q _ _ = []"

definition request_step :: "(nat \<Rightarrow> request) \<Rightarrow> nat \<Rightarrow> idem_state \<Rightarrow> idem_state" where
  "request_step req i s = (case advance (req i) (phase s i) (iworld s) of
     (ph, w') \<Rightarrow> \<lparr>iworld = w', phase = (phase s)(i := ph), executed = executed s @ ran (req i) (phase s i) ph\<rparr>)"

fun held :: "request_phase \<Rightarrow> uuid option" where
  "held (Reserved rid) = Some rid"
| "held (Failed rid _) = Some rid"
| "held _ = None"

text \<open>The rows of the requests still at work are all there.\<close>

definition live_rows_kept :: "idem_state \<Rightarrow> world \<Rightarrow> bool" where
  "live_rows_kept s w \<longleftrightarrow>
     (\<forall>j rid. held (phase s j) = Some rid \<longrightarrow> rid \<in> i_id ` set (idem_keys (db w)))"

text \<open>
  With \<open>patient\<close>, \<open>resolve_existing\<close> takes no row of a request still at work for abandoned:
  every request ends within \<open>PENDING_RECLAIM_SECONDS\<close>, as the comment on the constant says.
\<close>

inductive idem_step :: "bool \<Rightarrow> (nat \<Rightarrow> request) \<Rightarrow> idem_state \<Rightarrow> idem_state \<Rightarrow> bool"
  for patient :: bool and req :: "nat \<Rightarrow> request" where
  step_request: "(patient \<and> phase s i = Collided \<Longrightarrow> live_rows_kept s (iworld (request_step req i s)))
     \<Longrightarrow> idem_step patient req s (request_step req i s)"
| step_other: "keeps (\<lambda>w. idem_keys (db w)) (m :: (world, unit) exec) \<Longrightarrow> m (iworld s) = (r, w')
     \<Longrightarrow> idem_step patient req s (s\<lparr>iworld := w'\<rparr>)"
| step_die: "idem_step patient req s (s\<lparr>phase := (phase s)(i := Died)\<rparr>)"

definition idem_init :: "idem_state \<Rightarrow> bool" where
  "idem_init s \<longleftrightarrow> idem_keys (db (iworld s)) = [] \<and> (\<forall>i. phase s i = Arrived) \<and> executed s = []"

section \<open>The invariant\<close>

definition belongs :: "request \<Rightarrow> idem_row \<Rightarrow> bool" where
  "belongs q r \<longleftrightarrow> i_user_id r = q_user q \<and> i_key r = q_key q \<and> i_request_hash r = q_hash q"

definition finished :: "json \<Rightarrow> idem_row \<Rightarrow> bool" where
  "finished b r \<longleftrightarrow> i_status r = ''completed'' \<and> i_response_body r = Some b"

definition phase_ok :: "idem_row list \<Rightarrow> request \<Rightarrow> request_phase \<Rightarrow> bool" where
  "phase_ok rows q ph \<longleftrightarrow>
     (\<forall>rid. held ph = Some rid \<longrightarrow> (\<exists>r \<in> set rows. i_id r = rid \<and> belongs q r \<and> i_status r \<noteq> ''completed''))
   \<and> (\<forall>b. ph = Answered b \<longrightarrow> (\<exists>r \<in> set rows. belongs q r \<and> finished b r))"

definition log_ok :: "idem_row list \<Rightarrow> (uuid \<times> string \<times> json) list \<Rightarrow> bool" where
  "log_ok rows ex \<longleftrightarrow> distinct (map (\<lambda>(u, k, b). (u, k)) ex)
     \<and> (\<forall>(u, k, b) \<in> set ex. \<exists>r \<in> set rows. i_user_id r = u \<and> i_key r = k \<and> finished b r)
     \<and> (\<forall>r \<in> set rows. i_status r = ''completed'' \<longrightarrow>
          (\<exists>b. finished b r \<and> (i_user_id r, i_key r, b) \<in> set ex))"

definition idem_inv :: "(nat \<Rightarrow> request) \<Rightarrow> idem_state \<Rightarrow> bool" where
  "idem_inv req s \<longleftrightarrow> (let rows = idem_keys (db (iworld s)) in
     idem_ok (db (iworld s)) \<and> (\<forall>i. phase_ok rows (req i) (phase s i))
   \<and> (\<forall>i j rid. held (phase s i) = Some rid \<and> held (phase s j) = Some rid \<longrightarrow> i = j)
   \<and> log_ok rows (executed s))"

subsection \<open>How rows may change\<close>

lemma phase_ok_mono: "phase_ok rows q ph \<Longrightarrow> set rows \<subseteq> set rows' \<Longrightarrow> phase_ok rows' q ph"
  unfolding phase_ok_def by blast

lemma phase_ok_filter:
  assumes "phase_ok rows q ph" "held ph \<noteq> Some rid" "\<forall>r \<in> set rows. i_id r = rid \<longrightarrow> i_status r \<noteq> ''completed''"
  shows "phase_ok (filter (\<lambda>r. i_id r \<noteq> rid) rows) q ph"
  using assms unfolding phase_ok_def finished_def by fastforce

lemma completed_rows_member:
  "r \<in> set rows \<Longrightarrow> i_id r \<noteq> rid \<Longrightarrow> r \<in> set (completed_rows rid b rows)"
  "r \<in> set rows \<Longrightarrow> i_id r = rid \<Longrightarrow>
     r\<lparr>i_status := ''completed'', i_response_body := Some b\<rparr> \<in> set (completed_rows rid b rows)"
  unfolding completed_rows_def set_update_where by force+

lemma phase_ok_complete:
  assumes "phase_ok rows q ph" "held ph \<noteq> Some rid" "\<forall>r \<in> set rows. i_id r = rid \<longrightarrow> i_status r \<noteq> ''completed''"
  shows "phase_ok (completed_rows rid b rows) q ph"
  using assms unfolding phase_ok_def finished_def by (metis completed_rows_member(1) option.inject)

lemma log_ok_pending: "log_ok rows ex \<Longrightarrow> log_ok (rows @ [pending_row u k h rid expires t]) ex"
  unfolding log_ok_def by (fastforce simp: pending_row_def)

lemma log_ok_filter:
  assumes "log_ok rows ex" "\<forall>r \<in> set rows. i_id r = rid \<longrightarrow> i_status r \<noteq> ''completed''"
  shows "log_ok (filter (\<lambda>r. i_id r \<noteq> rid) rows) ex"
  using assms unfolding log_ok_def finished_def by fastforce

lemma log_ok_complete:
  assumes log: "log_ok rows ex" and ok: "idem_ok d" and rows: "rows = idem_keys d"
    and row: "r \<in> set rows" "i_id r = rid" "belongs q r" "i_status r \<noteq> ''completed''"
  shows "log_ok (completed_rows rid b rows) (ex @ [(q_user q, q_key q, b)])"
proof -
  let ?r = "r\<lparr>i_status := ''completed'', i_response_body := Some b\<rparr>"
  have id_unique: "x = r" if "x \<in> set rows" "i_id x = rid" for x
    using that row ok rows by (auto simp: idem_ok_def distinct_map dest: inj_onD)
  have key_inj: "inj_on (\<lambda>r. (i_user_id r, i_key r)) (set rows)"
    using ok rows by (simp add: idem_ok_def distinct_map)
  have key_unique: "x = r" if "x \<in> set rows" "i_user_id x = q_user q" "i_key x = q_key q" for x
    using that row(1,3) inj_onD [OF key_inj, of x r] by (simp add: belongs_def)
  have new: "?r \<in> set (completed_rows rid b rows)" "i_user_id ?r = q_user q" "i_key ?r = q_key q" "finished b ?r"
    using completed_rows_member(2) [OF row(1,2)] row(3) by (simp_all add: belongs_def finished_def)
  have members: "x \<in> set (completed_rows rid b rows) \<Longrightarrow> x = ?r \<or> (x \<in> set rows \<and> i_id x \<noteq> rid)" for x
    using id_unique by (auto simp: completed_rows_def set_update_where split: if_splits)
  have fresh: "(q_user q, q_key q) \<notin> (\<lambda>(u, k, b). (u, k)) ` set ex"
    using log key_unique row(4) unfolding log_ok_def finished_def by fastforce
  show ?thesis
    unfolding log_ok_def
  proof (intro conjI ballI)
    show "distinct (map (\<lambda>(u, k, b). (u, k)) (ex @ [(q_user q, q_key q, b)]))"
      using log fresh by (simp add: log_ok_def)
    show "case e of (u, k, b') \<Rightarrow> \<exists>x \<in> set (completed_rows rid b rows). i_user_id x = u \<and> i_key x = k \<and> finished b' x"
      if "e \<in> set (ex @ [(q_user q, q_key q, b)])" for e
    proof (cases "e \<in> set ex")
      case True
      obtain u k b' where e: "e = (u, k, b')" by (cases e)
      from True log e obtain x where x: "x \<in> set rows" "i_user_id x = u" "i_key x = k" "finished b' x"
        by (fastforce simp: log_ok_def)
      moreover from x row(4) id_unique have "i_id x \<noteq> rid" by (auto simp: finished_def)
      ultimately show ?thesis using completed_rows_member(1) e by auto
    next
      case False
      with that have "e = (q_user q, q_key q, b)" by simp
      with new show ?thesis by (simp only: split_conv) (rule bexI [of _ ?r], simp_all)
    qed
    show "i_status x = ''completed'' \<longrightarrow> (\<exists>b'. finished b' x \<and> (i_user_id x, i_key x, b') \<in> set (ex @ [(q_user q, q_key q, b)]))"
      if "x \<in> set (completed_rows rid b rows)" for x
      using members [OF that] log new(2-4) by (auto simp: log_ok_def)
  qed
qed

lemma log_ok_body: "log_ok rows ex \<Longrightarrow> r \<in> set rows \<Longrightarrow> i_status r = ''completed'' \<Longrightarrow>
    finished (body_or_empty (i_response_body r)) r"
  by (force simp: log_ok_def finished_def)

text \<open>One request moves from one phase to the next, the rest of the machine stays.\<close>

lemma idem_inv_move:
  assumes inv: "idem_inv req s" and ok: "idem_ok (db w')"
    and others: "\<And>j. j \<noteq> i \<Longrightarrow> phase_ok (idem_keys (db w')) (req j) (phase s j)"
    and moved: "phase_ok (idem_keys (db w')) (req i) ph"
    and hold: "\<And>j rid. j \<noteq> i \<Longrightarrow> held ph = Some rid \<Longrightarrow> held (phase s j) \<noteq> Some rid"
    and log: "log_ok (idem_keys (db w')) ex"
  shows "idem_inv req \<lparr>iworld = w', phase = (phase s)(i := ph), executed = ex\<rparr>"
  using assms unfolding idem_inv_def Let_def by (auto split: if_splits)

lemma quiet_move:
  assumes inv: "idem_inv req s" and rows: "idem_keys (db w') = idem_keys (db (iworld s))"
    and ph: "held ph = None" "\<And>b. ph \<noteq> Answered b"
  shows "idem_inv req \<lparr>iworld = w', phase = (phase s)(i := ph), executed = executed s\<rparr>"
proof (rule idem_inv_move [OF inv])
  show "idem_ok (db w')" using inv rows by (simp add: idem_inv_def idem_ok_def Let_def)
qed (use inv rows ph in \<open>auto simp: idem_inv_def Let_def phase_ok_def\<close>)

lemma reserve_move:
  assumes inv: "idem_inv req s"
    and rows: "idem_keys (db w') = idem_keys (db (iworld s)) @ [pending_row (q_user (req i)) (q_key (req i)) (q_hash (req i)) rid expires t]"
    and fresh: "rid \<notin> i_id ` set (idem_keys (db (iworld s)))"
      "(q_user (req i), q_key (req i)) \<notin> (\<lambda>x. (i_user_id x, i_key x)) ` set (idem_keys (db (iworld s)))"
  shows "idem_inv req \<lparr>iworld = w', phase = (phase s)(i := Reserved rid), executed = executed s\<rparr>"
proof (rule idem_inv_move [OF inv])
  from inv have parts: "idem_ok (db (iworld s))" "\<And>j. phase_ok (idem_keys (db (iworld s))) (req j) (phase s j)"
    "log_ok (idem_keys (db (iworld s))) (executed s)" by (auto simp: idem_inv_def Let_def)
  show "idem_ok (db w')" by (rule idem_ok_reserve [OF parts(1) rows fresh])
  show "phase_ok (idem_keys (db w')) (req j) (phase s j)" for j
    by (rule phase_ok_mono [OF parts(2)]) (auto simp: rows)
  show "phase_ok (idem_keys (db w')) (req i) (Reserved rid)"
    by (simp add: phase_ok_def rows pending_row_def belongs_def)
  show "held (phase s j) \<noteq> Some rid'" if "held (Reserved rid) = Some rid'" for j rid'
    using parts(2) [of j] fresh(1) that by (auto simp: phase_ok_def)
  show "log_ok (idem_keys (db w')) (executed s)"
    unfolding rows by (rule log_ok_pending [OF parts(3)])
qed

text \<open>Every transaction of a request keeps the invariant.\<close>

lemma arrive_inv:
  assumes inv: "idem_inv req s" and "phase s i = Arrived \<or> phase s i = Retrying"
  shows "idem_inv req (request_step req i s)"
proof -
  obtain r w' where res: "try_reserve (q_user (req i)) (q_key (req i)) (q_hash (req i)) (q_ttl (req i)) (iworld s) = (r, w')"
    by force
  then show ?thesis
  proof (cases rule: try_reserve_cases)
    case (reserved rid expires t)
    with reserve_move [OF inv, of w' i rid expires t] res assms(2) show ?thesis
      by (auto simp: request_step_def)
  next
    case refused
    with quiet_move [OF inv, of w' Collided i] quiet_move [OF inv, of w' "Refused IdempotencyInProgressError" i] res assms(2)
    show ?thesis by (auto simp: request_step_def)
  qed
qed

lemma resolve_inv:
  assumes inv: "idem_inv req s" and ph: "phase s i = Collided"
    and kept: "live_rows_kept s (iworld (request_step req i s))"
  shows "idem_inv req (request_step req i s)"
proof -
  from inv have parts: "idem_ok (db (iworld s))" "\<And>j. phase_ok (idem_keys (db (iworld s))) (req j) (phase s j)"
    "log_ok (idem_keys (db (iworld s))) (executed s)" by (auto simp: idem_inv_def Let_def)
  obtain r w' where res: "resolve_existing (q_user (req i)) (q_key (req i)) (q_hash (req i)) (iworld s) = (r, w')"
    by force
  from parts(1) res show ?thesis
  proof (cases rule: resolve_cases)
    case absent
    with quiet_move [OF inv, of w' Retrying i] res ph show ?thesis by (simp add: request_step_def)
  next
    case (conflict row)
    with quiet_move [OF inv, of w' "Refused IdempotencyKeyConflictError" i] res ph show ?thesis by (simp add: request_step_def)
  next
    case (busy row)
    with quiet_move [OF inv, of w' "Refused IdempotencyInProgressError" i] res ph show ?thesis by (simp add: request_step_def)
  next
    case (cached row)
    note row = row_of_Some [OF cached(1)]
    have "finished (body_or_empty (i_response_body row)) row"
      by (rule log_ok_body [OF parts(3)]) (use row cached in auto)
    then have "phase_ok (idem_keys (db w')) (req i) (Answered (body_or_empty (i_response_body row)))"
      using row cached by (auto simp: phase_ok_def belongs_def)
    then have "idem_inv req \<lparr>iworld = w', phase = (phase s)(i := Answered (body_or_empty (i_response_body row))), executed = executed s\<rparr>"
      by (intro idem_inv_move [OF inv]) (use cached parts in auto)
    with cached res ph show ?thesis by (simp add: request_step_def)
  next
    case (reclaimed row)
    note row = row_of_Some [OF reclaimed(1)]
    let ?rows = "idem_keys (db (iworld s))"
    have step: "request_step req i s = \<lparr>iworld = w', phase = (phase s)(i := Retrying), executed = executed s\<rparr>"
      using reclaimed res ph by (simp add: request_step_def)
    have gone: "held (phase s j) \<noteq> Some (i_id row)" for j
    proof
      assume "held (phase s j) = Some (i_id row)"
      with kept have "i_id row \<in> i_id ` set (idem_keys (db w'))"
        unfolding step live_rows_kept_def by simp
      with reclaimed show False by auto
    qed
    have pending: "\<forall>r \<in> set ?rows. i_id r = i_id row \<longrightarrow> i_status r \<noteq> ''completed''"
      using parts(1) row reclaimed(3) by (auto simp: idem_ok_def distinct_map dest: inj_onD)
    show ?thesis
      unfolding step
    proof (rule idem_inv_move [OF inv])
      show "idem_ok (db w')"
        by (rule idem_ok_filter [OF _ parts(1)]) (use reclaimed in simp)
      show "phase_ok (idem_keys (db w')) (req j) (phase s j)" for j
        using phase_ok_filter [OF parts(2) gone pending] reclaimed by simp
      show "log_ok (idem_keys (db w')) (executed s)"
        using log_ok_filter [OF parts(3) pending] reclaimed by simp
    qed (simp_all add: phase_ok_def)
  qed
qed

lemma held_row:
  assumes "idem_inv req s" "held (phase s i) = Some rid"
  obtains r where "r \<in> set (idem_keys (db (iworld s)))" "i_id r = rid" "belongs (req i) r" "i_status r \<noteq> ''completed''"
    "\<forall>x \<in> set (idem_keys (db (iworld s))). i_id x = rid \<longrightarrow> i_status x \<noteq> ''completed''"
    "\<And>j. j \<noteq> i \<Longrightarrow> held (phase s j) \<noteq> Some rid"
proof -
  from assms obtain r where r: "r \<in> set (idem_keys (db (iworld s)))" "i_id r = rid" "belongs (req i) r" "i_status r \<noteq> ''completed''"
    unfolding idem_inv_def Let_def phase_ok_def by blast
  from assms(1) have "inj_on i_id (set (idem_keys (db (iworld s))))"
    by (simp add: idem_inv_def Let_def idem_ok_def distinct_map)
  with r have "\<forall>x \<in> set (idem_keys (db (iworld s))). i_id x = rid \<longrightarrow> i_status x \<noteq> ''completed''"
    by (auto dest: inj_onD)
  moreover from assms have "\<And>j. j \<noteq> i \<Longrightarrow> held (phase s j) \<noteq> Some rid"
    unfolding idem_inv_def Let_def by blast
  ultimately show ?thesis using that r by blast
qed

lemma work_inv:
  assumes inv: "idem_inv req s" and ph: "phase s i = Reserved rid" and plain: "plain_work (q_work (req i))"
  shows "idem_inv req (request_step req i s)"
proof -
  let ?rows = "idem_keys (db (iworld s))"
  from inv have parts: "idem_ok (db (iworld s))" "\<And>j. phase_ok ?rows (req j) (phase s j)" "log_ok ?rows (executed s)"
    by (auto simp: idem_inv_def Let_def)
  obtain r where r: "r \<in> set ?rows" "i_id r = rid" "belongs (req i) r" "i_status r \<noteq> ''completed''"
    "\<forall>x \<in> set ?rows. i_id x = rid \<longrightarrow> i_status x \<noteq> ''completed''" "\<And>j. j \<noteq> i \<Longrightarrow> held (phase s j) \<noteq> Some rid"
    using held_row [OF inv, of i rid] ph by auto
  obtain c w' where run: "complete_work (q_work (req i)) rid (iworld s) = (c, w')" by force
  show ?thesis
  proof (cases c)
    case (Val b)
    from complete_work_Val [OF plain run [unfolded Val]] have rows: "idem_keys (db w') = completed_rows rid b ?rows"
      by auto
    have "idem_inv req \<lparr>iworld = w', phase = (phase s)(i := Answered b),
        executed = executed s @ [(q_user (req i), q_key (req i), b)]\<rparr>"
    proof (rule idem_inv_move [OF inv])
      show "idem_ok (db w')" by (rule idem_ok_completed [OF rows parts(1)])
      show "phase_ok (idem_keys (db w')) (req j) (phase s j)" if "j \<noteq> i" for j
        unfolding rows by (rule phase_ok_complete [OF parts(2) r(6) [OF that] r(5)])
      show "phase_ok (idem_keys (db w')) (req i) (Answered b)"
        unfolding rows phase_ok_def
        by (intro conjI allI impI bexI [OF _ completed_rows_member(2) [OF r(1,2), of b]])
          (use r(3) in \<open>simp_all add: belongs_def finished_def\<close>)
      show "log_ok (idem_keys (db w')) (executed s @ [(q_user (req i), q_key (req i), b)])"
        unfolding rows by (rule log_ok_complete [OF parts(3,1) refl r(1-4)])
    qed simp
    with Val run ph show ?thesis by (simp add: request_step_def)
  next
    case (Exc e)
    have rows: "db w' = db (iworld s)" by (rule complete_work_rollback [OF plain run]) (simp add: Exc)
    have "idem_inv req \<lparr>iworld = w', phase = (phase s)(i := Failed rid e), executed = executed s\<rparr>"
    proof (rule idem_inv_move [OF inv])
      show "phase_ok (idem_keys (db w')) (req i) (Failed rid e)"
        using parts(2) [of i] ph by (simp add: phase_ok_def rows)
    qed (use rows parts r(6) in auto)
    with Exc run ph show ?thesis by (simp add: request_step_def)
  next
    case NoReturn
    have rows: "db w' = db (iworld s)" by (rule complete_work_rollback [OF plain run]) (simp add: NoReturn)
    with quiet_move [OF inv, of w' Died i] NoReturn run ph show ?thesis by (simp add: request_step_def)
  qed
qed

lemma release_inv:
  assumes inv: "idem_inv req s" and ph: "phase s i = Failed rid e"
  shows "idem_inv req (request_step req i s)"
proof -
  let ?rows = "idem_keys (db (iworld s))"
  from inv have parts: "idem_ok (db (iworld s))" "\<And>j. phase_ok ?rows (req j) (phase s j)" "log_ok ?rows (executed s)"
    by (auto simp: idem_inv_def Let_def)
  obtain r where r: "\<forall>x \<in> set ?rows. i_id x = rid \<longrightarrow> i_status x \<noteq> ''completed''"
    "\<And>j. j \<noteq> i \<Longrightarrow> held (phase s j) \<noteq> Some rid"
    using held_row [OF inv, of i rid] ph by auto
  obtain w' where run: "release_key rid (iworld s) = (Val (), w')"
    "db w' = (db (iworld s))\<lparr>idem_keys := filter (\<lambda>x. i_id x \<noteq> rid) ?rows\<rparr>" by (rule release_key_run)
  then have rows: "idem_keys (db w') = filter (\<lambda>x. i_id x \<noteq> rid) ?rows" by simp
  have "idem_inv req \<lparr>iworld = w', phase = (phase s)(i := Refused e), executed = executed s\<rparr>"
  proof (rule idem_inv_move [OF inv])
    show "idem_ok (db w')" by (rule idem_ok_filter [OF rows parts(1)])
    show "phase_ok (idem_keys (db w')) (req j) (phase s j)" if "j \<noteq> i" for j
      unfolding rows by (rule phase_ok_filter [OF parts(2) r(2) [OF that] r(1)])
    show "log_ok (idem_keys (db w')) (executed s)"
      unfolding rows by (rule log_ok_filter [OF parts(3) r(1)])
  qed (simp_all add: phase_ok_def)
  with run(1) ph show ?thesis by (simp add: request_step_def)
qed

lemma idem_step_inv:
  assumes plain: "\<And>i. plain_work (q_work (req i))" and inv: "idem_inv req s" and step: "idem_step True req s s'"
  shows "idem_inv req s'"
  using step
proof cases
  case (step_request i)
  show ?thesis
  proof (cases "phase s i")
    case Arrived
    with arrive_inv [OF inv] step_request show ?thesis by simp
  next
    case Collided
    with resolve_inv [OF inv Collided] step_request show ?thesis by simp
  next
    case Retrying
    with arrive_inv [OF inv] step_request show ?thesis by simp
  next
    case (Reserved rid)
    with work_inv [OF inv Reserved plain] step_request show ?thesis by simp
  next
    case (Failed rid e)
    with release_inv [OF inv Failed] step_request show ?thesis by simp
  qed (use inv step_request in \<open>cases s; simp add: request_step_def fun_upd_idem\<close>)+
next
  case (step_other m r w')
  then have "idem_keys (db w') = idem_keys (db (iworld s))"
    using keepsD [of "\<lambda>w. idem_keys (db w)" m "iworld s"] by simp
  with inv step_other show ?thesis by (simp add: idem_inv_def idem_ok_def Let_def)
next
  case (step_die i)
  with quiet_move [OF inv refl, of Died i] show ?thesis by (cases s) simp
qed

text \<open>The machine of plain requests meets the contract of an inductive invariant.\<close>

definition plain_requests :: "(nat \<Rightarrow> request) \<Rightarrow> bool" where
  "plain_requests req \<longleftrightarrow> (\<forall>i. plain_work (q_work (req i)))"

definition patient_step :: "(nat \<Rightarrow> request) \<Rightarrow> idem_state \<Rightarrow> idem_state \<Rightarrow> bool" where
  "patient_step req s t \<longleftrightarrow> plain_requests req \<and> idem_step True req s t"

interpretation idem_machine: inductive_invariant idem_init "patient_step req" "idem_inv req" for req
proof
  show "idem_inv req s" if "idem_init s" for s
    using that by (simp add: idem_init_def idem_inv_def idem_ok_def phase_ok_def log_ok_def Let_def)
  show "idem_inv req t" if "idem_inv req s" "patient_step req s t" for s t
    using that idem_step_inv [of req s t] by (auto simp: patient_step_def plain_requests_def)
qed

lemma reach_patient:
  "reach idem_init (idem_step True req) s \<Longrightarrow> plain_requests req \<Longrightarrow> reach idem_init (patient_step req) s"
  by (induction rule: reach.induct) (auto intro: reach.intros simp: patient_step_def)

section \<open>Concrete runs\<close>

text \<open>Every request deposits 500 under the same key; a schedule says whose transaction is next.\<close>

definition demo_request :: request where
  "demo_request = \<lparr>q_user = 1, q_key = ''k'', q_hash = ''h'', q_ttl = 24,
     q_work = deposit_work default_settings 1 ''k'' 500\<rparr>"

definition demo_start :: "(nat \<Rightarrow> time) \<Rightarrow> idem_state" where
  "demo_start c = \<lparr>iworld = demo_world\<lparr>clock := c\<rparr>, phase = (\<lambda>_. Arrived), executed = []\<rparr>"

fun run_schedule :: "(nat \<Rightarrow> request) \<Rightarrow> nat list \<Rightarrow> idem_state \<Rightarrow> idem_state" where
  "run_schedule req [] s = s"
| "run_schedule req (i # is) s = run_schedule req is (request_step req i s)"

lemma demo_init: "idem_init (demo_start c)"
  by (simp add: idem_init_def demo_start_def demo_defs)

lemma reach_schedule:
  "reach idem_init (idem_step False req) s \<Longrightarrow> reach idem_init (idem_step False req) (run_schedule req is s)"
  by (induction "is" arbitrary: s) (auto intro: reach_step step_request)

lemma plain_demo: "plain_requests (\<lambda>_. demo_request)"
  by (simp add: plain_requests_def demo_request_def plain_deposit_work)

lemmas run_defs = request_step_def try_reserve_def resolve_existing_def session_scope_def idem_get_def
  complete_work_def unit_of_work_def idem_delete_def session_commit_def
  begin_tx_def create_pending_def mark_completed_def update_rows_def deposit_work_def
  balance_view_to_dict_def deposit_def get_wallet_by_user_id_def wallet_credit_def ledger_append_def
  new_envelope_def enqueue_event_def EVENT_TOPIC_SUFFIXES_def validated_def valid_wallet_tx_def
  exec_simps bind_def update_returning_def insert_into_def select_rows_def Let_def check_defs
  check_row_def bigint_def int4_def LEDGER_KINDS_def demo_defs scalar_one_or_none_def scalar_one_def
  demo_request_def demo_start_def seconds_def PENDING_RECLAIM_SECONDS_def

lemma demo_double:
  "executed (run_schedule (\<lambda>_. demo_request) [0, 1, 1, 1, 0, 1] (demo_start (\<lambda>n. 60000000 * int n)))
   = [(1, ''k'', JObj [(''balance_minor'', JInt 1500), (''currency'', JStr ''EUR'')]),
      (1, ''k'', JObj [(''balance_minor'', JInt 2000), (''currency'', JStr ''EUR'')])]"
  by (simp add: run_defs)

lemma reach_request:
  assumes "reach idem_init (idem_step True req) s" "phase s i \<noteq> Collided \<or> (\<forall>j. held (phase s j) = None)"
  shows "reach idem_init (idem_step True req) (request_step req i s)"
  using assms by (auto intro!: reach_step [OF assms(1)] step_request simp: live_rows_kept_def)

definition demo_finish :: idem_state where
  "demo_finish = run_schedule (\<lambda>_. demo_request) [0, 1, 0, 1] (demo_start (clock demo_world))"

lemma demo_phases:
  "phase (run_schedule (\<lambda>_. demo_request) [0] (demo_start (clock demo_world))) 1 = Arrived"
  "\<exists>rid. phase (run_schedule (\<lambda>_. demo_request) [0, 1] (demo_start (clock demo_world))) 0 = Reserved rid"
  "phase (run_schedule (\<lambda>_. demo_request) [0, 1, 0] (demo_start (clock demo_world)))
     = (\<lambda>_. Arrived)(0 := Answered demo_body, 1 := Collided)"
  "phase demo_finish 1 = Answered demo_body"
  by (simp_all add: run_defs demo_finish_def demo_body_def fun_upd_twist)

lemma demo_finish_reach: "reach idem_init (idem_step True (\<lambda>_. demo_request)) demo_finish"
proof -
  let ?req = "\<lambda>_. demo_request"
  let ?s0 = "demo_start (clock demo_world)"
  have "reach idem_init (idem_step True ?req) ?s0" by (rule reach_init) (rule demo_init)
  then have "reach idem_init (idem_step True ?req) (request_step ?req 0 ?s0)"
    by (rule reach_request) (simp add: demo_start_def)
  then have "reach idem_init (idem_step True ?req) (request_step ?req 1 (request_step ?req 0 ?s0))"
    by (rule reach_request) (use demo_phases(1) in simp)
  then have "reach idem_init (idem_step True ?req) (request_step ?req 0 (request_step ?req 1 (request_step ?req 0 ?s0)))"
    by (rule reach_request) (use demo_phases(2) in auto)
  then have "reach idem_init (idem_step True ?req) (request_step ?req 1 (request_step ?req 0 (request_step ?req 1 (request_step ?req 0 ?s0))))"
    by (rule reach_request) (use demo_phases(3) in simp)
  then show ?thesis by (simp add: demo_finish_def)
qed

section \<open>Properties\<close>

text \<open>
  C11: at most once: whatever requests race, retry, fail or die, as long as no row of a request
  still at work is taken for abandoned, the work of a user's key has been committed at most
  once, every response given belongs to that one run, and two requests with the same key that
  were answered got the same response and had the same body.
\<close>

theorem work_runs_at_most_once:
  assumes "plain_requests req" and "reach idem_init (idem_step True req) s"
  shows "distinct (map (\<lambda>(u, k, b). (u, k)) (executed s))
    \<and> (\<forall>i b. phase s i = Answered b \<longrightarrow> (q_user (req i), q_key (req i), b) \<in> set (executed s))
    \<and> (\<forall>i j b b'. phase s i = Answered b \<and> phase s j = Answered b'
         \<and> q_user (req i) = q_user (req j) \<and> q_key (req i) = q_key (req j)
       \<longrightarrow> b = b' \<and> q_hash (req i) = q_hash (req j))"
proof -
  let ?rows = "idem_keys (db (iworld s))"
  have inv: "idem_ok (db (iworld s))" "\<And>i. phase_ok ?rows (req i) (phase s i)" "log_ok ?rows (executed s)"
    using idem_machine.inv_reach [OF reach_patient [OF assms(2,1)]] by (auto simp: idem_inv_def Let_def)
  have answered: "phase s i = Answered b \<Longrightarrow> \<exists>r \<in> set ?rows. belongs (req i) r \<and> finished b r" for i b
    using inv(2) [of i] by (simp add: phase_ok_def)
  have logged: "(q_user (req i), q_key (req i), b) \<in> set (executed s)" if given: "phase s i = Answered b" for i b
  proof -
    obtain r where "r \<in> set ?rows" "belongs (req i) r" "finished b r" using answered [OF given] by blast
    with inv(3) show ?thesis by (force simp: log_ok_def belongs_def finished_def)
  qed
  have same: "b = b' \<and> q_hash (req i) = q_hash (req j)"
    if given: "phase s i = Answered b" "phase s j = Answered b'" "q_user (req i) = q_user (req j)" "q_key (req i) = q_key (req j)"
    for i j b b'
  proof -
    obtain r r' where rs: "r \<in> set ?rows" "belongs (req i) r" "finished b r"
      "r' \<in> set ?rows" "belongs (req j) r'" "finished b' r'" using answered [OF given(1)] answered [OF given(2)] by blast
    then have "row_of (db (iworld s)) (q_user (req i)) (q_key (req i)) = Some r"
      "row_of (db (iworld s)) (q_user (req j)) (q_key (req j)) = Some r'"
      using row_of_member [OF inv(1), of r] row_of_member [OF inv(1), of r'] by (auto simp: belongs_def)
    with given(3,4) have "r = r'" by simp
    with rs show ?thesis by (auto simp: belongs_def finished_def)
  qed
  show ?thesis using inv(3) logged same by (auto simp: log_ok_def)
qed

theorem work_runs_at_most_once_witness:
  "phase demo_finish 1 = Answered demo_body \<and> (1, ''k'', demo_body) \<in> set (executed demo_finish)"
proof -
  have "(q_user demo_request, q_key demo_request, demo_body) \<in> set (executed demo_finish)"
    using work_runs_at_most_once [OF plain_demo demo_finish_reach] demo_phases(4) by blast
  with demo_phases(4) show ?thesis by (simp add: demo_request_def)
qed

text \<open>
  C24: where a request outlives \<open>PENDING_RECLAIM_SECONDS\<close>, at most once is lost: a retry takes the
  row of the request that is still at work for abandoned and runs the work again; the first one
  then completes a row that is gone, unnoticed. Two requests with one key deposit twice, and
  both are answered.
\<close>

theorem live_reclaim_runs_twice:
  "\<exists>s. reach idem_init (idem_step False (\<lambda>_. demo_request)) s
     \<and> executed s = [(1, ''k'', JObj [(''balance_minor'', JInt 1500), (''currency'', JStr ''EUR'')]),
         (1, ''k'', JObj [(''balance_minor'', JInt 2000), (''currency'', JStr ''EUR'')])]"
  using reach_schedule [OF reach_init [of idem_init, OF demo_init]] demo_double by blast

end
