(* ===== verification/Cursor.thy ===== *)
theory Cursor
  imports Config Demo_World
begin

text \<open>
  \<open>app/api/pagination.py\<close>: the opaque cursor of a page, the instant and the identifier of its
  last item as base64 text, with the parts of the standard library it uses: \<open>isoformat\<close> of an
  instant in UTC, \<open>str\<close> of a UUID, the URL-safe base64 coder and its lenient decoder, and UTF-8.
  The readers \<open>datetime.fromisoformat\<close> and \<open>uuid.UUID\<close> accept more texts than their printers
  write; what they make of the others is a parameter, and the round trip does not depend on it.
\<close>

section \<open>Fixed-width numerals\<close>

definition fix_digits :: "nat \<Rightarrow> (nat \<Rightarrow> char) \<Rightarrow> nat \<Rightarrow> nat \<Rightarrow> string" where
  "fix_digits B ch k n = map (\<lambda>i. ch (n div B ^ i mod B)) (rev [0..<k])"

definition read_digits :: "nat \<Rightarrow> (char \<Rightarrow> nat) \<Rightarrow> string \<Rightarrow> nat" where
  "read_digits B val s = foldl (\<lambda>n c. B * n + val c) 0 s"

lemma length_fix_digits [simp]: "length (fix_digits B ch k n) = k"
  by (simp add: fix_digits_def)

lemma fix_digits_Suc: "fix_digits B ch (Suc k) n = ch (n div B ^ k mod B) # fix_digits B ch k n"
  by (simp add: fix_digits_def)

lemma fix_digits_add: "fix_digits B ch (j + k) n = fix_digits B ch j (n div B ^ k) @ fix_digits B ch k n"
  by (induction j) (simp_all add: fix_digits_Suc fix_digits_def power_add div_mult2_eq [symmetric] mult.commute)

lemma foldl_fix_digits:
  assumes "0 < B" and "\<And>d. d < B \<Longrightarrow> val (ch d) = d"
  shows "foldl (\<lambda>n c. B * n + val c) a (fix_digits B ch k n) = a * B ^ k + n mod B ^ k"
proof (induction k arbitrary: a)
  case (Suc k)
  have "n mod B ^ Suc k = (n div B ^ k mod B) * B ^ k + n mod B ^ k"
    using mod_mult2_eq [of n "B ^ k" B] by (simp add: mult.commute)
  with Suc assms show ?case by (simp add: fix_digits_Suc algebra_simps)
qed (simp add: fix_digits_def)

definition dec_fix :: "nat \<Rightarrow> nat \<Rightarrow> string" where "dec_fix = fix_digits 10 digit_char"
definition dec_read :: "string \<Rightarrow> nat" where "dec_read = read_digits 10 digit_val"

lemma dec_read_fix [simp]: "n < 10 ^ k \<Longrightarrow> dec_read (dec_fix k n) = n"
  using foldl_fix_digits [of 10 digit_val digit_char 0 k n]
  by (simp add: dec_read_def dec_fix_def read_digits_def)

lemma length_dec_fix [simp]: "length (dec_fix k n) = k"
  by (simp add: dec_fix_def)

lemma dec_fix_char: "c \<in> set (dec_fix k n) \<Longrightarrow> \<exists>d < 10. c = digit_char d"
proof -
  assume "c \<in> set (dec_fix k n)"
  then obtain i where "c = digit_char (n div 10 ^ i mod 10)" by (auto simp: dec_fix_def fix_digits_def)
  then show ?thesis by (intro exI [of _ "n div 10 ^ i mod 10"]) simp
qed

section \<open>Calendar\<close>

text \<open>
  Day numbers count from 1 January of year 1. \<open>year_day\<close> finds the year and the day in it from
  the cycles of 400, 100, 4 and 1 years, \<open>month_day\<close> the month and the day in it from the
  lengths of the months.
\<close>

definition EPOCH_DAY :: int where "EPOCH_DAY = 719162"
definition MAX_DAY :: int where "MAX_DAY = 3652059"

definition leap :: "nat \<Rightarrow> bool" where
  "leap y \<longleftrightarrow> y mod 4 = 0 \<and> (y mod 100 \<noteq> 0 \<or> y mod 400 = 0)"

definition month_lengths :: "nat \<Rightarrow> nat list" where
  "month_lengths y = [31, if leap y then 29 else 28, 31, 30, 31, 30, 31, 31, 30, 31, 30, 31]"

definition days_before_year :: "nat \<Rightarrow> nat" where
  "days_before_year y = (y - 1) * 365 + (y - 1) div 4 - (y - 1) div 100 + (y - 1) div 400"

definition year_day :: "nat \<Rightarrow> nat \<times> nat" where
  "year_day n = (let a = n div 146097; r = n mod 146097; b = min 3 (r div 36524); r = r - b * 36524;
     c = r div 1461; r = r mod 1461; d = min 3 (r div 365)
   in (400 * a + 100 * b + 4 * c + d + 1, r - d * 365))"

fun month_day :: "nat list \<Rightarrow> nat \<Rightarrow> nat \<times> nat" where
  "month_day (l # m # ls) n = (if n < l then (0, n) else (case month_day (m # ls) (n - l) of (k, d) \<Rightarrow> (Suc k, d)))"
| "month_day _ n = (0, n)"

definition ymd_day :: "nat \<Rightarrow> nat \<Rightarrow> nat \<Rightarrow> nat" where
  "ymd_day y m d = days_before_year y + sum_list (take m (month_lengths y)) + d"

lemma year_day_bounds:
  assumes "year_day n = (y, k)"
  shows "days_before_year y + k = n \<and> k \<le> 365 \<and> (n < nat MAX_DAY \<longrightarrow> y < 10000)"
proof -
  define a where "a = n div 146097"
  define r where "r = n mod 146097"
  define b where "b = min 3 (r div 36524)"
  define s where "s = r - b * 36524"
  define c where "c = s div 1461"
  define t where "t = s mod 1461"
  define d where "d = min 3 (t div 365)"
  have n: "n = 146097 * a + r" "r < 146097" by (simp_all add: a_def r_def)
  have r: "r = b * 36524 + s" "s \<le> 36524" "b \<le> 3"
    unfolding s_def b_def using n(2) by (auto simp: min_def)
  have s: "s = 1461 * c + t" "t < 1461" "c \<le> 24"
    using r(2) by (simp_all add: c_def t_def)
  have d: "d \<le> 3" "d * 365 \<le> t" "t - d * 365 \<le> 365"
    unfolding d_def using s(2) by (auto simp: min_def)
  have y: "y = 400 * a + 100 * b + 4 * c + d + 1" "k = t - d * 365"
    using assms unfolding year_day_def Let_def
    by (simp_all add: a_def b_def c_def d_def s_def t_def r_def)
  have "(y - 1) div 4 = 100 * a + 25 * b + c" "(y - 1) div 100 = 4 * a + b" "(y - 1) div 400 = a"
    using y r(3) s(3) d(1) by (simp_all)
  then have "days_before_year y = 146097 * a + 36524 * b + 1461 * c + 365 * d"
    using y by (simp add: days_before_year_def)
  then show ?thesis using n r s d y by (auto simp: MAX_DAY_def)
qed

lemma month_day_sum: "month_day ls n = (m, d) \<Longrightarrow> ls \<noteq> [] \<Longrightarrow>
    sum_list (take m ls) + d = n \<and> m < length ls \<and> (n \<le> sum_list ls \<longrightarrow> d \<le> Max (set ls))"
proof (induction ls n arbitrary: m d rule: month_day.induct)
  case (1 l m' ls n)
  show ?case
  proof (cases "n < l")
    case True
    with "1.prems" have "d \<le> l" by simp
    moreover have "l \<le> Max (set (l # m' # ls))" by simp
    ultimately show ?thesis using True "1.prems" by auto
  next
    case False
    obtain k d' where rest: "month_day (m' # ls) (n - l) = (k, d')" by force
    from "1.IH" [OF False rest] have ih: "sum_list (take k (m' # ls)) + d' = n - l" "k < length (m' # ls)"
      "n - l \<le> sum_list (m' # ls) \<longrightarrow> d' \<le> Max (set (m' # ls))" by auto
    from False rest "1.prems" have "m = Suc k" "d = d'" by auto
    moreover have "Max (set (m' # ls)) \<le> Max (set (l # m' # ls))" by (intro Max_mono) auto
    ultimately show ?thesis using ih False by auto
  qed
qed auto

section \<open>\<open>isoformat\<close>\<close>

definition isoformat :: "time \<Rightarrow> string" where
  "isoformat t = (let us = nat (t mod 1000000); secs = t div 1000000; sod = nat (secs mod 86400);
       (y, k) = year_day (nat (secs div 86400 + EPOCH_DAY)); (m, d) = month_day (month_lengths y) k
     in dec_fix 4 y @ ''-'' @ dec_fix 2 (m + 1) @ ''-'' @ dec_fix 2 (d + 1) @ ''T''
        @ dec_fix 2 (sod div 3600) @ '':'' @ dec_fix 2 (sod div 60 mod 60) @ '':'' @ dec_fix 2 (sod mod 60)
        @ (if us = 0 then [] else ''.'' @ dec_fix 6 us) @ ''+00:00'')"

text \<open>The instants a \<open>datetime\<close> can hold: the years 1 to 9999.\<close>

definition valid_instant :: "time \<Rightarrow> bool" where
  "valid_instant t \<longleftrightarrow> 0 \<le> t div 86400000000 + EPOCH_DAY \<and> t div 86400000000 + EPOCH_DAY < MAX_DAY"

definition field :: "nat \<Rightarrow> nat \<Rightarrow> string \<Rightarrow> nat" where
  "field i k s = dec_read (take k (drop i s))"

text \<open>The instant whose fields stand at the places where \<open>isoformat\<close> writes them.\<close>

definition read_fields :: "string \<Rightarrow> time" where
  "read_fields s =
     (int (ymd_day (field 0 4 s) (field 5 2 s - 1) (field 8 2 s - 1)) - EPOCH_DAY) * 86400000000
     + int (field 11 2 s * 3600 + field 14 2 s * 60 + field 17 2 s) * 1000000
     + (if take 1 (drop 19 s) = ''.'' then int (field 20 6 s) else 0)"

lemma read_fields_isoformat:
  assumes "valid_instant t"
  shows "read_fields (isoformat t) = t"
proof -
  define us where "us = nat (t mod 1000000)"
  define secs where "secs = t div 1000000"
  define sod where "sod = nat (secs mod 86400)"
  define n where "n = nat (secs div 86400 + EPOCH_DAY)"
  obtain y k where yk: "year_day n = (y, k)" by force
  obtain m d where md: "month_day (month_lengths y) k = (m, d)" by force
  have day: "secs div 86400 = t div 86400000000" by (simp add: secs_def zdiv_zmult2_eq [symmetric])
  have n: "int n = secs div 86400 + EPOCH_DAY" "n < nat MAX_DAY"
    using assms day by (auto simp: n_def valid_instant_def)
  from year_day_bounds [OF yk] n(2) have y: "days_before_year y + k = n" "k \<le> 365" "y < 10000" by auto
  have lens: "month_lengths y \<noteq> []" "365 \<le> sum_list (month_lengths y)" "Max (set (month_lengths y)) = 31"
    "length (month_lengths y) = 12" by (auto simp: month_lengths_def)
  from month_day_sum [OF md lens(1)] y(2) lens have m: "sum_list (take m (month_lengths y)) + d = k" "m < 12" "d \<le> 31" by auto
  have bounds: "us < 1000000" "sod < 86400" by (auto simp: us_def sod_def nat_less_iff)
  have iso: "isoformat t = dec_fix 4 y @ ''-'' @ dec_fix 2 (m + 1) @ ''-'' @ dec_fix 2 (d + 1) @ ''T''
        @ dec_fix 2 (sod div 3600) @ '':'' @ dec_fix 2 (sod div 60 mod 60) @ '':'' @ dec_fix 2 (sod mod 60)
        @ (if us = 0 then [] else ''.'' @ dec_fix 6 us) @ ''+00:00''"
    using yk md by (simp add: isoformat_def Let_def us_def secs_def sod_def n_def)
  have sod: "sod div 3600 * 3600 + sod div 60 mod 60 * 60 + sod mod 60 = sod"
  proof -
    have "sod div 3600 = sod div 60 div 60" by (simp add: div_mult2_eq [symmetric])
    then show ?thesis using div_mult_mod_eq [of "sod div 60" 60] div_mult_mod_eq [of sod 60] by linarith
  qed
  have "read_fields (isoformat t) = (int n - EPOCH_DAY) * 86400000000 + int sod * 1000000 + int us"
    using y m bounds sod unfolding iso read_fields_def field_def
    by (simp add: ymd_day_def)
  also have "\<dots> = (secs div 86400 * 86400 + secs mod 86400) * 1000000 + t mod 1000000"
    by (simp add: n(1) sod_def us_def) (use div_mult_mod_eq [of secs 86400] in linarith)
  also have "\<dots> = t" by (simp only: div_mult_mod_eq secs_def)
  finally show ?thesis .
qed

text \<open>
  \<open>datetime.fromisoformat\<close> on what \<open>isoformat\<close> writes; \<open>other\<close> is what it makes of other texts.
\<close>

definition fromisoformat :: "(string \<Rightarrow> time option) \<Rightarrow> string \<Rightarrow> time option" where
  "fromisoformat other s = (let t = read_fields s in
     if valid_instant t \<and> isoformat t = s then Some t else other s)"

lemma fromisoformat_roundtrip: "valid_instant t \<Longrightarrow> fromisoformat other (isoformat t) = Some t"
  by (simp add: fromisoformat_def read_fields_isoformat)

section \<open>UUIDs\<close>

definition hex_read :: "string \<Rightarrow> nat" where "hex_read = read_digits 16 hex_val"

definition parse_uuid :: "(string \<Rightarrow> uuid option) \<Rightarrow> string \<Rightarrow> uuid option" where
  "parse_uuid other s = (let u = hex_read (filter (\<lambda>c. c \<noteq> CHR ''-'') s) in
     if u < 2 ^ 128 \<and> uuid_str u = s then Some u else other s)"

lemma hex_digits_fix: "hex_digits k (int n) = fix_digits 16 hex_digit k n"
proof -
  have "nat (int n div 16 ^ i mod 16) = n div 16 ^ i mod 16" for i
    using nat_int [of "n div 16 ^ i mod 16"] by (simp add: zdiv_int zmod_int)
  then show ?thesis by (simp add: hex_digits_def fix_digits_def)
qed

lemma hex_digit_neq [simp]: "d < 16 \<Longrightarrow> hex_digit d \<noteq> CHR ''-''" "d < 16 \<Longrightarrow> hex_digit d \<noteq> CHR ''|''"
  using less_sixteen_cases [of d] less_ten_cases [of d] by (auto simp: hex_digit_def)

lemma fix_hex_char: "c \<in> set (fix_digits 16 hex_digit k n) \<Longrightarrow> c \<noteq> CHR ''-'' \<and> c \<noteq> CHR ''|''"
  by (auto simp: fix_digits_def)

lemma filter_fix_hex [simp]: "filter (\<lambda>c. c \<noteq> CHR ''-'') (fix_digits 16 hex_digit k n) = fix_digits 16 hex_digit k n"
  using fix_hex_char by (auto simp: filter_id_conv)

lemma uuid_str_fix: "uuid_str u = fix_digits 16 hex_digit 8 (u div 16 ^ 24) @ ''-'' @ fix_digits 16 hex_digit 4 (u div 16 ^ 20)
    @ ''-'' @ fix_digits 16 hex_digit 4 (u div 16 ^ 16) @ ''-'' @ fix_digits 16 hex_digit 4 (u div 16 ^ 12)
    @ ''-'' @ fix_digits 16 hex_digit 12 u"
proof -
  have div: "int u div 16 ^ k = int (u div 16 ^ k)" for k by (simp add: zdiv_int)
  show ?thesis unfolding uuid_str_def Let_def div hex_digits_fix ..
qed

lemma uuid_digits: "filter (\<lambda>c. c \<noteq> CHR ''-'') (uuid_str u) = fix_digits 16 hex_digit 32 u"
proof -
  have split: "fix_digits 16 hex_digit 32 u = fix_digits 16 hex_digit 8 (u div 16 ^ 24) @ fix_digits 16 hex_digit 24 u"
    "fix_digits 16 hex_digit 24 u = fix_digits 16 hex_digit 4 (u div 16 ^ 20) @ fix_digits 16 hex_digit 20 u"
    "fix_digits 16 hex_digit 20 u = fix_digits 16 hex_digit 4 (u div 16 ^ 16) @ fix_digits 16 hex_digit 16 u"
    "fix_digits 16 hex_digit 16 u = fix_digits 16 hex_digit 4 (u div 16 ^ 12) @ fix_digits 16 hex_digit 12 u"
    using fix_digits_add [of 16 hex_digit 8 24 u] fix_digits_add [of 16 hex_digit 4 20 u]
      fix_digits_add [of 16 hex_digit 4 16 u] fix_digits_add [of 16 hex_digit 4 12 u] by simp_all
  show ?thesis unfolding split uuid_str_fix by simp
qed

lemma parse_uuid_roundtrip: "u < 2 ^ 128 \<Longrightarrow> parse_uuid other (uuid_str u) = Some u"
  using foldl_fix_digits [of 16 hex_val hex_digit 0 32 u]
  by (simp add: parse_uuid_def uuid_digits hex_read_def read_digits_def)

section \<open>Base64\<close>

text \<open>
  \<open>base64.urlsafe_b64decode\<close>: it takes both alphabets, skips characters of neither, stops at a
  complete padding and raises \<open>binascii.Error\<close>, a \<open>ValueError\<close>, when a group is incomplete.
  The state is the place in the group, the bits left over and the pads seen.
\<close>

definition b64_val :: "char \<Rightarrow> int option" where
  "b64_val c = (let n = of_char c :: int in
     if 65 \<le> n \<and> n \<le> 90 then Some (n - 65)
     else if 97 \<le> n \<and> n \<le> 122 then Some (n - 71)
     else if 48 \<le> n \<and> n \<le> 57 then Some (n + 4)
     else if c = CHR ''-'' \<or> c = CHR ''+'' then Some 62
     else if c = CHR ''_'' \<or> c = CHR ''/'' then Some 63
     else None)"

fun a2b :: "nat \<Rightarrow> int \<Rightarrow> nat \<Rightarrow> string \<Rightarrow> bytes option" where
  "a2b q l p [] = (if q = 0 then Some [] else None)"
| "a2b q l p (c # cs) =
     (if c = CHR ''='' then
        if 2 \<le> q \<and> 4 \<le> q + Suc p then Some [] else a2b q l (if 2 \<le> q then Suc p else p) cs
      else case b64_val c of
        None \<Rightarrow> a2b q l p cs
      | Some v \<Rightarrow>
          if q = 0 then a2b 1 v 0 cs
          else if q = 1 then map_option (Cons (of_int (l * 4 + v div 16))) (a2b 2 (v mod 16) 0 cs)
          else if q = 2 then map_option (Cons (of_int (l * 16 + v div 4))) (a2b 3 (v mod 4) 0 cs)
          else map_option (Cons (of_int (l * 64 + v))) (a2b 0 0 0 cs))"

definition urlsafe_b64decode :: "string \<Rightarrow> bytes option" where
  "urlsafe_b64decode s = a2b 0 0 0 s"

lemma b64_val_chars: "\<forall>d \<in> set [0..63]. b64_val (b64_char d) = Some d \<and> b64_char d \<noteq> CHR ''=''"
  by code_simp

lemma b64_val_char [simp]:
  assumes "0 \<le> d" "d < 64"
  shows "b64_val (b64_char d) = Some d" "b64_char d \<noteq> CHR ''=''"
  using b64_val_chars assms by auto

lemma byte_bounds: "0 \<le> uint (b :: byte) \<and> uint b < 256"
  using uint_bounded [of b] by simp

text \<open>The decoder on the digits of a group, and the digits of a group of bytes.\<close>

lemma a2b_digits:
  "0 \<le> d1 \<Longrightarrow> d1 < 64 \<Longrightarrow> 0 \<le> d2 \<Longrightarrow> d2 < 64 \<Longrightarrow> d1 * 4 + d2 div 16 = uint a \<Longrightarrow>
     a2b 0 0 0 (b64_char d1 # b64_char d2 # s) = map_option (Cons a) (a2b 2 (d2 mod 16) 0 s)"
  "0 \<le> d3 \<Longrightarrow> d3 < 64 \<Longrightarrow> l * 16 + d3 div 4 = uint b \<Longrightarrow>
     a2b 2 l 0 (b64_char d3 # s) = map_option (Cons b) (a2b 3 (d3 mod 4) 0 s)"
  "0 \<le> d4 \<Longrightarrow> d4 < 64 \<Longrightarrow> l * 64 + d4 = uint c \<Longrightarrow>
     a2b 3 l 0 (b64_char d4 # s) = map_option (Cons c) (a2b 0 0 0 s)"
  by (simp_all del: of_int_add of_int_mult of_int_numeral)

lemma byte_split:
  assumes "0 < k" "k * m = 256"
  obtains x y where "uint (b :: byte) = x * k + y" "0 \<le> x" "x < m" "0 \<le> y" "y < k"
proof
  show "uint b = uint b div k * k + uint b mod k" by simp
  show "0 \<le> uint b div k" using assms byte_bounds [of b] by (simp add: pos_imp_zdiv_nonneg_iff)
  show "uint b div k < m"
  proof -
    have "uint b div k * k + uint b mod k = uint b" "0 \<le> uint b mod k" using assms by simp_all
    moreover have "m * k = 256" using assms(2) by (simp add: mult.commute)
    ultimately have "uint b div k * k < m * k" using byte_bounds [of b] by linarith
    then show ?thesis using assms(1) by (simp add: mult_less_cancel_right)
  qed
qed (use assms in simp_all)

lemma divmod_split:
  fixes q r k :: int
  assumes "0 \<le> r" "r < k"
  shows "(q * k + r) div k = q" "(q * k + r) mod k = r"
  using assms by (simp_all add: div_pos_pos_trivial)

lemma b64_roundtrip: "a2b 0 0 0 (b64url bs) = Some bs"
proof (induction bs rule: b64url.induct)
  case (2 a)
  obtain x y where a: "uint a = x * 4 + y" "0 \<le> x" "x < 64" "0 \<le> y" "y < 4"
    by (rule byte_split [of 4 64 a]) simp_all
  have n: "uint a * 16 = x * 64 + y * 16" using a by simp
  have digits: "uint a * 16 div 64 = x" "uint a * 16 mod 64 = y * 16"
    unfolding n using a divmod_split [of "y * 16" 64 x] by simp_all
  have "a2b 0 0 0 (b64_char x # b64_char (y * 16) # ''=='') = Some [a]"
    by (subst a2b_digits(1) [of x "y * 16" a]) (use a in simp_all)
  then show ?case by (simp add: Let_def digits)
next
  case (3 a b)
  obtain x y where a: "uint a = x * 4 + y" "0 \<le> x" "x < 64" "0 \<le> y" "y < 4"
    by (rule byte_split [of 4 64 a]) simp_all
  obtain u v where b: "uint b = u * 16 + v" "0 \<le> u" "u < 16" "0 \<le> v" "v < 16"
    by (rule byte_split [of 16 16 b]) simp_all
  let ?n = "(uint a * 256 + uint b) * 4"
  have n: "?n = x * 4096 + ((y * 16 + u) * 64 + v * 4)" "?n = (x * 64 + (y * 16 + u)) * 64 + v * 4" using a b by simp_all
  have "?n div 4096 = x" unfolding n(1) by (rule divmod_split(1)) (use a b in simp_all)
  moreover have "?n div 64 = x * 64 + (y * 16 + u)" unfolding n(2) by (rule divmod_split(1)) (use b in simp_all)
  then have "?n div 64 mod 64 = y * 16 + u" using divmod_split(2) [of "y * 16 + u" 64 x] a b by simp
  moreover have "?n mod 64 = v * 4" unfolding n(2) by (rule divmod_split(2)) (use b in simp_all)
  ultimately have enc: "b64url [a, b] = [b64_char x, b64_char (y * 16 + u), b64_char (v * 4), CHR ''='']"
    by (simp only: b64url.simps Let_def)
  have "a2b 0 0 0 (b64_char x # b64_char (y * 16 + u) # s) = map_option (Cons a) (a2b 2 u 0 s)" for s
    by (subst a2b_digits(1) [of x "y * 16 + u" a]) (use a b in simp_all)
  moreover have "a2b 2 u 0 (b64_char (v * 4) # s) = map_option (Cons b) (a2b 3 0 0 s)" for s
    by (subst a2b_digits(2) [of "v * 4" u b]) (use b in simp_all)
  moreover have "a2b 3 0 0 ''='' = Some []" by simp
  ultimately show ?case unfolding enc by (simp del: a2b.simps(2))
next
  case (4 a b c r)
  obtain x y where a: "uint a = x * 4 + y" "0 \<le> x" "x < 64" "0 \<le> y" "y < 4"
    by (rule byte_split [of 4 64 a]) simp_all
  obtain u v where b: "uint b = u * 16 + v" "0 \<le> u" "u < 16" "0 \<le> v" "v < 16"
    by (rule byte_split [of 16 16 b]) simp_all
  obtain s t where c: "uint c = s * 64 + t" "0 \<le> s" "s < 4" "0 \<le> t" "t < 64"
    by (rule byte_split [of 64 4 c]) simp_all
  let ?n = "(uint a * 256 + uint b) * 256 + uint c"
  have n: "?n = x * 262144 + ((y * 16 + u) * 4096 + (v * 4 + s) * 64 + t)"
    "?n = (x * 64 + (y * 16 + u)) * 4096 + ((v * 4 + s) * 64 + t)"
    "?n = (x * 4096 + (y * 16 + u) * 64 + (v * 4 + s)) * 64 + t" using a b c by simp_all
  have "?n div 262144 = x" unfolding n(1) by (rule divmod_split(1)) (use a b c in simp_all)
  moreover have "?n div 4096 = x * 64 + (y * 16 + u)" unfolding n(2) by (rule divmod_split(1)) (use b c in simp_all)
  then have "?n div 4096 mod 64 = y * 16 + u" using divmod_split(2) [of "y * 16 + u" 64 x] a b by simp
  moreover have "?n div 64 = (x * 64 + (y * 16 + u)) * 64 + (v * 4 + s)"
    unfolding n(3) using divmod_split(1) [of t 64 "x * 4096 + (y * 16 + u) * 64 + (v * 4 + s)"] c by simp
  then have "?n div 64 mod 64 = v * 4 + s"
    using divmod_split(2) [of "v * 4 + s" 64 "x * 64 + (y * 16 + u)"] b c by simp
  moreover have "?n mod 64 = t" unfolding n(3) by (rule divmod_split(2)) (use c in simp_all)
  ultimately have enc: "b64url (a # b # c # r)
      = [b64_char x, b64_char (y * 16 + u), b64_char (v * 4 + s), b64_char t] @ b64url r"
    by (simp only: b64url.simps Let_def)
  have "a2b 0 0 0 (b64_char x # b64_char (y * 16 + u) # q) = map_option (Cons a) (a2b 2 u 0 q)" for q
    by (subst a2b_digits(1) [of x "y * 16 + u" a]) (use a b in simp_all)
  moreover have "a2b 2 u 0 (b64_char (v * 4 + s) # q) = map_option (Cons b) (a2b 3 s 0 q)" for q
    by (subst a2b_digits(2) [of "v * 4 + s" u b]) (use b c in simp_all)
  moreover have "a2b 3 s 0 (b64_char t # q) = map_option (Cons c) (a2b 0 0 0 q)" for q
    by (rule a2b_digits(3)) (use c in simp_all)
  ultimately show ?case using 4 unfolding enc by (simp del: a2b.simps(2))
qed simp

section \<open>UTF-8\<close>

text \<open>\<open>bytes.decode()\<close> refuses bytes that are not UTF-8; a string is the bytes of its encoding.\<close>

fun utf8_tail :: "nat \<Rightarrow> nat \<Rightarrow> nat \<Rightarrow> nat list \<Rightarrow> bool" where
  "utf8_tail 0 lo hi [] = True"
| "utf8_tail (Suc k) lo hi [] = False"
| "utf8_tail (Suc k) lo hi (b # bs) = (lo \<le> b \<and> b \<le> hi \<and> utf8_tail k 128 191 bs)"
| "utf8_tail 0 lo hi (a # bs) =
     (if a < 128 then utf8_tail 0 lo hi bs
      else if 194 \<le> a \<and> a \<le> 223 then utf8_tail 1 128 191 bs
      else if a = 224 then utf8_tail 2 160 191 bs
      else if a = 237 then utf8_tail 2 128 159 bs
      else if 225 \<le> a \<and> a \<le> 239 then utf8_tail 2 128 191 bs
      else if a = 240 then utf8_tail 3 144 191 bs
      else if 241 \<le> a \<and> a \<le> 243 then utf8_tail 3 128 191 bs
      else if a = 244 then utf8_tail 3 128 143 bs
      else False)"

definition utf8_decode :: "bytes \<Rightarrow> string option" where
  "utf8_decode bs = (if utf8_tail 0 0 0 (map unat bs) then Some (map (\<lambda>b. char_of (unat b)) bs) else None)"

lemma utf8_tail_ascii: "\<forall>a \<in> set as. a < 128 \<Longrightarrow> utf8_tail 0 lo hi as"
  by (induction "as") auto

definition ascii :: "string \<Rightarrow> bool" where
  "ascii s \<longleftrightarrow> (\<forall>c \<in> set s. of_char c < (128::nat))"

lemma utf8_decode_ascii: "ascii s \<Longrightarrow> utf8_decode (utf8 s) = Some s"
proof -
  assume s: "ascii s"
  have byte: "unat (of_char c :: byte) = of_char c" for c :: char
    by (simp add: unat_of_char)
  have "map unat (utf8 s) = map of_char s" using byte by (simp add: utf8_def)
  moreover have "map (\<lambda>b. char_of (unat b)) (utf8 s) = s"
    using byte by (simp add: utf8_def map_idI)
  ultimately show ?thesis using s utf8_tail_ascii [of "map of_char s"] by (simp add: utf8_decode_def ascii_def)
qed

section \<open>The cursor\<close>

definition encode_cursor :: "time \<Rightarrow> uuid \<Rightarrow> string" where
  "encode_cursor created_at item_id = b64url (utf8 (isoformat created_at @ ''|'' @ uuid_str item_id))"

definition decode_cursor ::
  "(string \<Rightarrow> time option) \<Rightarrow> (string \<Rightarrow> uuid option) \<Rightarrow> string \<Rightarrow> exn + (time \<times> uuid)" where
  "decode_cursor other_iso other_uuid cursor =
     (case urlsafe_b64decode cursor of
        None \<Rightarrow> Inl InvalidCursorError
      | Some bs \<Rightarrow> (case utf8_decode bs of
          None \<Rightarrow> Inl InvalidCursorError
        | Some raw \<Rightarrow> (case split_on CHR ''|'' raw of
            [created_at_str, id_str] \<Rightarrow>
              (case fromisoformat other_iso created_at_str of
                 None \<Rightarrow> Inl InvalidCursorError
               | Some created_at \<Rightarrow> (case parse_uuid other_uuid id_str of
                   None \<Rightarrow> Inl InvalidCursorError
                 | Some item_id \<Rightarrow> Inr (created_at, item_id)))
          | _ \<Rightarrow> Inl InvalidCursorError)))"

lemma digit_char_ascii: "d < 10 \<Longrightarrow> of_char (digit_char d) < (128::nat) \<and> digit_char d \<noteq> CHR ''|''"
  using less_ten_cases [of d] by (auto simp: digit_char_def)

lemma hex_digit_ascii: "d < 16 \<Longrightarrow> of_char (hex_digit d) < (128::nat)"
  using less_sixteen_cases [of d] less_ten_cases [of d] by (auto simp: hex_digit_def)

lemma dec_fix_plain: "ascii (dec_fix k n)" "CHR ''|'' \<notin> set (dec_fix k n)"
  using dec_fix_char digit_char_ascii unfolding ascii_def by metis+

lemma fix_hex_plain: "ascii (fix_digits 16 hex_digit k n)" "CHR ''|'' \<notin> set (fix_digits 16 hex_digit k n)"
  using fix_hex_char hex_digit_ascii by (auto simp: ascii_def fix_digits_def)

lemma ascii_append [simp]: "ascii (s @ t) \<longleftrightarrow> ascii s \<and> ascii t" "ascii [] "
  "ascii (c # s) \<longleftrightarrow> of_char c < (128::nat) \<and> ascii s"
  by (auto simp: ascii_def)

lemma isoformat_plain: "ascii (isoformat t)" "CHR ''|'' \<notin> set (isoformat t)"
  by (simp_all add: isoformat_def Let_def dec_fix_plain split: prod.split)

lemma uuid_str_plain: "ascii (uuid_str u)" "CHR ''|'' \<notin> set (uuid_str u)"
  by (simp_all add: uuid_str_fix fix_hex_plain)

lemma decode_encode_cursor:
  assumes "valid_instant t" "u < 2 ^ 128"
  shows "decode_cursor other_iso other_uuid (encode_cursor t u) = Inr (t, u)"
proof -
  have "utf8_decode (utf8 (isoformat t @ ''|'' @ uuid_str u)) = Some (isoformat t @ ''|'' @ uuid_str u)"
    by (rule utf8_decode_ascii) (simp add: isoformat_plain uuid_str_plain)
  moreover have "split_on CHR ''|'' (isoformat t @ ''|'' @ uuid_str u) = [isoformat t, uuid_str u]"
    using split_on_append [OF isoformat_plain(2), of t "uuid_str u"] by (simp add: split_on_plain uuid_str_plain)
  ultimately show ?thesis
    by (simp add: decode_cursor_def encode_cursor_def urlsafe_b64decode_def b64_roundtrip
        fromisoformat_roundtrip [OF assms(1)] parse_uuid_roundtrip [OF assms(2)])
qed

lemma decode_cursor_error: "decode_cursor other_iso other_uuid c = Inl e \<Longrightarrow> e = InvalidCursorError"
  by (auto simp: decode_cursor_def split: option.splits list.splits)

text \<open>
  C27: a cursor reads back as the instant and the identifier it was made of, for every instant
  a \<open>datetime\<close> can hold and every UUID, whatever else the readers accept, and the only exception
  a text can cause is \<open>InvalidCursorError\<close>.
\<close>

theorem cursor_roundtrip:
  assumes "valid_instant t" and "u < 2 ^ 128"
  shows "decode_cursor other_iso other_uuid (encode_cursor t u) = Inr (t, u)
    \<and> (decode_cursor other_iso other_uuid c = Inl e \<longrightarrow> e = InvalidCursorError)"
  using decode_encode_cursor [OF assms] decode_cursor_error by blast

theorem cursor_roundtrip_witness:
  "decode_cursor (\<lambda>_. None) (\<lambda>_. None) (encode_cursor 1700000000000001 7) = Inr (1700000000000001, 7)"
  using cursor_roundtrip [of 1700000000000001 7] by (simp add: valid_instant_def EPOCH_DAY_def MAX_DAY_def)

end
