(* ===== verification/Keyset.thy ===== *)
theory Keyset
  imports Cursor Wallet_Service Round_Store "HOL-Library.Product_Lexorder"
begin

text \<open>
  Keyset pagination: the two history queries of \<open>app/repositories/ledger.py\<close> and
  \<open>app/repositories/rounds.py\<close>, newest first by instant and identifier and from after a cursor.
  The contract \<open>keyset\<close> is what makes the pages of such a query chain up; it is discharged for
  both tables, whose identifiers are primary keys.
\<close>

section \<open>The queries\<close>

definition before :: "(time \<times> uuid) option \<Rightarrow> time \<times> uuid \<Rightarrow> bool" where
  "before cursor k \<longleftrightarrow> (case cursor of
     None \<Rightarrow> True
   | Some (created_at, item_id) \<Rightarrow> fst k < created_at \<or> fst k = created_at \<and> snd k < item_id)"

definition keyset_query :: "('r \<Rightarrow> time \<times> uuid) \<Rightarrow> (time \<times> uuid) option \<Rightarrow> nat \<Rightarrow> 'r list \<Rightarrow> 'r list" where
  "keyset_query key cursor limit rows =
     take limit (rev (sort_key key (filter (\<lambda>r. before cursor (key r)) rows)))"

definition entry_key :: "ledger_row \<Rightarrow> time \<times> uuid" where
  "entry_key e = (l_created_at e, l_id e)"

definition round_key :: "round_row \<Rightarrow> time \<times> uuid" where
  "round_key r = (r_created_at r, r_id r)"

definition list_by_wallet :: "uuid \<Rightarrow> (time \<times> uuid) option \<Rightarrow> nat \<Rightarrow> (world, ledger_row list) exec" where
  "list_by_wallet wid cursor limit =
     bind (select_rows ledger (\<lambda>e. l_wallet_id e = wid)) (\<lambda>rows.
     ret (keyset_query entry_key cursor limit rows))"

text \<open>
  The rounds come with their bets (\<open>selectinload\<close>); the query of the bets has no \<open>ORDER BY\<close>, so
  a parameter \<open>tie\<close> orders them.
\<close>

definition list_by_user ::
  "(bet_row \<Rightarrow> nat) \<Rightarrow> uuid \<Rightarrow> (time \<times> uuid) option \<Rightarrow> nat \<Rightarrow> (world, (round_row \<times> bet_row list) list) exec" where
  "list_by_user tie uid cursor limit =
     bind (select_rows rounds (\<lambda>r. r_user_id r = uid)) (\<lambda>rows.
     gets (\<lambda>w. map (\<lambda>r. (r, sort_key tie (filter (\<lambda>b. b_round_id b = r_id r) (bets (db w)))))
       (keyset_query round_key cursor limit rows)))"

section \<open>Chained pages\<close>

lemma before_Some: "before (Some k) x \<longleftrightarrow> x < k"
  by (cases k; cases x) (auto simp: before_def)

text \<open>A client that follows the cursors of the pages it gets, at most a number of times.\<close>

fun follow :: "nat \<Rightarrow> ('c option \<Rightarrow> 'a list \<times> 'c option) \<Rightarrow> 'c option \<Rightarrow> 'a list" where
  "follow 0 fetch c = []"
| "follow (Suc k) fetch c = (case fetch c of
     (items, None) \<Rightarrow> items
   | (items, Some c') \<Rightarrow> items @ follow k fetch (Some c'))"

locale keyset =
  fixes key :: "'r \<Rightarrow> time \<times> uuid"
    and ok :: "'r list \<Rightarrow> bool"
  assumes distinct_keys: "ok rows \<Longrightarrow> distinct (map key rows)"
begin

definition newest :: "'r list \<Rightarrow> 'r list" where
  "newest rows = rev (sort_key key rows)"

lemma newest_sorted: "ok rows \<Longrightarrow> sorted_wrt (\<lambda>a b. key b < key a) (newest rows)"
proof -
  assume "ok rows"
  then have "distinct (map key (sort_key key rows))"
    using distinct_keys [of rows] by (simp add: distinct_map)
  then have "sorted_wrt (<) (map key (sort_key key rows))"
    by (simp add: strict_sorted_iff)
  then show ?thesis by (simp add: newest_def sorted_wrt_rev sorted_wrt_map)
qed

lemma after_item:
  assumes "ok rows" "newest rows = xs @ y # zs"
  shows "filter (\<lambda>r. before (Some (key y)) (key r)) (newest rows) = zs"
proof -
  have "sorted_wrt (\<lambda>a b. key b < key a) (xs @ y # zs)" using newest_sorted [OF assms(1)] assms(2) by simp
  then have "\<forall>x \<in> set xs. key y < key x" "\<forall>z \<in> set zs. key z < key y" by (auto simp: sorted_wrt_append)
  then have "filter (\<lambda>r. before (Some (key y)) (key r)) xs = []"
    "filter (\<lambda>r. before (Some (key y)) (key r)) zs = zs"
    by (auto simp: before_Some filter_empty_conv filter_id_conv)
  then show ?thesis using assms(2) by (simp add: before_Some)
qed

lemma query_newest: "keyset_query key c n rows = take n (filter (\<lambda>r. before c (key r)) (newest rows))"
  by (simp add: keyset_query_def newest_def filter_sort flip: rev_filter)

lemma first_page: "keyset_query key None n rows = take n (newest rows)"
  by (simp add: query_newest before_def)

lemma next_page:
  "ok rows \<Longrightarrow> newest rows = xs @ y # zs \<Longrightarrow> keyset_query key (Some (key y)) n rows = take n zs"
  unfolding query_newest using after_item by presburger

text \<open>Rows that come in at the newer end change no later page.\<close>

lemma no_drift:
  "\<forall>r \<in> set new. \<not> key r < key y \<Longrightarrow> keyset_query key (Some (key y)) n (rows @ new) = keyset_query key (Some (key y)) n rows"
  by (simp add: keyset_query_def before_Some)

text \<open>Following the cursors from the first page on reads every row once, newest first.\<close>

lemma follow_from:
  assumes "ok rows" "0 < n"
    and step: "\<And>r. r \<in> set rows \<Longrightarrow> fetch (Some (enc r)) = out (keyset_query key (Some (key r)) n rows)"
    and out: "\<And>pg. out pg = (map f pg, if length pg = n then Some (enc (last pg)) else None)"
  shows "newest rows = xs @ zs \<Longrightarrow> fetch c = out (take n zs) \<Longrightarrow> length zs < k \<Longrightarrow> follow k fetch c = map f zs"
proof (induction k arbitrary: xs zs c)
  case (Suc k)
  show ?case
  proof (cases "length (take n zs) = n")
    case False
    then have "take n zs = zs" by (simp add: min_def split: if_splits)
    with False Suc.prems show ?thesis by (simp add: out)
  next
    case full: True
    have "take n zs \<noteq> []" using full assms(2) by auto
    then obtain us y where page: "take n zs = us @ [y]" using rev_exhaust by blast
    have split: "newest rows = (xs @ us) @ y # drop n zs"
      using Suc.prems(1) append_take_drop_id [of n zs] page by simp
    then have "y \<in> set (newest rows)" by simp
    then have y: "y \<in> set rows" by (simp add: newest_def)
    have "fetch (Some (enc y)) = out (take n (drop n zs))"
      using step [OF y] next_page [OF assms(1) split] by simp
    moreover have "newest rows = (xs @ us @ [y]) @ drop n zs" using split by simp
    moreover have "length (drop n zs) < k" using Suc.prems(3) full assms(2) by auto
    ultimately have "follow k fetch (Some (enc y)) = map f (drop n zs)" using Suc.IH by blast
    moreover have "map f (take n zs) @ map f (drop n zs) = map f zs"
      by (simp flip: map_append)
    ultimately show ?thesis using Suc.prems(2) full page by (simp add: out)
  qed
qed simp

lemma follow_all:
  assumes "ok rows" "0 < n"
    and "fetch None = out (keyset_query key None n rows)"
    and "\<And>r. r \<in> set rows \<Longrightarrow> fetch (Some (enc r)) = out (keyset_query key (Some (key r)) n rows)"
    and "\<And>pg. out pg = (map f pg, if length pg = n then Some (enc (last pg)) else None)"
  shows "follow (Suc (length rows)) fetch None = map f (newest rows)"
  by (rule follow_from [OF assms(1,2,4,5), of "[]"]) (use assms(3) in \<open>simp_all add: first_page newest_def\<close>)

end

interpretation entries: keyset entry_key "\<lambda>rows. distinct (map l_id rows)"
  by unfold_locales (auto simp: distinct_map entry_key_def inj_on_def)

interpretation played: keyset round_key "\<lambda>rows. distinct (map r_id rows)"
  by unfold_locales (auto simp: distinct_map round_key_def inj_on_def)

end
