(* ===== verification/History.thy ===== *)
theory History
  imports Keyset Fair_History Spin_Demo
begin

text \<open>
  Reading the history: \<open>list_transactions\<close> and \<open>list_rounds\<close> of the services and the two
  endpoints of \<open>app/api/v1/\<close> that serve them page by page. The properties follow a client from
  the first page along the cursors to the last one.
\<close>

section \<open>Services\<close>

definition list_transactions :: "uuid \<Rightarrow> (time \<times> uuid) option \<Rightarrow> nat \<Rightarrow> (world, ledger_row list) exec" where
  "list_transactions uid cursor limit =
     bind (get_wallet_by_user_id uid) (\<lambda>found.
     case found of
       None \<Rightarrow> throw DataIntegrityError
     | Some wallet \<Rightarrow> list_by_wallet (w_id wallet) cursor limit)"

definition list_rounds ::
  "(bet_row \<Rightarrow> nat) \<Rightarrow> uuid \<Rightarrow> (time \<times> uuid) option \<Rightarrow> nat \<Rightarrow> (world, (round_row \<times> bet_row list) list) exec" where
  "list_rounds tie uid cursor limit = list_by_user tie uid cursor limit"

section \<open>Endpoints\<close>

record transaction_item =
  ti_id :: uuid
  ti_amount_minor :: int
  ti_balance_after_minor :: int
  ti_kind :: string
  ti_ref_type :: "string option"
  ti_ref_id :: "uuid option"
  ti_created_at :: time

record transactions_page =
  tp_items :: "transaction_item list"
  tp_next_cursor :: "string option"

definition transaction_item_of :: "ledger_row \<Rightarrow> transaction_item" where
  "transaction_item_of e = \<lparr>ti_id = l_id e, ti_amount_minor = l_amount_minor e,
     ti_balance_after_minor = l_balance_after_minor e, ti_kind = l_kind e, ti_ref_type = l_ref_type e,
     ti_ref_id = l_ref_id e, ti_created_at = l_created_at e\<rparr>"

text \<open>\<open>decode_cursor(cursor) if cursor else None\<close>; \<open>readers\<close> are the texts the readers also take.\<close>

type_synonym readers = "(string \<Rightarrow> time option) \<times> (string \<Rightarrow> uuid option)"

definition decoded_cursor :: "readers \<Rightarrow> string option \<Rightarrow> exn + (time \<times> uuid) option" where
  "decoded_cursor rd cursor = (case cursor of
     None \<Rightarrow> Inr None
   | Some c \<Rightarrow> if c = [] then Inr None else sbind (decode_cursor (fst rd) (snd rd) c) (\<lambda>k. Inr (Some k)))"

definition transactions_endpoint ::
  "readers \<Rightarrow> uuid \<Rightarrow> string option \<Rightarrow> nat \<Rightarrow> (world, transactions_page) exec" where
  "transactions_endpoint rd uid cursor limit =
     bind (lift_sum (decoded_cursor rd cursor)) (\<lambda>decoded.
     bind (list_transactions uid decoded limit) (\<lambda>entries.
     ret \<lparr>tp_items = map transaction_item_of entries,
          tp_next_cursor = (if length entries = limit
            then Some (encode_cursor (l_created_at (last entries)) (l_id (last entries))) else None)\<rparr>))"

record settled_bet_response =
  sr_bet_type :: bet_type
  sr_selection :: selection
  sr_stake_minor :: int
  sr_payout_minor :: int
  sr_won :: bool

record round_history_item =
  hi_round_id :: uuid
  hi_outcome :: int
  hi_created_at :: time
  hi_bets :: "settled_bet_response list"

record round_history_page =
  rp_items :: "round_history_item list"
  rp_next_cursor :: "string option"

text \<open>\<open>BetType(value)\<close>: pydantic refuses a text that is no bet type.\<close>

definition parse_bet_type :: "string \<Rightarrow> exn + bet_type" where
  "parse_bet_type s = (case find (\<lambda>t. bet_type_value t = s) all_bet_types of
     None \<Rightarrow> Inl ValidationError | Some t \<Rightarrow> Inr t)"

definition settled_bet_response_of :: "bet_row \<Rightarrow> exn + settled_bet_response" where
  "settled_bet_response_of b = sbind (parse_bet_type (b_bet_type b)) (\<lambda>t.
     Inr \<lparr>sr_bet_type = t, sr_selection = b_selection b, sr_stake_minor = b_stake_minor b,
          sr_payout_minor = b_payout_minor b, sr_won = (b_status b = ''won'')\<rparr>)"

definition history_item_of :: "round_row \<times> bet_row list \<Rightarrow> exn + round_history_item" where
  "history_item_of rb = (case rb of (r, bs) \<Rightarrow> (case r_outcome r of
     None \<Rightarrow> Inl DataIntegrityError
   | Some v \<Rightarrow> sbind (smap settled_bet_response_of bs) (\<lambda>rs.
       Inr \<lparr>hi_round_id = r_id r, hi_outcome = v, hi_created_at = r_created_at r, hi_bets = rs\<rparr>)))"

definition rounds_endpoint ::
  "readers \<Rightarrow> (bet_row \<Rightarrow> nat) \<Rightarrow> uuid \<Rightarrow> string option \<Rightarrow> nat \<Rightarrow> (world, round_history_page) exec" where
  "rounds_endpoint rd tie uid cursor limit =
     bind (lift_sum (decoded_cursor rd cursor)) (\<lambda>decoded.
     bind (list_rounds tie uid decoded limit) (\<lambda>rounds.
     bind (lift_sum (smap history_item_of rounds)) (\<lambda>items.
     ret \<lparr>rp_items = items,
          rp_next_cursor = (if length rounds = limit
            then Some (encode_cursor (r_created_at (fst (last rounds))) (r_id (fst (last rounds)))) else None)\<rparr>)))"

section \<open>Pages\<close>

lemma encode_cursor_nonempty [simp]: "encode_cursor t u \<noteq> []"
proof -
  have "utf8 (isoformat t @ ''|'' @ uuid_str u) \<noteq> []" by (simp add: utf8_def)
  moreover have "b64url bs \<noteq> []" if "bs \<noteq> []" for bs
    using that by (cases bs rule: b64url.cases) (auto simp: Let_def)
  ultimately show ?thesis by (simp add: encode_cursor_def)
qed

lemma decoded_cursor_own:
  "valid_instant t \<Longrightarrow> u < 2 ^ 128 \<Longrightarrow> decoded_cursor rd (Some (encode_cursor t u)) = Inr (Some (t, u))"
  using decode_encode_cursor [of t u] by (simp add: decoded_cursor_def)

lemma parse_bet_type_value [simp]: "parse_bet_type (bet_type_value t) = Inr t"
  by (cases t) (simp_all add: parse_bet_type_def all_bet_types_def)

text \<open>The wallet history of a user, and what a client reads of it.\<close>

definition wallet_entries :: "database \<Rightarrow> uuid \<Rightarrow> ledger_row list" where
  "wallet_entries d wid = filter (\<lambda>e. l_wallet_id e = wid) (ledger d)"

definition fetch_transactions ::
  "readers \<Rightarrow> uuid \<Rightarrow> nat \<Rightarrow> world \<Rightarrow> string option \<Rightarrow> transaction_item list \<times> string option" where
  "fetch_transactions rd uid limit w cursor = (case fst (transactions_endpoint rd uid cursor limit w) of
     Val p \<Rightarrow> (tp_items p, tp_next_cursor p) | _ \<Rightarrow> ([], None))"

definition user_rounds :: "database \<Rightarrow> uuid \<Rightarrow> round_row list" where
  "user_rounds d uid = filter (\<lambda>r. r_user_id r = uid) (rounds d)"

definition fetch_rounds ::
  "readers \<Rightarrow> (bet_row \<Rightarrow> nat) \<Rightarrow> uuid \<Rightarrow> nat \<Rightarrow> world \<Rightarrow> string option \<Rightarrow> round_history_item list \<times> string option" where
  "fetch_rounds rd tie uid limit w cursor = (case fst (rounds_endpoint rd tie uid cursor limit w) of
     Val p \<Rightarrow> (rp_items p, rp_next_cursor p) | _ \<Rightarrow> ([], None))"

lemma fetch_transactions_page:
  assumes "get_wallet_by_user_id uid w = (Val (Some wallet), w)" "decoded_cursor rd cursor = Inr k"
  shows "fetch_transactions rd uid limit w cursor =
    (let pg = keyset_query entry_key k limit (wallet_entries (db w) (w_id wallet)) in
     (map transaction_item_of pg,
      if length pg = limit then Some (encode_cursor (l_created_at (last pg)) (l_id (last pg))) else None))"
  using assms(2)
  by (simp add: bind_Val [of "get_wallet_by_user_id uid", OF assms(1)] fetch_transactions_def transactions_endpoint_def list_transactions_def list_by_wallet_def
      exec_simps bind_assoc wallet_entries_def Let_def)

lemma fetch_all_transactions:
  assumes wallet: "get_wallet_by_user_id uid w = (Val (Some wallet), w)" and limit: "0 < limit"
    and rows: "rows = wallet_entries (db w) (w_id wallet)" and keys: "distinct (map l_id (ledger (db w)))"
    and range: "\<And>e. e \<in> set rows \<Longrightarrow> valid_instant (l_created_at e) \<and> l_id e < 2 ^ 128"
  shows "follow (Suc (length rows)) (fetch_transactions rd uid limit w) None = map transaction_item_of (entries.newest rows)"
proof (rule entries.follow_all [of rows limit _
    "\<lambda>pg. (map transaction_item_of pg, if length pg = limit then Some (encode_cursor (l_created_at (last pg)) (l_id (last pg))) else None)"
    "\<lambda>e. encode_cursor (l_created_at e) (l_id e)" transaction_item_of])
  show "distinct (map l_id rows)" using keys by (simp add: rows wallet_entries_def distinct_map_filter)
  show "0 < limit" by (rule limit)
  show "fetch_transactions rd uid limit w None = (map transaction_item_of (keyset_query entry_key None limit rows),
      if length (keyset_query entry_key None limit rows) = limit
      then Some (encode_cursor (l_created_at (last (keyset_query entry_key None limit rows))) (l_id (last (keyset_query entry_key None limit rows)))) else None)"
    using fetch_transactions_page [OF wallet, of rd None None] by (simp add: decoded_cursor_def rows Let_def)
  show "fetch_transactions rd uid limit w (Some (encode_cursor (l_created_at r) (l_id r))) =
      (map transaction_item_of (keyset_query entry_key (Some (entry_key r)) limit rows),
       if length (keyset_query entry_key (Some (entry_key r)) limit rows) = limit
       then Some (encode_cursor (l_created_at (last (keyset_query entry_key (Some (entry_key r)) limit rows)))
         (l_id (last (keyset_query entry_key (Some (entry_key r)) limit rows)))) else None)" if "r \<in> set rows" for r
    using fetch_transactions_page [OF wallet decoded_cursor_own] range [OF that] by (simp add: entry_key_def rows Let_def)
qed simp

text \<open>The rounds of a user, each as the item the endpoint makes of it.\<close>

definition bets_of :: "(bet_row \<Rightarrow> nat) \<Rightarrow> database \<Rightarrow> round_row \<Rightarrow> bet_row list" where
  "bets_of tie d r = sort_key tie (filter (\<lambda>b. b_round_id b = r_id r) (bets d))"

text \<open>The bet type a stored bet names.\<close>

definition stored_type :: "bet_row \<Rightarrow> bet_type" where
  "stored_type b = (case parse_bet_type (b_bet_type b) of Inr t \<Rightarrow> t | Inl _ \<Rightarrow> STRAIGHT)"

definition shown_bet :: "bet_row \<Rightarrow> settled_bet_response" where
  "shown_bet b = \<lparr>sr_bet_type = stored_type b, sr_selection = b_selection b, sr_stake_minor = b_stake_minor b,
     sr_payout_minor = b_payout_minor b, sr_won = (b_status b = ''won'')\<rparr>"

definition shown_round :: "(bet_row \<Rightarrow> nat) \<Rightarrow> database \<Rightarrow> round_row \<Rightarrow> round_history_item" where
  "shown_round tie d r = \<lparr>hi_round_id = r_id r, hi_outcome = the (r_outcome r), hi_created_at = r_created_at r,
     hi_bets = map shown_bet (bets_of tie d r)\<rparr>"

lemma smap_map_Inr: "(\<And>x. x \<in> set xs \<Longrightarrow> f (g x) = Inr (h x)) \<Longrightarrow> smap f (map g xs) = Inr (map h xs)"
  by (induction xs) auto

lemma history_item_honest:
  assumes "honest_history d" "r \<in> set (rounds d)"
  shows "history_item_of (r, bets_of tie d r) = Inr (shown_round tie d r)"
proof -
  obtain v where v: "r_outcome r = Some v" using assms by (auto simp: honest_history_def honest_round_def)
  have "settled_bet_response_of b = Inr (shown_bet b)"
    if "b \<in> set (bets_of tie d r)" for b
  proof -
    have "b \<in> set (bets d)" using that by (simp add: bets_of_def)
    with assms(1) obtain t where "b_bet_type b = bet_type_value t"
      unfolding honest_history_def honest_bet_def by blast
    then show ?thesis by (simp add: settled_bet_response_of_def stored_type_def shown_bet_def)
  qed
  then have "smap settled_bet_response_of (bets_of tie d r) = Inr (map shown_bet (bets_of tie d r))"
    by (rule smap_all_Inr)
  with v show ?thesis by (simp add: history_item_of_def shown_round_def)
qed

lemma set_keyset_query: "r \<in> set (keyset_query key c n rows) \<Longrightarrow> r \<in> set rows"
  by (auto simp: keyset_query_def dest: in_set_takeD)

lemma fetch_rounds_page:
  assumes honest: "honest_history (db w)" and cursor: "decoded_cursor rd cursor = Inr k" and limit: "0 < limit"
  shows "fetch_rounds rd tie uid limit w cursor =
    (let pg = keyset_query round_key k limit (user_rounds (db w) uid) in
     (map (shown_round tie (db w)) pg,
      if length pg = limit then Some (encode_cursor (r_created_at (last pg)) (r_id (last pg))) else None))"
proof -
  let ?pg = "keyset_query round_key k limit (user_rounds (db w) uid)"
  have "history_item_of (r, bets_of tie (db w) r) = Inr (shown_round tie (db w) r)" if "r \<in> set ?pg" for r
    using history_item_honest [OF honest] set_keyset_query [OF that] by (auto simp: user_rounds_def)
  then have "smap history_item_of (map (\<lambda>r. (r, bets_of tie (db w) r)) ?pg) = Inr (map (shown_round tie (db w)) ?pg)"
    by (rule smap_map_Inr)
  then show ?thesis
    using cursor limit by (auto simp: fetch_rounds_def rounds_endpoint_def list_rounds_def list_by_user_def exec_simps
        bind_assoc bets_of_def user_rounds_def Let_def last_map simp flip: length_greater_0_conv)
qed

lemma fetch_all_rounds:
  assumes honest: "honest_history (db w)" and limit: "0 < limit"
    and rows: "rows = user_rounds (db w) uid" and keys: "distinct (map r_id (rounds (db w)))"
    and range: "\<And>r. r \<in> set rows \<Longrightarrow> valid_instant (r_created_at r) \<and> r_id r < 2 ^ 128"
  shows "follow (Suc (length rows)) (fetch_rounds rd tie uid limit w) None = map (shown_round tie (db w)) (played.newest rows)"
proof (rule played.follow_all [of rows limit _
    "\<lambda>pg. (map (shown_round tie (db w)) pg, if length pg = limit then Some (encode_cursor (r_created_at (last pg)) (r_id (last pg))) else None)"
    "\<lambda>r. encode_cursor (r_created_at r) (r_id r)" "shown_round tie (db w)"])
  show "distinct (map r_id rows)" using keys by (simp add: rows user_rounds_def distinct_map_filter)
  show "0 < limit" by (rule limit)
  show "fetch_rounds rd tie uid limit w None = (map (shown_round tie (db w)) (keyset_query round_key None limit rows),
      if length (keyset_query round_key None limit rows) = limit
      then Some (encode_cursor (r_created_at (last (keyset_query round_key None limit rows))) (r_id (last (keyset_query round_key None limit rows)))) else None)"
    using fetch_rounds_page [OF honest _ limit, of rd None None] by (simp add: decoded_cursor_def rows Let_def)
  show "fetch_rounds rd tie uid limit w (Some (encode_cursor (r_created_at r) (r_id r))) =
      (map (shown_round tie (db w)) (keyset_query round_key (Some (round_key r)) limit rows),
       if length (keyset_query round_key (Some (round_key r)) limit rows) = limit
       then Some (encode_cursor (r_created_at (last (keyset_query round_key (Some (round_key r)) limit rows)))
         (r_id (last (keyset_query round_key (Some (round_key r)) limit rows)))) else None)" if "r \<in> set rows" for r
    using fetch_rounds_page [OF honest decoded_cursor_own limit] range [OF that] by (simp add: round_key_def rows Let_def)
qed simp

section \<open>A concrete history\<close>

definition demo_history :: database where
  "demo_history = demo_db\<lparr>
     seed_pairs := [\<lparr>s_id = 9, s_user_id = 1, s_server_seed = demo_server_seed,
       s_server_seed_hash = hash_seed demo_server_seed, s_client_seed = demo_client_seed,
       s_nonce = 1, s_status = ''active'', s_revealed_at = None, s_created_at = 0\<rparr>],
     rounds := [\<lparr>r_id = 20, r_user_id = 1, r_seed_pair_id = 9, r_nonce = 1, r_outcome = Some 6,
       r_status = ''settled'', r_created_at = 5000000, r_settled_at = Some 5000001\<rparr>],
     bets := [\<lparr>b_id = 21, b_round_id = 20, b_bet_type = ''red'', b_selection = [], b_stake_minor = 250,
       b_payout_minor = 0, b_status = ''lost''\<rparr>]\<rparr>"

lemma demo_history_honest: "honest_history demo_history"
  using spin_demo
  by (simp add: honest_history_def demo_history_def demo_db_def honest_round_def honest_bet_def material_def
      demo_material_def) (intro exI [of _ RED] conjI exI [of _ RED_NUMBERS], simp_all add: covered_numbers_def RED_NUMBERS_def)

section \<open>Properties\<close>

text \<open>
  C23: the pages of the wallet history chain up: a client that starts without a cursor and
  follows the cursor of each page reads every ledger entry of the wallet exactly once, newest
  first, and the last page has no cursor, whatever the page size.
\<close>

theorem transaction_pages_complete:
  assumes "get_wallet_by_user_id uid w = (Val (Some wallet), w)" and "0 < limit"
    and "distinct (map l_id (ledger (db w)))"
    and "\<And>e. e \<in> set (ledger (db w)) \<Longrightarrow> valid_instant (l_created_at e) \<and> l_id e < 2 ^ 128"
  shows "follow (Suc (length (wallet_entries (db w) (w_id wallet)))) (fetch_transactions rd uid limit w) None
    = map transaction_item_of (rev (sort_key entry_key (wallet_entries (db w) (w_id wallet))))"
  using fetch_all_transactions [OF assms(1,2) refl assms(3), of rd] assms(4)
  by (simp add: entries.newest_def wallet_entries_def)

theorem transaction_pages_complete_witness:
  "follow (Suc 1) (fetch_transactions (\<lambda>_. None, \<lambda>_. None) 1 1 demo_world) None
   = [\<lparr>ti_id = 8, ti_amount_minor = 1000, ti_balance_after_minor = 1000, ti_kind = ''deposit'',
       ti_ref_type = None, ti_ref_id = None, ti_created_at = 0\<rparr>]"
  using transaction_pages_complete [of 1 demo_world "\<lparr>w_id = 7, w_user_id = 1, w_balance_minor = 1000, w_currency = ''EUR''\<rparr>" 1
      "(\<lambda>_. None, \<lambda>_. None)"]
  by (simp add: demo_defs get_wallet_by_user_id_def exec_simps wallet_entries_def transaction_item_of_def
      valid_instant_def EPOCH_DAY_def MAX_DAY_def del: follow.simps)

text \<open>
  the pages of the round history chain up as well, each round with its outcome and all its
  bets; on an honest history no page fails, so the check for a missing outcome and the reading
  of the bet types never raise.
\<close>

theorem round_pages_complete:
  assumes "honest_history (db w)" and "0 < limit" and "distinct (map r_id (rounds (db w)))"
    and "\<And>r. r \<in> set (rounds (db w)) \<Longrightarrow> valid_instant (r_created_at r) \<and> r_id r < 2 ^ 128"
  shows "follow (Suc (length (user_rounds (db w) uid))) (fetch_rounds rd tie uid limit w) None
    = map (shown_round tie (db w)) (rev (sort_key round_key (user_rounds (db w) uid)))"
  using fetch_all_rounds [OF assms(1,2) refl assms(3), of uid rd tie] assms(4)
  by (simp add: played.newest_def user_rounds_def)

theorem round_pages_complete_witness:
  "map hi_round_id (follow (Suc 1) (fetch_rounds (\<lambda>_. None, \<lambda>_. None) b_id 1 1 (demo_world\<lparr>db := demo_history\<rparr>)) None) = [20]"
  using round_pages_complete [of "demo_world\<lparr>db := demo_history\<rparr>" 1 1 "(\<lambda>_. None, \<lambda>_. None)" b_id] demo_history_honest
  by (simp add: demo_history_def user_rounds_def shown_round_def valid_instant_def EPOCH_DAY_def MAX_DAY_def del: follow.simps)

text \<open>
  no page drift: entries that come in while a client pages, at or after the instant of the
  last item it has seen, change none of the pages that follow its cursor.
\<close>

theorem pages_do_not_drift:
  assumes "\<forall>e \<in> set new. \<not> entry_key e < (t, u)"
  shows "fst (list_by_wallet wid (Some (t, u)) limit (w\<lparr>db := (db w)\<lparr>ledger := ledger (db w) @ new\<rparr>\<rparr>))
    = fst (list_by_wallet wid (Some (t, u)) limit w)"
proof -
  have "filter (\<lambda>e. l_wallet_id e = wid \<and> before (Some (t, u)) (entry_key e)) new = []"
    using assms by (simp add: filter_empty_conv before_Some)
  then show ?thesis
    by (simp add: list_by_wallet_def exec_simps keyset_query_def filter_filter)
qed

theorem pages_do_not_drift_witness:
  "fst (list_by_wallet 7 (Some (0, 8)) 5 (demo_world\<lparr>db := demo_db\<lparr>ledger := ledger demo_db @
       [\<lparr>l_id = 12, l_wallet_id = 7, l_amount_minor = 500, l_balance_after_minor = 1500,
         l_kind = ''deposit'', l_ref_type = None, l_ref_id = None, l_created_at = 3000000\<rparr>]\<rparr>\<rparr>))
   = fst (list_by_wallet 7 (Some (0, 8)) 5 demo_world)"
  using pages_do_not_drift [of "[\<lparr>l_id = 12, l_wallet_id = 7, l_amount_minor = 500, l_balance_after_minor = 1500,
         l_kind = ''deposit'', l_ref_type = None, l_ref_id = None, l_created_at = 3000000\<rparr>]" 0 8 7 5 demo_world]
  by (simp add: entry_key_def demo_world_def)

end
