(* ===== verification/Security.thy ===== *)
theory Security
  imports Cursor
begin

text \<open>
  \<open>app/infra/security.py\<close>: password hashing, access tokens and refresh tokens. argon2 and PyJWT
  are outside the repository: what the code calls of them is the record \<open>crypto\<close>, and what it
  relies on are the predicates \<open>argon_contract\<close> and \<open>jwt_contract\<close>. A small concrete instance
  shows that they can hold.
\<close>

section \<open>The libraries\<close>

datatype verify_outcome = Verified | VerifyMismatch | VerifyFailed

datatype jwt_outcome = Claims "(string \<times> json) list" | ExpiredSignature | JwtInvalid

text \<open>
  \<open>argon_hash password salt\<close>, \<open>argon_verify hash password\<close>, \<open>jwt_encode sub iat until secret
  algorithm\<close> and \<open>jwt_decode token secret algorithm now\<close>.
\<close>

record crypto =
  argon_hash :: "string \<Rightarrow> bytes \<Rightarrow> string"
  argon_verify :: "string \<Rightarrow> string \<Rightarrow> verify_outcome"
  jwt_encode :: "string \<Rightarrow> time \<Rightarrow> time \<Rightarrow> string \<Rightarrow> string \<Rightarrow> string"
  jwt_decode :: "string \<Rightarrow> string \<Rightarrow> string \<Rightarrow> time \<Rightarrow> jwt_outcome"

text \<open>A hash verifies its own password and no other.\<close>

definition argon_contract :: "crypto \<Rightarrow> bool" where
  "argon_contract cr \<longleftrightarrow> (\<forall>password salt other.
     argon_verify cr (argon_hash cr password salt) other = (if other = password then Verified else VerifyMismatch))"

text \<open>
  A token signed with a secret is refused under any other; under its own it gives back its
  subject until the second of its expiry, and is expired from then on.
\<close>

definition unix_seconds :: "time \<Rightarrow> int" where "unix_seconds t = t div 1000000"

definition jwt_contract :: "crypto \<Rightarrow> bool" where
  "jwt_contract cr \<longleftrightarrow> (\<forall>u iat until secret secret' alg now. iat \<le> now \<longrightarrow>
     jwt_decode cr (jwt_encode cr (uuid_str u) iat until secret alg) secret' alg now =
       (if secret' \<noteq> secret then JwtInvalid
        else if unix_seconds until \<le> unix_seconds now then ExpiredSignature
        else Claims [(''sub'', JStr (uuid_str u)), (''iat'', JInt (unix_seconds iat)), (''exp'', JInt (unix_seconds until))]))"

section \<open>Passwords\<close>

definition ARGON_SALT_BYTES :: nat where "ARGON_SALT_BYTES = 16"

definition hash_password :: "crypto \<Rightarrow> string \<Rightarrow> (world, string) exec" where
  "hash_password cr password =
     bind (token_bytes ARGON_SALT_BYTES) (\<lambda>salt. ret (argon_hash cr password salt))"

definition verify_password :: "crypto \<Rightarrow> string \<Rightarrow> string \<Rightarrow> exn + bool" where
  "verify_password cr password password_hash = (case argon_verify cr password_hash password of
     Verified \<Rightarrow> Inr True | VerifyMismatch \<Rightarrow> Inr False | VerifyFailed \<Rightarrow> Inl OtherError)"

section \<open>Access tokens\<close>

definition create_access_token :: "crypto \<Rightarrow> uuid \<Rightarrow> string \<Rightarrow> string \<Rightarrow> int \<Rightarrow> (world, string) exec" where
  "create_access_token cr uid secret alg ttl_seconds =
     bind now_utc (\<lambda>now.
     ret (jwt_encode cr (uuid_str uid) now (now + seconds ttl_seconds) secret alg))"

text \<open>The loop over the candidate secrets: the claims, none, or the exception of an expired token.\<close>

fun try_secrets :: "crypto \<Rightarrow> string \<Rightarrow> string \<Rightarrow> time \<Rightarrow> string list \<Rightarrow> exn + (string \<times> json) list option" where
  "try_secrets cr token alg now [] = Inr None"
| "try_secrets cr token alg now (candidate # rest) = (case jwt_decode cr token candidate alg now of
     Claims payload \<Rightarrow> Inr (Some payload)
   | ExpiredSignature \<Rightarrow> Inl TokenExpiredError
   | JwtInvalid \<Rightarrow> try_secrets cr token alg now rest)"

definition subject_of :: "(string \<Rightarrow> uuid option) \<Rightarrow> (string \<times> json) list \<Rightarrow> exn + uuid" where
  "subject_of other_uuid payload = (case map_of payload ''sub'' of
     Some (JStr sub) \<Rightarrow> (case parse_uuid other_uuid sub of None \<Rightarrow> Inl InvalidTokenError | Some u \<Rightarrow> Inr u)
   | _ \<Rightarrow> Inl InvalidTokenError)"

definition decode_access_token ::
  "crypto \<Rightarrow> (string \<Rightarrow> uuid option) \<Rightarrow> string \<Rightarrow> string \<Rightarrow> string \<Rightarrow> string list \<Rightarrow> (world, uuid) exec" where
  "decode_access_token cr other_uuid token secret alg previous_secrets =
     bind now_utc (\<lambda>now.
     lift_sum (sbind (try_secrets cr token alg now (secret # previous_secrets)) (\<lambda>found.
       case found of None \<Rightarrow> Inl InvalidTokenError | Some payload \<Rightarrow> subject_of other_uuid payload)))"

section \<open>Refresh tokens\<close>

definition REFRESH_TOKEN_BYTES :: nat where "REFRESH_TOKEN_BYTES = 32"

text \<open>\<open>secrets.token_urlsafe(n)\<close>: the base64 text without its padding.\<close>

definition token_urlsafe :: "nat \<Rightarrow> (world, string) exec" where
  "token_urlsafe n = bind (token_bytes n) (\<lambda>bs. ret (rev (dropWhile (\<lambda>c. c = CHR ''='') (rev (b64url bs)))))"

definition generate_refresh_token :: "(world, string) exec" where
  "generate_refresh_token = token_urlsafe REFRESH_TOKEN_BYTES"

definition hash_refresh_token :: "string \<Rightarrow> string" where
  "hash_refresh_token token = hex (sha256 (utf8 token))"

section \<open>What they guarantee\<close>

lemma try_secrets_signed:
  assumes "jwt_contract cr" "iat \<le> now"
  shows "try_secrets cr (jwt_encode cr (uuid_str u) iat until secret alg) alg now secrets =
    (if secret \<notin> set secrets then Inr None
     else if unix_seconds until \<le> unix_seconds now then Inl TokenExpiredError
     else Inr (Some [(''sub'', JStr (uuid_str u)), (''iat'', JInt (unix_seconds iat)), (''exp'', JInt (unix_seconds until))]))"
  using assms by (induction secrets) (auto simp: jwt_contract_def)

lemma subject_of_own: "u < 2 ^ 128 \<Longrightarrow> subject_of other ((''sub'', JStr (uuid_str u)) # claims) = Inr u"
  using parse_uuid_roundtrip [of u other] by (simp add: subject_of_def)

lemma decode_signed:
  assumes "jwt_contract cr" "iat \<le> clock w (ticks w)" "u < 2 ^ 128"
  shows "fst (decode_access_token cr other (jwt_encode cr (uuid_str u) iat until signing alg) secret alg previous w) =
    (if signing \<noteq> secret \<and> signing \<notin> set previous then Exc InvalidTokenError
     else if unix_seconds until \<le> unix_seconds (clock w (ticks w)) then Exc TokenExpiredError
     else Val u)"
  using try_secrets_signed [OF assms(1,2), of u until signing alg "secret # previous"] subject_of_own [OF assms(3)]
  by (auto simp: decode_access_token_def exec_simps)

lemma verify_hashed:
  "argon_contract cr \<Longrightarrow> verify_password cr other (argon_hash cr password salt) = Inr (other = password)"
  by (simp add: argon_contract_def verify_password_def)

lemma keeps_security [frame_rules]:
  "(\<And>w n. f (w\<lparr>bytes_drawn := n\<rparr>) = f w) \<Longrightarrow> keeps f (hash_password cr password)"
  "(\<And>w t. g (w\<lparr>ticks := t\<rparr>) = g w) \<Longrightarrow> keeps g (create_access_token cr uid secret alg ttl)"
  "(\<And>w t. g (w\<lparr>ticks := t\<rparr>) = g w) \<Longrightarrow> keeps g (decode_access_token cr other token secret alg previous)"
  "(\<And>w n. f (w\<lparr>bytes_drawn := n\<rparr>) = f w) \<Longrightarrow> keeps f generate_refresh_token"
  unfolding hash_password_def create_access_token_def decode_access_token_def generate_refresh_token_def
    token_urlsafe_def by (auto intro!: frame_rules)

section \<open>A concrete instance\<close>

text \<open>
  The password is its own hash; a token is its expiry, its subject and its secret in the clear,
  separated by bars.
\<close>

definition read_int :: "string \<Rightarrow> int" where
  "read_int s = (if take 1 s = ''-'' then - int (read_dec (drop 1 s)) else int (read_dec s))"

definition plain_token :: "string \<Rightarrow> time \<Rightarrow> time \<Rightarrow> string \<Rightarrow> string \<Rightarrow> string" where
  "plain_token sub iat until secret alg =
     dec_int (unix_seconds iat) @ ''|'' @ dec_int (unix_seconds until) @ ''|'' @ sub @ ''|'' @ secret"

definition cut :: "string \<Rightarrow> string \<times> string" where
  "cut s = (takeWhile (\<lambda>c. c \<noteq> CHR ''|'') s, drop 1 (dropWhile (\<lambda>c. c \<noteq> CHR ''|'') s))"

definition plain_decode :: "string \<Rightarrow> string \<Rightarrow> string \<Rightarrow> time \<Rightarrow> jwt_outcome" where
  "plain_decode token secret alg now = (let (iat, r) = cut token; (until, r) = cut r; (sub, key) = cut r in
     if key \<noteq> secret then JwtInvalid
     else if read_int until \<le> unix_seconds now then ExpiredSignature
     else Claims [(''sub'', JStr sub), (''iat'', JInt (read_int iat)), (''exp'', JInt (read_int until))])"

definition plain_crypto :: crypto where
  "plain_crypto = \<lparr>argon_hash = (\<lambda>password salt. password),
     argon_verify = (\<lambda>h password. if h = password then Verified else VerifyMismatch),
     jwt_encode = plain_token, jwt_decode = plain_decode\<rparr>"

lemma cut_append: "CHR ''|'' \<notin> set s \<Longrightarrow> cut (s @ ''|'' @ t) = (s, t)"
proof -
  assume s: "CHR ''|'' \<notin> set s"
  then have "\<forall>c \<in> set s. c \<noteq> CHR ''|''" by auto
  then show ?thesis by (simp add: cut_def takeWhile_append dropWhile_append)
qed

lemma dec_nat_no_bar: "CHR ''|'' \<notin> set (dec_nat n)"
  using dec_nat_digits digit_char_ascii by metis

lemma dec_int_no_bar: "CHR ''|'' \<notin> set (dec_int i)"
  by (simp add: dec_int_def dec_nat_no_bar)

lemma read_dec_int: "read_int (dec_int i) = i"
proof (cases "i < 0")
  case True
  then show ?thesis by (simp add: read_int_def dec_int_def)
next
  case False
  obtain c cs where cs: "dec_nat (nat i) = c # cs" using dec_nat_nonempty by (cases "dec_nat (nat i)") auto
  moreover have "CHR ''-'' \<notin> set (dec_nat (nat i))" by simp
  ultimately have "c \<noteq> CHR ''-''" by auto
  moreover have "read_dec (c # cs) = nat i" using cs read_dec_nat [of "nat i"] by simp
  ultimately show ?thesis using False cs by (simp add: read_int_def dec_int_def)
qed

lemma plain_crypto_contracts: "jwt_contract plain_crypto \<and> argon_contract plain_crypto"
proof
  have "plain_decode (plain_token (uuid_str u) iat until secret alg) secret' alg now =
      (if secret' \<noteq> secret then JwtInvalid
       else if unix_seconds until \<le> unix_seconds now then ExpiredSignature
       else Claims [(''sub'', JStr (uuid_str u)), (''iat'', JInt (unix_seconds iat)), (''exp'', JInt (unix_seconds until))])"
    for u iat until secret secret' alg now
    unfolding plain_decode_def plain_token_def
    by (simp add: cut_append [simplified] dec_int_no_bar uuid_str_plain read_dec_int Let_def)
  then show "jwt_contract plain_crypto" by (simp add: jwt_contract_def plain_crypto_def)
  show "argon_contract plain_crypto" by (simp add: argon_contract_def plain_crypto_def)
qed

end
