(* ===== verification/Token_Vector.thy ===== *)
theory Token_Vector
  imports Spin_Vector Security
begin

text \<open>
  Two refresh tokens hashed inside the kernel: the tokens made of the bytes 0 to 31 and 32 to 63,
  a single block of SHA-256 each, for the concrete session of the authentication properties.
\<close>

lemma new_rounds_0:
  "foldl sha_step ([1094796611, 1098338630, 1114071881, 1129410380, 1145122895, 1148731730, 1164463445, 1179801944, 1195535201, 1199077220, 1214789760, 0, 0, 0, 0, 344],
      (1779033703, 3144134277, 1013904242, 2773480762, 1359893119, 2600822924, 528734635, 1541459225))
    [1116352408, 1899447441, 3049323471, 3921009573, 961987163, 1508970993, 2453635748, 2870763221] =
   ([1195535201, 1199077220, 1214789760, 0, 0, 0, 0, 344, 3652669822, 3431005180, 1347280229, 2149041331, 1436461917, 282754996, 4098471056, 3773890601],
    (3791207855, 2675416421, 2384825375, 954892110, 2785163160, 3925010107, 2251874719, 1783594511))"
  by (simp add: sha_eval)

lemma new_rounds_1:
  "foldl sha_step ([1195535201, 1199077220, 1214789760, 0, 0, 0, 0, 344, 3652669822, 3431005180, 1347280229, 2149041331, 1436461917, 282754996, 4098471056, 3773890601],
      (3791207855, 2675416421, 2384825375, 954892110, 2785163160, 3925010107, 2251874719, 1783594511))
    [3624381080, 310598401, 607225278, 1426881987, 1925078388, 2162078206, 2614888103, 3248222580] =
   ([3652669822, 3431005180, 1347280229, 2149041331, 1436461917, 282754996, 4098471056, 3773890601, 3731082745, 1068370538, 1744062785, 437673725, 3194741194, 3639697518, 507155026, 2907344239],
    (2801436423, 3175951156, 3525908912, 3952833688, 3926995611, 1524712490, 564053894, 1162807671))"
  by (simp add: sha_eval)

lemma new_rounds_2:
  "foldl sha_step ([3652669822, 3431005180, 1347280229, 2149041331, 1436461917, 282754996, 4098471056, 3773890601, 3731082745, 1068370538, 1744062785, 437673725, 3194741194, 3639697518, 507155026, 2907344239],
      (2801436423, 3175951156, 3525908912, 3952833688, 3926995611, 1524712490, 564053894, 1162807671))
    [3835390401, 4022224774, 264347078, 604807628, 770255983, 1249150122, 1555081692, 1996064986] =
   ([3731082745, 1068370538, 1744062785, 437673725, 3194741194, 3639697518, 507155026, 2907344239, 331369486, 60238577, 538226439, 3380193354, 3872619565, 1652100840, 2199189412, 3060906275],
    (3395696182, 1712116650, 3723480191, 1109666531, 4212108287, 2491701494, 2735573724, 4071252809))"
  by (simp add: sha_eval)

lemma new_rounds_3:
  "foldl sha_step ([3731082745, 1068370538, 1744062785, 437673725, 3194741194, 3639697518, 507155026, 2907344239, 331369486, 60238577, 538226439, 3380193354, 3872619565, 1652100840, 2199189412, 3060906275],
      (3395696182, 1712116650, 3723480191, 1109666531, 4212108287, 2491701494, 2735573724, 4071252809))
    [2554220882, 2821834349, 2952996808, 3210313671, 3336571891, 3584528711, 113926993, 338241895] =
   ([331369486, 60238577, 538226439, 3380193354, 3872619565, 1652100840, 2199189412, 3060906275, 403775601, 3887866704, 1416117940, 296247211, 3627230297, 2207939048, 887510832, 1184985833],
    (3249384906, 3848242337, 1035844662, 4071534192, 841368902, 2894302658, 1503179092, 3191136508))"
  by (simp add: sha_eval)

lemma new_rounds_4:
  "foldl sha_step ([331369486, 60238577, 538226439, 3380193354, 3872619565, 1652100840, 2199189412, 3060906275, 403775601, 3887866704, 1416117940, 296247211, 3627230297, 2207939048, 887510832, 1184985833],
      (3249384906, 3848242337, 1035844662, 4071534192, 841368902, 2894302658, 1503179092, 3191136508))
    [666307205, 773529912, 1294757372, 1396182291, 1695183700, 1986661051, 2177026350, 2456956037] =
   ([403775601, 3887866704, 1416117940, 296247211, 3627230297, 2207939048, 887510832, 1184985833, 96018630, 280691256, 3437702876, 455647734, 2082899863, 1085276879, 2630286477, 1720155777],
    (662369943, 3119070227, 2342424445, 1323707439, 2501629232, 1445533434, 3007554364, 407377452))"
  by (simp add: sha_eval)

lemma new_rounds_5:
  "foldl sha_step ([403775601, 3887866704, 1416117940, 296247211, 3627230297, 2207939048, 887510832, 1184985833, 96018630, 280691256, 3437702876, 455647734, 2082899863, 1085276879, 2630286477, 1720155777],
      (662369943, 3119070227, 2342424445, 1323707439, 2501629232, 1445533434, 3007554364, 407377452))
    [2730485921, 2820302411, 3259730800, 3345764771, 3516065817, 3600352804, 4094571909, 275423344] =
   ([96018630, 280691256, 3437702876, 455647734, 2082899863, 1085276879, 2630286477, 1720155777, 2158572720, 1924485929, 1887173078, 4082931305, 4223626012, 3982463686, 2065965107, 3336141744],
    (2514428464, 1477860150, 1750507489, 2937502221, 3251529531, 972708685, 2176968480, 614819879))"
  by (simp add: sha_eval)

lemma new_rounds_6:
  "foldl sha_step ([96018630, 280691256, 3437702876, 455647734, 2082899863, 1085276879, 2630286477, 1720155777, 2158572720, 1924485929, 1887173078, 4082931305, 4223626012, 3982463686, 2065965107, 3336141744],
      (2514428464, 1477860150, 1750507489, 2937502221, 3251529531, 972708685, 2176968480, 614819879))
    [430227734, 506948616, 659060556, 883997877, 958139571, 1322822218, 1537002063, 1747873779] =
   ([2158572720, 1924485929, 1887173078, 4082931305, 4223626012, 3982463686, 2065965107, 3336141744, 3207045722, 2139677366, 2898021019, 76767763, 2883606440, 1352736350, 1449781602, 249053107],
    (881460739, 1232003489, 4169584794, 2357911479, 1172144067, 76363727, 2125412321, 1140446423))"
  by (simp add: sha_eval)

lemma new_rounds_7:
  "foldl sha_step ([2158572720, 1924485929, 1887173078, 4082931305, 4223626012, 3982463686, 2065965107, 3336141744, 3207045722, 2139677366, 2898021019, 76767763, 2883606440, 1352736350, 1449781602, 249053107],
      (881460739, 1232003489, 4169584794, 2357911479, 1172144067, 76363727, 2125412321, 1140446423))
    [1955562222, 2024104815, 2227730452, 2361852424, 2428436474, 2756734187, 3204031479, 3329325298] =
   ([3207045722, 2139677366, 2898021019, 76767763, 2883606440, 1352736350, 1449781602, 249053107, 3526668119, 2486698835, 530338198, 2641056262, 1679796941, 1758221955, 3520931203, 2225482295],
    (2155643918, 3269757493, 2201558794, 424299363, 3977330977, 1961615363, 3618775886, 3150918327))"
  by (simp add: sha_eval)

lemma new_block:
  "sha_add (1779033703, 3144134277, 1013904242, 2773480762, 1359893119, 2600822924, 528734635, 1541459225)
     (snd (foldl sha_step ([1094796611, 1098338630, 1114071881, 1129410380, 1145122895, 1148731730, 1164463445, 1179801944, 1195535201, 1199077220, 1214789760, 0, 0, 0, 0, 344], (1779033703, 3144134277, 1013904242, 2773480762, 1359893119, 2600822924, 528734635, 1541459225)) sha_K)) =
   (3934677621, 2118924474, 3215463036, 3197780125, 1042256800, 267470991, 4147510521, 397410256)"
  by (simp only: sha_K_split foldl_append new_rounds_0 new_rounds_1 new_rounds_2 new_rounds_3 new_rounds_4 new_rounds_5 new_rounds_6 new_rounds_7 snd_conv) simp

definition demo_new_token :: string where
  "demo_new_token = ''AAECAwQFBgcICQoLDA0ODxAREhMUFRYXGBkaGxwdHh8''"

lemma new_words:
  "map be_words (sha_blocks (sha_pad (utf8 demo_new_token))) = [[1094796611, 1098338630, 1114071881, 1129410380, 1145122895, 1148731730, 1164463445, 1179801944, 1195535201, 1199077220, 1214789760, 0, 0, 0, 0, 344]]"
  by code_simp

lemma demo_new_token_hash: "sha256 (utf8 demo_new_token) = sha_digest (3934677621, 2118924474, 3215463036, 3197780125, 1042256800, 267470991, 4147510521, 397410256)"
proof -
  have "sha256 m = sha_digest (sha_add sha_init (snd (foldl sha_step (w1, sha_init) sha_K)))"
    if "map be_words (sha_blocks (sha_pad m)) = [w1]" for m w1
    using that by (auto simp: sha256_def sha_block_def)
  from this [OF new_words] show ?thesis unfolding sha_init_def new_block .
qed

lemma next_rounds_0:
  "foldl sha_step ([1229145449, 1232687468, 1248420719, 1263759218, 1279471733, 1283080568, 1298812208, 1314150707, 1329883958, 1333425977, 1349138560, 0, 0, 0, 0, 344],
      (1779033703, 3144134277, 1013904242, 2773480762, 1359893119, 2600822924, 528734635, 1541459225))
    [1116352408, 1899447441, 3049323471, 3921009573, 961987163, 1508970993, 2453635748, 2870763221] =
   ([1329883958, 1333425977, 1349138560, 0, 0, 0, 0, 344, 514099059, 694990365, 1406796538, 1210617254, 4140004670, 2657859344, 2592756717, 2583837980],
    (2208930880, 1587597486, 2714030704, 3859751541, 2871359192, 1214361439, 718899381, 3814887105))"
  by (simp add: sha_eval)

lemma next_rounds_1:
  "foldl sha_step ([1329883958, 1333425977, 1349138560, 0, 0, 0, 0, 344, 514099059, 694990365, 1406796538, 1210617254, 4140004670, 2657859344, 2592756717, 2583837980],
      (2208930880, 1587597486, 2714030704, 3859751541, 2871359192, 1214361439, 718899381, 3814887105))
    [3624381080, 310598401, 607225278, 1426881987, 1925078388, 2162078206, 2614888103, 3248222580] =
   ([514099059, 694990365, 1406796538, 1210617254, 4140004670, 2657859344, 2592756717, 2583837980, 3273582506, 2163040380, 1201915003, 315973745, 957274852, 3065803349, 7935317, 1050790368],
    (49453600, 1696671239, 805207614, 2320794838, 1160603935, 444274284, 4227351386, 1419026265))"
  by (simp add: sha_eval)

lemma next_rounds_2:
  "foldl sha_step ([514099059, 694990365, 1406796538, 1210617254, 4140004670, 2657859344, 2592756717, 2583837980, 3273582506, 2163040380, 1201915003, 315973745, 957274852, 3065803349, 7935317, 1050790368],
      (49453600, 1696671239, 805207614, 2320794838, 1160603935, 444274284, 4227351386, 1419026265))
    [3835390401, 4022224774, 264347078, 604807628, 770255983, 1249150122, 1555081692, 1996064986] =
   ([3273582506, 2163040380, 1201915003, 315973745, 957274852, 3065803349, 7935317, 1050790368, 1519004761, 3442904122, 559766191, 3613077797, 2462028156, 4194798695, 3105159186, 538787602],
    (1575956993, 1476387383, 2006853005, 1921941361, 3370071948, 2236371102, 2294598186, 3799667503))"
  by (simp add: sha_eval)

lemma next_rounds_3:
  "foldl sha_step ([3273582506, 2163040380, 1201915003, 315973745, 957274852, 3065803349, 7935317, 1050790368, 1519004761, 3442904122, 559766191, 3613077797, 2462028156, 4194798695, 3105159186, 538787602],
      (1575956993, 1476387383, 2006853005, 1921941361, 3370071948, 2236371102, 2294598186, 3799667503))
    [2554220882, 2821834349, 2952996808, 3210313671, 3336571891, 3584528711, 113926993, 338241895] =
   ([1519004761, 3442904122, 559766191, 3613077797, 2462028156, 4194798695, 3105159186, 538787602, 612243822, 3927178588, 2801140049, 2696881995, 2498845809, 3599795846, 1543212575, 3921150074],
    (1476491543, 2577389079, 1119810494, 2165273627, 3610075333, 860473034, 1687350557, 216887679))"
  by (simp add: sha_eval)

lemma next_rounds_4:
  "foldl sha_step ([1519004761, 3442904122, 559766191, 3613077797, 2462028156, 4194798695, 3105159186, 538787602, 612243822, 3927178588, 2801140049, 2696881995, 2498845809, 3599795846, 1543212575, 3921150074],
      (1476491543, 2577389079, 1119810494, 2165273627, 3610075333, 860473034, 1687350557, 216887679))
    [666307205, 773529912, 1294757372, 1396182291, 1695183700, 1986661051, 2177026350, 2456956037] =
   ([612243822, 3927178588, 2801140049, 2696881995, 2498845809, 3599795846, 1543212575, 3921150074, 3400200680, 2163715885, 2250571334, 2647491782, 2110206720, 3576963451, 2454933182, 3725378606],
    (1149323853, 267385927, 3313024185, 1903921527, 2606729029, 1735143511, 3660957568, 1925669109))"
  by (simp add: sha_eval)

lemma next_rounds_5:
  "foldl sha_step ([612243822, 3927178588, 2801140049, 2696881995, 2498845809, 3599795846, 1543212575, 3921150074, 3400200680, 2163715885, 2250571334, 2647491782, 2110206720, 3576963451, 2454933182, 3725378606],
      (1149323853, 267385927, 3313024185, 1903921527, 2606729029, 1735143511, 3660957568, 1925669109))
    [2730485921, 2820302411, 3259730800, 3345764771, 3516065817, 3600352804, 4094571909, 275423344] =
   ([3400200680, 2163715885, 2250571334, 2647491782, 2110206720, 3576963451, 2454933182, 3725378606, 3487775520, 2728753453, 2316271458, 3637367469, 4051933694, 2456324464, 3808420549, 2215130729],
    (2007164066, 2778907296, 157875379, 1079555291, 3110436691, 1125388876, 442416659, 1891718707))"
  by (simp add: sha_eval)

lemma next_rounds_6:
  "foldl sha_step ([3400200680, 2163715885, 2250571334, 2647491782, 2110206720, 3576963451, 2454933182, 3725378606, 3487775520, 2728753453, 2316271458, 3637367469, 4051933694, 2456324464, 3808420549, 2215130729],
      (2007164066, 2778907296, 157875379, 1079555291, 3110436691, 1125388876, 442416659, 1891718707))
    [430227734, 506948616, 659060556, 883997877, 958139571, 1322822218, 1537002063, 1747873779] =
   ([3487775520, 2728753453, 2316271458, 3637367469, 4051933694, 2456324464, 3808420549, 2215130729, 455596147, 3409549012, 1977058518, 1280755929, 678319936, 844761649, 1863566948, 3560069487],
    (2583388095, 1910065183, 378153634, 2588213109, 1604057522, 2968398097, 1159790663, 1186942618))"
  by (simp add: sha_eval)

lemma next_rounds_7:
  "foldl sha_step ([3487775520, 2728753453, 2316271458, 3637367469, 4051933694, 2456324464, 3808420549, 2215130729, 455596147, 3409549012, 1977058518, 1280755929, 678319936, 844761649, 1863566948, 3560069487],
      (2583388095, 1910065183, 378153634, 2588213109, 1604057522, 2968398097, 1159790663, 1186942618))
    [1955562222, 2024104815, 2227730452, 2361852424, 2428436474, 2756734187, 3204031479, 3329325298] =
   ([455596147, 3409549012, 1977058518, 1280755929, 678319936, 844761649, 1863566948, 3560069487, 1214045708, 2344185245, 4282341904, 2722663753, 998848643, 3352117828, 1084542162, 3910045499],
    (1694452602, 2907500563, 949278591, 3852929259, 3931958019, 218800183, 3378386108, 1810370364))"
  by (simp add: sha_eval)

lemma next_block:
  "sha_add (1779033703, 3144134277, 1013904242, 2773480762, 1359893119, 2600822924, 528734635, 1541459225)
     (snd (foldl sha_step ([1229145449, 1232687468, 1248420719, 1263759218, 1279471733, 1283080568, 1298812208, 1314150707, 1329883958, 1333425977, 1349138560, 0, 0, 0, 0, 344], (1779033703, 3144134277, 1013904242, 2773480762, 1359893119, 2600822924, 528734635, 1541459225)) sha_K)) =
   (3473486305, 1756667544, 1963182833, 2331442725, 996883842, 2819623107, 3907120743, 3351829589)"
  by (simp only: sha_K_split foldl_append next_rounds_0 next_rounds_1 next_rounds_2 next_rounds_3 next_rounds_4 next_rounds_5 next_rounds_6 next_rounds_7 snd_conv) simp

definition demo_next_token :: string where
  "demo_next_token = ''ICEiIyQlJicoKSorLC0uLzAxMjM0NTY3ODk6Ozw9Pj8''"

lemma next_words:
  "map be_words (sha_blocks (sha_pad (utf8 demo_next_token))) = [[1229145449, 1232687468, 1248420719, 1263759218, 1279471733, 1283080568, 1298812208, 1314150707, 1329883958, 1333425977, 1349138560, 0, 0, 0, 0, 344]]"
  by code_simp

lemma demo_next_token_hash: "sha256 (utf8 demo_next_token) = sha_digest (3473486305, 1756667544, 1963182833, 2331442725, 996883842, 2819623107, 3907120743, 3351829589)"
proof -
  have "sha256 m = sha_digest (sha_add sha_init (snd (foldl sha_step (w1, sha_init) sha_K)))"
    if "map be_words (sha_blocks (sha_pad m)) = [w1]" for m w1
    using that by (auto simp: sha256_def sha_block_def)
  from this [OF next_words] show ?thesis unfolding sha_init_def next_block .
qed

text \<open>An old token whose hash is known from the test vector of the spin.\<close>

definition demo_old_token :: string where
  "demo_old_token = map (\<lambda>b. char_of (unat b)) (map (\<lambda>b. b XOR 0x36) (demo_server_seed @ replicate 32 0)
     @ utf8 (demo_client_seed @ '':1''))"

lemma demo_old_token_hash:
  "sha256 (utf8 demo_old_token) =
   [33, 123, 1, 73, 16, 222, 50, 96, 82, 133, 82, 188, 101, 7, 90, 209, 61, 27, 201, 63, 74, 111, 34, 16, 60, 133, 195, 182, 1, 35, 233, 23]"
proof -
  have byte: "(of_char (char_of (unat b)) :: byte) = b" for b :: byte
  proof -
    have "unat b < 256" using unsigned_less [of b] by simp
    then show ?thesis using of_nat_of_char [of "char_of (unat b)", where ?'a = "8 word"] by simp
  qed
  have "utf8 (map (\<lambda>b. char_of (unat b)) bs) = bs" for bs :: bytes
    by (simp add: utf8_def byte map_idI)
  then show ?thesis using demo_inner by (simp add: demo_old_token_def del: map_append)
qed

lemma demo_tokens_differ: "hash_refresh_token demo_new_token \<noteq> hash_refresh_token demo_old_token"
proof -
  have "hd (sha_digest (3934677621, 2118924474, 3215463036, 3197780125, 1042256800, 267470991, 4147510521, 397410256)) = 234" by (simp add: word_bytes_def) 
  then have "sha256 (utf8 demo_new_token) \<noteq> sha256 (utf8 demo_old_token)"
    unfolding demo_new_token_hash demo_old_token_hash by auto
  then show ?thesis by (simp add: hash_refresh_token_def)
qed

lemma demo_next_token_differs: "hash_refresh_token demo_next_token \<noteq> hash_refresh_token demo_new_token"
  "hash_refresh_token demo_next_token \<noteq> hash_refresh_token demo_old_token"
proof -
  have h: "hd (sha_digest (3934677621, 2118924474, 3215463036, 3197780125, 1042256800, 267470991, 4147510521, 397410256)) = 234" "hd (sha_digest (3473486305, 1756667544, 1963182833, 2331442725, 996883842, 2819623107, 3907120743, 3351829589)) = 207" by (simp_all add: word_bytes_def)
  then have "sha256 (utf8 demo_next_token) \<noteq> sha256 (utf8 demo_new_token)"
    unfolding demo_new_token_hash demo_next_token_hash by auto
  moreover have "sha256 (utf8 demo_next_token) \<noteq> sha256 (utf8 demo_old_token)"
    using h(2) unfolding demo_old_token_hash demo_next_token_hash by auto
  ultimately show "hash_refresh_token demo_next_token \<noteq> hash_refresh_token demo_new_token"
    "hash_refresh_token demo_next_token \<noteq> hash_refresh_token demo_old_token"
    by (simp_all add: hash_refresh_token_def)
qed

end
