(* ===== verification/Auth_Store.thy ===== *)
theory Auth_Store
  imports Idempotency Fairness_Service Security
begin

text \<open>
  \<open>app/repositories/users.py\<close> and \<open>app/repositories/refresh_tokens.py\<close>, with the rows the
  registration adds. \<open>ci\<close> is the case folding of the \<open>CITEXT\<close> column.
\<close>

section \<open>Users\<close>

definition user_get_by_id :: "uuid \<Rightarrow> (world, user_row option) exec" where
  "user_get_by_id uid = gets (\<lambda>w. find (\<lambda>r. u_id r = uid) (users (db w)))"

definition user_get_by_email :: "(string \<Rightarrow> string) \<Rightarrow> string \<Rightarrow> (world, user_row option) exec" where
  "user_get_by_email ci email =
     bind (select_rows users (\<lambda>r. ci (u_email r) = ci email)) (\<lambda>rows.
     lift_sum (scalar_one_or_none rows))"

definition user_create :: "(string \<Rightarrow> string) \<Rightarrow> string \<Rightarrow> string \<Rightarrow> (world, user_row) exec" where
  "user_create ci email password_hash =
     bind uuid4 (\<lambda>uid.
     bind db_now (\<lambda>t.
     insert_into users_update (check_user ci)
       \<lparr>u_id = uid, u_email = email, u_password_hash = password_hash, u_status = ''active'', u_created_at = t\<rparr>))"

definition wallet_create :: "uuid \<Rightarrow> (world, wallet_row) exec" where
  "wallet_create uid =
     bind uuid4 (\<lambda>wid.
     insert_into wallets_update check_wallet
       \<lparr>w_id = wid, w_user_id = uid, w_balance_minor = 0, w_currency = ''EUR''\<rparr>)"

section \<open>Refresh tokens\<close>

definition token_get_by_hash :: "string \<Rightarrow> (world, token_row option) exec" where
  "token_get_by_hash h =
     bind (select_rows refresh_tokens (\<lambda>r. t_token_hash r = h)) (\<lambda>rows.
     lift_sum (scalar_one_or_none rows))"

definition token_create :: "uuid \<Rightarrow> uuid \<Rightarrow> string \<Rightarrow> time \<Rightarrow> (world, token_row) exec" where
  "token_create uid family h expires_at =
     bind uuid4 (\<lambda>tid.
     bind db_now (\<lambda>t.
     insert_into refresh_tokens_update check_token
       \<lparr>t_id = tid, t_user_id = uid, t_family_id = family, t_token_hash = h, t_created_at = t,
        t_expires_at = expires_at, t_revoked_at = None\<rparr>))"

definition token_revoke :: "uuid \<Rightarrow> time \<Rightarrow> (world, unit) exec" where
  "token_revoke tid revoked_at =
     update_rows refresh_tokens_update (\<lambda>r. t_id r = tid) (\<lambda>r. r\<lparr>t_revoked_at := Some revoked_at\<rparr>)"

definition revoke_family :: "uuid \<Rightarrow> time \<Rightarrow> (world, unit) exec" where
  "revoke_family family revoked_at =
     update_rows refresh_tokens_update (\<lambda>r. t_family_id r = family \<and> t_revoked_at r = None)
       (\<lambda>r. r\<lparr>t_revoked_at := Some revoked_at\<rparr>)"

section \<open>The tables of accounts and sessions\<close>

definition users_ok :: "(string \<Rightarrow> string) \<Rightarrow> database \<Rightarrow> bool" where
  "users_ok ci d \<longleftrightarrow> distinct (map u_id (users d)) \<and> distinct (map (ci \<circ> u_email) (users d))"

definition tokens_ok :: "database \<Rightarrow> bool" where
  "tokens_ok d \<longleftrightarrow> distinct (map t_id (refresh_tokens d)) \<and> distinct (map t_token_hash (refresh_tokens d))"

text \<open>A session is a family of tokens; at most one of them is alive.\<close>

definition live_tokens :: "database \<Rightarrow> uuid \<Rightarrow> token_row list" where
  "live_tokens d family = filter (\<lambda>r. t_family_id r = family \<and> t_revoked_at r = None) (refresh_tokens d)"

definition revoked_one :: "uuid \<Rightarrow> time \<Rightarrow> token_row list \<Rightarrow> token_row list" where
  "revoked_one tid t = update_where (\<lambda>r. t_id r = tid) (\<lambda>r. r\<lparr>t_revoked_at := Some t\<rparr>)"

definition revoked_family :: "uuid \<Rightarrow> time \<Rightarrow> token_row list \<Rightarrow> token_row list" where
  "revoked_family family t = update_where (\<lambda>r. t_family_id r = family \<and> t_revoked_at r = None) (\<lambda>r. r\<lparr>t_revoked_at := Some t\<rparr>)"

lemma revoked_keys [simp]:
  "map t_id (revoked_one tid t rows) = map t_id rows" "map t_token_hash (revoked_one tid t rows) = map t_token_hash rows"
  "map t_id (revoked_family fam t rows) = map t_id rows" "map t_token_hash (revoked_family fam t rows) = map t_token_hash rows"
  by (simp_all add: revoked_one_def revoked_family_def)

lemma revoked_key_sets [simp]:
  "t_id ` set (revoked_one tid t rows) = t_id ` set rows" "t_token_hash ` set (revoked_one tid t rows) = t_token_hash ` set rows"
  "t_id ` set (revoked_family fam t rows) = t_id ` set rows"
  "t_token_hash ` set (revoked_family fam t rows) = t_token_hash ` set rows"
  by (simp_all only: set_map [symmetric] revoked_keys)

lemma token_by_hash:
  assumes "tokens_ok d" "row \<in> set (refresh_tokens d)"
  shows "filter (\<lambda>r. t_token_hash r = t_token_hash row) (refresh_tokens d) = [row]"
  using assms by (intro filter_key_singleton) (simp_all add: tokens_ok_def)

lemma revoked_family_none [simp]:
  "filter (\<lambda>r. t_family_id r = fam \<and> t_revoked_at r = None) (revoked_family fam t rows) = []"
  unfolding revoked_family_def by (induction rows) auto

lemma token_rows_update [simp]:
  "refresh_tokens_update (update_where p f) d = d\<lparr>refresh_tokens := update_where p f (refresh_tokens d)\<rparr>"
  by simp

text \<open>Where an identifier or a key is free, an insertion keeps the keys distinct.\<close>

lemma token_create_Val:
  assumes "token_create uid family h expires w = (Val row, w')"
  shows "\<exists>tid. row = \<lparr>t_id = tid, t_user_id = uid, t_family_id = family, t_token_hash = h, t_created_at = tx_time w,
        t_expires_at = expires, t_revoked_at = None\<rparr>
    \<and> tid \<notin> t_id ` set (refresh_tokens (db w)) \<and> h \<notin> t_token_hash ` set (refresh_tokens (db w))
    \<and> db w' = (db w)\<lparr>refresh_tokens := refresh_tokens (db w) @ [row]\<rparr> \<and> tx_time w' = tx_time w"
  using assms by (auto simp: token_create_def exec_simps insert_into_Val_iff check_token_def)

lemma user_create_Val:
  assumes "user_create ci email ph w = (Val row, w')"
  shows "\<exists>uid. row = \<lparr>u_id = uid, u_email = email, u_password_hash = ph, u_status = ''active'', u_created_at = tx_time w\<rparr>
    \<and> uid \<notin> u_id ` set (users (db w)) \<and> ci email \<notin> (ci \<circ> u_email) ` set (users (db w))
    \<and> db w' = (db w)\<lparr>users := users (db w) @ [row]\<rparr> \<and> tx_time w' = tx_time w"
  using assms by (auto simp: user_create_def exec_simps insert_into_Val_iff check_user_def)

lemma wallet_create_Val:
  assumes "wallet_create uid w = (Val row, w')"
  shows "\<exists>wid. row = \<lparr>w_id = wid, w_user_id = uid, w_balance_minor = 0, w_currency = ''EUR''\<rparr>
    \<and> wid \<notin> w_id ` set (wallets (db w)) \<and> uid \<notin> w_user_id ` set (wallets (db w))
    \<and> db w' = (db w)\<lparr>wallets := wallets (db w) @ [row]\<rparr> \<and> tx_time w' = tx_time w"
  using assms by (auto simp: wallet_create_def exec_simps insert_into_Val_iff check_wallet_def)

lemma keeps_auth_store [frame_rules]:
  "keeps f (user_get_by_id uid)" "keeps f (user_get_by_email ci email)" "keeps f (token_get_by_hash h)"
  "(\<And>w n. g (w\<lparr>uuids_drawn := n\<rparr>) = g w) \<Longrightarrow> (\<And>w u. g (w\<lparr>db := users_update u (db w)\<rparr>) = g w) \<Longrightarrow> keeps g (user_create ci email ph)"
  "(\<And>w n. g (w\<lparr>uuids_drawn := n\<rparr>) = g w) \<Longrightarrow> (\<And>w u. g (w\<lparr>db := wallets_update u (db w)\<rparr>) = g w) \<Longrightarrow> keeps g (wallet_create uid)"
  "(\<And>w n. g (w\<lparr>uuids_drawn := n\<rparr>) = g w) \<Longrightarrow> (\<And>w u. g (w\<lparr>db := refresh_tokens_update u (db w)\<rparr>) = g w) \<Longrightarrow> keeps g (token_create uid fam h e)"
  "(\<And>w u. g (w\<lparr>db := refresh_tokens_update u (db w)\<rparr>) = g w) \<Longrightarrow> keeps g (token_revoke tid t)"
  "(\<And>w u. g (w\<lparr>db := refresh_tokens_update u (db w)\<rparr>) = g w) \<Longrightarrow> keeps g (revoke_family fam t)"
  unfolding user_get_by_id_def user_get_by_email_def token_get_by_hash_def user_create_def wallet_create_def
    token_create_def token_revoke_def revoke_family_def
  by (auto intro!: frame_rules)

end
