(* ===== verification/Auth_Service.thy ===== *)
theory Auth_Service
  imports Auth_Store Token_Vector
begin

text \<open>
  \<open>app/services/auth.py\<close> and the authenticated user of \<open>app/api/deps.py\<close>: registration, login,
  the rotation of refresh tokens with the revocation of a stolen session, logout, and the check
  of an access token.
\<close>

section \<open>Operations\<close>

record token_pair =
  access_token :: string
  refresh_token :: string

definition issue_tokens :: "crypto \<Rightarrow> settings \<Rightarrow> uuid \<Rightarrow> uuid \<Rightarrow> (world, token_pair) exec" where
  "issue_tokens cr cfg uid family =
     bind (create_access_token cr uid (JWT_SECRET cfg) (JWT_ALGORITHM cfg) (ACCESS_TOKEN_TTL_SECONDS cfg)) (\<lambda>access.
     bind generate_refresh_token (\<lambda>raw.
     bind now_utc (\<lambda>now.
     bind (token_create uid family (hash_refresh_token raw) (now + seconds (REFRESH_TOKEN_TTL_SECONDS cfg))) (\<lambda>_.
     ret \<lparr>access_token = access, refresh_token = raw\<rparr>))))"

definition register_user ::
  "(string \<Rightarrow> string) \<Rightarrow> crypto \<Rightarrow> settings \<Rightarrow> string \<Rightarrow> string \<Rightarrow> (world, user_row \<times> token_pair) exec" where
  "register_user ci cr cfg email password =
     bind (user_get_by_email ci email) (\<lambda>found.
     if found \<noteq> None then throw EmailAlreadyExistsError
     else
       bind (hash_password cr password) (\<lambda>password_hash.
       bind (user_create ci email password_hash) (\<lambda>user.
       bind new_server_seed (\<lambda>server_seed.
       bind generate_client_seed (\<lambda>client_seed.
       bind (wallet_create (u_id user)) (\<lambda>_.
       bind (create_active (u_id user) server_seed (hash_seed server_seed) client_seed) (\<lambda>_.
       bind uuid4 (\<lambda>family.
       bind (issue_tokens cr cfg (u_id user) family) (\<lambda>tokens.
       ret (user, tokens))))))))))"

definition login ::
  "(string \<Rightarrow> string) \<Rightarrow> crypto \<Rightarrow> settings \<Rightarrow> string \<Rightarrow> string \<Rightarrow> (world, user_row \<times> token_pair) exec" where
  "login ci cr cfg email password =
     bind (user_get_by_email ci email) (\<lambda>found.
     case found of
       None \<Rightarrow> throw InvalidCredentialsError
     | Some user \<Rightarrow>
         bind (lift_sum (verify_password cr password (u_password_hash user))) (\<lambda>ok.
         if \<not> ok then throw InvalidCredentialsError
         else if u_status user = ''suspended'' then throw UserSuspendedError
         else
           bind uuid4 (\<lambda>family.
           bind (issue_tokens cr cfg (u_id user) family) (\<lambda>tokens.
           ret (user, tokens)))))"

text \<open>The refresh in its two halves: the reading and the checks, and the rotation.\<close>

definition check_refresh :: "string \<Rightarrow> (world, token_row \<times> time) exec" where
  "check_refresh raw =
     bind (token_get_by_hash (hash_refresh_token raw)) (\<lambda>found.
     case found of
       None \<Rightarrow> throw InvalidTokenError
     | Some stored \<Rightarrow>
         bind now_utc (\<lambda>now.
         if t_revoked_at stored \<noteq> None then
           bind (revoke_family (t_family_id stored) now) (\<lambda>_.
           bind session_commit (\<lambda>_. throw RefreshTokenReusedError))
         else if t_expires_at stored < now then throw TokenExpiredError
         else ret (stored, now)))"

definition rotate_refresh :: "crypto \<Rightarrow> settings \<Rightarrow> token_row \<times> time \<Rightarrow> (world, token_pair) exec" where
  "rotate_refresh cr cfg sn = (case sn of (stored, now) \<Rightarrow>
     bind (token_revoke (t_id stored) now) (\<lambda>_.
     issue_tokens cr cfg (t_user_id stored) (t_family_id stored)))"

definition refresh_access_token :: "crypto \<Rightarrow> settings \<Rightarrow> string \<Rightarrow> (world, token_pair) exec" where
  "refresh_access_token cr cfg raw = bind (check_refresh raw) (rotate_refresh cr cfg)"

definition logout :: "uuid \<Rightarrow> string \<Rightarrow> (world, unit) exec" where
  "logout uid raw =
     bind (token_get_by_hash (hash_refresh_token raw)) (\<lambda>found.
     case found of
       None \<Rightarrow> ret ()
     | Some stored \<Rightarrow>
         if t_user_id stored \<noteq> uid then ret ()
         else bind now_utc (\<lambda>now. revoke_family (t_family_id stored) now))"

text \<open>The user behind an \<open>Authorization\<close> header.\<close>

definition get_current_user ::
  "crypto \<Rightarrow> (string \<Rightarrow> uuid option) \<Rightarrow> settings \<Rightarrow> string option \<Rightarrow> (world, user_row) exec" where
  "get_current_user cr other_uuid cfg header = (case header of
     None \<Rightarrow> throw InvalidTokenError
   | Some h \<Rightarrow>
       if take 7 h \<noteq> ''Bearer '' then throw InvalidTokenError
       else
         bind (decode_access_token cr other_uuid (drop 7 h) (JWT_SECRET cfg) (JWT_ALGORITHM cfg) (JWT_PREVIOUS_SECRETS cfg)) (\<lambda>uid.
         bind (user_get_by_id uid) (\<lambda>found.
         case found of
           None \<Rightarrow> throw InvalidTokenError
         | Some user \<Rightarrow> if u_status user = ''suspended'' then throw UserSuspendedError else ret user)))"

section \<open>Their effect on the sessions\<close>

lemma issue_tokens_Val:
  assumes "issue_tokens cr cfg uid family w = (Val p, w')"
  shows "\<exists>row. t_user_id row = uid \<and> t_family_id row = family \<and> t_revoked_at row = None
    \<and> t_token_hash row = hash_refresh_token (refresh_token p)
    \<and> t_id row \<notin> t_id ` set (refresh_tokens (db w)) \<and> t_token_hash row \<notin> t_token_hash ` set (refresh_tokens (db w))
    \<and> db w' = (db w)\<lparr>refresh_tokens := refresh_tokens (db w) @ [row]\<rparr>"
proof -
  from assms obtain access raw e row w1 w2 where run:
    "create_access_token cr uid (JWT_SECRET cfg) (JWT_ALGORITHM cfg) (ACCESS_TOKEN_TTL_SECONDS cfg) w = (Val access, w1)"
    "generate_refresh_token w1 = (Val raw, w2)"
    "token_create uid family (hash_refresh_token raw) e (w2\<lparr>ticks := Suc (ticks w2)\<rparr>) = (Val row, w')"
    "p = \<lparr>access_token = access, refresh_token = raw\<rparr>"
    unfolding issue_tokens_def by (auto simp: bind_Val_iff exec_simps)
  have "db w1 = db w" "db w2 = db w1"
    using run(1,2) by (auto simp: create_access_token_def generate_refresh_token_def token_urlsafe_def token_bytes_def
        exec_simps bind_def)
  with token_create_Val [OF run(3)] run(4) show ?thesis by (intro exI [of _ row]) auto
qed

text \<open>A rotation: the presented token dies, its successor lives on in the same session.\<close>

definition successor :: "token_row \<Rightarrow> token_pair \<Rightarrow> token_row \<Rightarrow> bool" where
  "successor stored p row \<longleftrightarrow> t_user_id row = t_user_id stored \<and> t_family_id row = t_family_id stored
     \<and> t_revoked_at row = None \<and> t_token_hash row = hash_refresh_token (refresh_token p)"

lemma check_refresh_Val:
  assumes "check_refresh raw w = (Val (stored, now), w1)"
  shows "stored \<in> set (refresh_tokens (db w)) \<and> t_token_hash stored = hash_refresh_token raw
    \<and> t_revoked_at stored = None \<and> now \<le> t_expires_at stored \<and> db w1 = db w"
  using assms unfolding check_refresh_def token_get_by_hash_def
  by (auto simp: exec_simps bind_Val_iff option_throw_Val_iff lift_sum_Val_iff split: if_splits dest!: filter_eq_single)

lemma rotate_refresh_Val:
  assumes "rotate_refresh cr cfg (stored, now) w = (Val p, w')"
  shows "\<exists>row. successor stored p row
    \<and> t_id row \<notin> t_id ` set (refresh_tokens (db w)) \<and> t_token_hash row \<notin> t_token_hash ` set (refresh_tokens (db w))
    \<and> db w' = (db w)\<lparr>refresh_tokens := revoked_one (t_id stored) now (refresh_tokens (db w)) @ [row]\<rparr>"
proof -
  let ?w2 = "w\<lparr>db := (db w)\<lparr>refresh_tokens := revoked_one (t_id stored) now (refresh_tokens (db w))\<rparr>\<rparr>"
  have "issue_tokens cr cfg (t_user_id stored) (t_family_id stored) ?w2 = (Val p, w')"
    using assms by (simp add: rotate_refresh_def token_revoke_def update_rows_def exec_simps revoked_one_def)
  from issue_tokens_Val [OF this] show ?thesis by (auto simp: successor_def)
qed

lemma refresh_Val:
  assumes "refresh_access_token cr cfg raw w = (Val p, w')"
  shows "\<exists>stored \<in> set (refresh_tokens (db w)). \<exists>row t.
      t_token_hash stored = hash_refresh_token raw \<and> t_revoked_at stored = None \<and> successor stored p row
    \<and> t_id row \<notin> t_id ` set (refresh_tokens (db w)) \<and> t_token_hash row \<notin> t_token_hash ` set (refresh_tokens (db w))
    \<and> db w' = (db w)\<lparr>refresh_tokens := revoked_one (t_id stored) t (refresh_tokens (db w)) @ [row]\<rparr>"
proof -
  from assms obtain stored now w1 where check: "check_refresh raw w = (Val (stored, now), w1)"
    and rot: "rotate_refresh cr cfg (stored, now) w1 = (Val p, w')"
    unfolding refresh_access_token_def by (auto simp: bind_Val_iff)
  from rotate_refresh_Val [OF rot] check_refresh_Val [OF check] show ?thesis by auto
qed

text \<open>Presenting a token that was already rotated or revoked.\<close>

lemma refresh_reused:
  assumes ok: "tokens_ok (db w)" and row: "row \<in> set (refresh_tokens (db w))" "t_token_hash row = hash_refresh_token raw"
    and dead: "t_revoked_at row \<noteq> None"
  shows "\<exists>w' t. unit_of_work (refresh_access_token cr cfg raw) w = (Exc RefreshTokenReusedError, w')
    \<and> db w' = (db w)\<lparr>refresh_tokens := revoked_family (t_family_id row) t (refresh_tokens (db w))\<rparr>"
proof -
  have found: "filter (\<lambda>r. t_token_hash r = hash_refresh_token raw) (refresh_tokens (db w)) = [row]"
    using token_by_hash [OF ok row(1)] row(2) by simp
  show ?thesis
    using dead by (auto simp: unit_of_work_def refresh_access_token_def check_refresh_def token_get_by_hash_def
        exec_simps bind_assoc found revoke_family_def update_rows_def session_commit_def revoked_family_def)
qed

lemma tokens_ok_revoked:
  "tokens_ok d \<Longrightarrow> tokens_ok (d\<lparr>refresh_tokens := revoked_one tid t (refresh_tokens d)\<rparr>)"
  "tokens_ok d \<Longrightarrow> tokens_ok (d\<lparr>refresh_tokens := revoked_family fam t (refresh_tokens d)\<rparr>)"
  by (simp_all add: tokens_ok_def)

lemma tokens_ok_append:
  "tokens_ok d \<Longrightarrow> t_id row \<notin> t_id ` set (refresh_tokens d) \<Longrightarrow> t_token_hash row \<notin> t_token_hash ` set (refresh_tokens d) \<Longrightarrow>
     tokens_ok (d\<lparr>refresh_tokens := refresh_tokens d @ [row]\<rparr>)"
  by (simp add: tokens_ok_def)

section \<open>Sessions\<close>

text \<open>The database after a transaction that returned.\<close>

lemma unit_of_work_db: "unit_of_work m w = (Val x, w') \<Longrightarrow> \<exists>w1. m (start_tx w) = (Val x, w1) \<and> db w' = db w1"
  by (auto simp: unit_of_work_Val)

lemma in_revoked_one: "r \<in> set rows \<Longrightarrow> t_id r = tid \<Longrightarrow> r\<lparr>t_revoked_at := Some t\<rparr> \<in> set (revoked_one tid t rows)"
  by (auto simp: revoked_one_def set_update_where intro!: image_eqI [of _ _ r])

lemma in_revoked_family:
  "r \<in> set rows \<Longrightarrow> t_family_id r = fam \<Longrightarrow> \<exists>r' \<in> set (revoked_family fam t rows). t_token_hash r' = t_token_hash r
     \<and> t_family_id r' = fam \<and> t_revoked_at r' \<noteq> None"
  unfolding revoked_family_def set_update_where
  by (intro bexI [OF _ imageI [of r]]) auto

text \<open>A concrete session: user 1 holds the token whose hash the test vector gives.\<close>

definition demo_session :: world where
  "demo_session = demo_world\<lparr>db := demo_db\<lparr>refresh_tokens :=
     [\<lparr>t_id = 30, t_user_id = 1, t_family_id = 31, t_token_hash = hash_refresh_token demo_old_token,
       t_created_at = 0, t_expires_at = 1000000000000, t_revoked_at = None\<rparr>]\<rparr>\<rparr>"

lemma demo_new_token_bytes: "b64url (map of_nat [0..<32]) = demo_new_token @ ''=''"
  by code_simp

lemma demo_generate: "bytes_drawn w = 0 \<Longrightarrow> byte_source w = of_nat \<Longrightarrow>
    generate_refresh_token w = (Val demo_new_token, w\<lparr>bytes_drawn := 32\<rparr>)"
proof -
  assume w: "bytes_drawn w = 0" "byte_source w = of_nat"
  have "rev (dropWhile (\<lambda>c. c = CHR ''='') (rev (demo_new_token @ ''=''))) = demo_new_token" by code_simp
  with w demo_new_token_bytes show ?thesis
    by (simp add: generate_refresh_token_def token_urlsafe_def token_bytes_def bind_def exec_simps REFRESH_TOKEN_BYTES_def
        del: upt_Suc upt_conv_Cons)
qed

lemma demo_generate_next: "bytes_drawn w = 32 \<Longrightarrow> byte_source w = of_nat \<Longrightarrow>
    generate_refresh_token w = (Val demo_next_token, w\<lparr>bytes_drawn := 64\<rparr>)"
proof -
  assume w: "bytes_drawn w = 32" "byte_source w = of_nat"
  have "b64url (map (\<lambda>i. of_nat (32 + i)) [0..<32]) = demo_next_token @ ''=''" by code_simp
  moreover have "rev (dropWhile (\<lambda>c. c = CHR ''='') (rev (demo_next_token @ ''=''))) = demo_next_token" by code_simp
  ultimately show ?thesis using w
    by (simp add: generate_refresh_token_def token_urlsafe_def token_bytes_def bind_def exec_simps REFRESH_TOKEN_BYTES_def
        del: upt_Suc upt_conv_Cons of_nat_add)
qed

lemma demo_session_ok: "tokens_ok (db demo_session)"
  by (simp add: tokens_ok_def demo_session_def)

lemma demo_refresh:
  obtains p w1 where "unit_of_work (refresh_access_token plain_crypto default_settings demo_old_token) demo_session = (Val p, w1)"
    "refresh_token p = demo_new_token"
proof -
  have "\<exists>p w1. unit_of_work (refresh_access_token plain_crypto default_settings demo_old_token) demo_session = (Val p, w1)
      \<and> refresh_token p = demo_new_token"
    using demo_tokens_differ
    by (simp add: unit_of_work_def refresh_access_token_def check_refresh_def token_get_by_hash_def demo_session_def
        demo_defs exec_simps bind_assoc rotate_refresh_def token_revoke_def update_rows_def issue_tokens_def
        create_access_token_def bind_Val [OF demo_generate] token_create_def bind_insert_into check_token_def check_row_def start_tx_def)
  then show ?thesis using that by blast
qed

text \<open>
  C21: a stolen token ends the session: once a refresh token has been exchanged, presenting it a
  second time is refused as a reuse and revokes every token of the session, the revocation
  outliving the rollback of the failed request; after that the token the exchange issued is
  refused as well and no token of the session is alive, and nothing outside the tokens changed.
\<close>

theorem reuse_ends_session:
  assumes ok: "tokens_ok (db w)"
    and first: "unit_of_work (refresh_access_token cr cfg raw) w = (Val p, w1)"
    and again: "unit_of_work (refresh_access_token cr cfg raw) w1 = (r2, w2)"
    and third: "unit_of_work (refresh_access_token cr cfg (refresh_token p)) w2 = (r3, w3)"
  shows "\<exists>family rows. r2 = Exc RefreshTokenReusedError \<and> r3 = Exc RefreshTokenReusedError
    \<and> live_tokens (db w2) family = [] \<and> live_tokens (db w3) family = []
    \<and> (\<exists>r \<in> set (refresh_tokens (db w)). t_token_hash r = hash_refresh_token raw \<and> t_family_id r = family)
    \<and> db w3 = (db w)\<lparr>refresh_tokens := rows\<rparr>"
proof -
  let ?rows = "refresh_tokens (db w)"
  obtain stored row t where st: "stored \<in> set ?rows" "t_token_hash stored = hash_refresh_token raw"
    "successor stored p row" "t_id row \<notin> t_id ` set ?rows" "t_token_hash row \<notin> t_token_hash ` set ?rows"
    and d1: "db w1 = (db w)\<lparr>refresh_tokens := revoked_one (t_id stored) t ?rows @ [row]\<rparr>"
    using unit_of_work_db [OF first] refresh_Val [of cr cfg raw "start_tx w" p] by auto
  let ?old = "stored\<lparr>t_revoked_at := Some t\<rparr>"
  let ?fam = "t_family_id stored"
  have ok1: "tokens_ok (db w1)" using ok st(4,5) d1 by (simp add: tokens_ok_def)
  have old: "?old \<in> set (refresh_tokens (db w1))" using in_revoked_one [OF st(1) refl] d1 by simp
  obtain w2' t2 where two: "unit_of_work (refresh_access_token cr cfg raw) w1 = (Exc RefreshTokenReusedError, w2')"
    "db w2' = (db w1)\<lparr>refresh_tokens := revoked_family ?fam t2 (refresh_tokens (db w1))\<rparr>"
    using refresh_reused [OF ok1 old, where raw = raw and cr = cr and cfg = cfg] st(2) by auto
  have ok2: "tokens_ok (db w2)" using tokens_ok_revoked(2) [OF ok1] two again by simp
  have "row \<in> set (refresh_tokens (db w1))" "t_family_id row = ?fam" using d1 st(3) by (simp_all add: successor_def)
  from in_revoked_family [OF this, of t2] obtain row' where row': "row' \<in> set (refresh_tokens (db w2))"
    "t_token_hash row' = hash_refresh_token (refresh_token p)" "t_family_id row' = ?fam" "t_revoked_at row' \<noteq> None"
    using two again st(3) by (auto simp: successor_def)
  obtain w3' t3 where three: "unit_of_work (refresh_access_token cr cfg (refresh_token p)) w2 = (Exc RefreshTokenReusedError, w3')"
    "db w3' = (db w2)\<lparr>refresh_tokens := revoked_family ?fam t3 (refresh_tokens (db w2))\<rparr>"
    using refresh_reused [OF ok2 row'(1,2,4), where cr = cr and cfg = cfg] row'(3) by auto
  show ?thesis
    using two again three third st(1,2) d1
    by (intro exI [of _ ?fam] exI [of _ "refresh_tokens (db w3)"]) (auto simp: live_tokens_def)
qed

theorem reuse_ends_session_witness:
  "\<exists>w2 w3. live_tokens (db w2) 31 = [] \<and> live_tokens (db w3) 31 = []
     \<and> (\<exists>w1. unit_of_work (refresh_access_token plain_crypto default_settings demo_old_token) w1 = (Exc RefreshTokenReusedError, w2))
     \<and> unit_of_work (refresh_access_token plain_crypto default_settings demo_new_token) w2 = (Exc RefreshTokenReusedError, w3)"
proof -
  obtain p w1 where first: "unit_of_work (refresh_access_token plain_crypto default_settings demo_old_token) demo_session = (Val p, w1)"
    "refresh_token p = demo_new_token" by (rule demo_refresh)
  obtain r2 w2 where again: "unit_of_work (refresh_access_token plain_crypto default_settings demo_old_token) w1 = (r2, w2)" by force
  obtain r3 w3 where third: "unit_of_work (refresh_access_token plain_crypto default_settings (refresh_token p)) w2 = (r3, w3)" by force
  from reuse_ends_session [OF demo_session_ok first(1) again third] obtain family where f:
    "r2 = Exc RefreshTokenReusedError" "r3 = Exc RefreshTokenReusedError" "live_tokens (db w2) family = []" "live_tokens (db w3) family = []"
    "\<exists>r \<in> set (refresh_tokens (db demo_session)). t_family_id r = family" by blast
  from f(5) have "family = 31" by (simp add: demo_session_def)
  with f again third first(2) show ?thesis by auto
qed

section \<open>Access tokens\<close>

text \<open>
  C22: what an access token is worth: it names its user while one of the configured secrets
  signed it and its time has not run out, and the user is looked up at each use, so a removed
  account is refused and one suspended after the issue loses access at once; a token under a
  secret that is no longer configured is invalid.
\<close>

theorem access_token_authenticates:
  assumes "jwt_contract cr" and "uid < 2 ^ 128"
    and "create_access_token cr uid signing (JWT_ALGORITHM cfg) ttl w = (Val token, w1)"
    and "clock w (ticks w) \<le> clock w2 (ticks w2)"
  shows "fst (get_current_user cr other cfg (Some (''Bearer '' @ token)) w2) =
    (if signing \<noteq> JWT_SECRET cfg \<and> signing \<notin> set (JWT_PREVIOUS_SECRETS cfg) then Exc InvalidTokenError
     else if unix_seconds (clock w (ticks w) + seconds ttl) \<le> unix_seconds (clock w2 (ticks w2)) then Exc TokenExpiredError
     else case find (\<lambda>r. u_id r = uid) (users (db w2)) of
       None \<Rightarrow> Exc InvalidTokenError
     | Some user \<Rightarrow> if u_status user = ''suspended'' then Exc UserSuspendedError else Val user)"
proof -
  from assms(3) have token: "token = jwt_encode cr (uuid_str uid) (clock w (ticks w)) (clock w (ticks w) + seconds ttl) signing (JWT_ALGORITHM cfg)"
    by (simp add: create_access_token_def exec_simps)
  let ?decode = "decode_access_token cr other token (JWT_SECRET cfg) (JWT_ALGORITHM cfg) (JWT_PREVIOUS_SECRETS cfg)"
  obtain r w3 where run: "?decode w2 = (r, w3)" by force
  have "keeps (\<lambda>w. users (db w)) ?decode" by (auto intro!: frame_rules)
  then have db: "users (db w3) = users (db w2)"
    using keepsD [of "\<lambda>w. users (db w)" ?decode w2 r w3] run by simp
  from run decode_signed [OF assms(1,4,2)] token
  have r: "r = (if signing \<noteq> JWT_SECRET cfg \<and> signing \<notin> set (JWT_PREVIOUS_SECRETS cfg) then Exc InvalidTokenError
     else if unix_seconds (clock w (ticks w) + seconds ttl) \<le> unix_seconds (clock w2 (ticks w2)) then Exc TokenExpiredError
     else Val uid)" by (metis fst_conv)
  show ?thesis
    by (cases r) (use r run db in \<open>auto simp: get_current_user_def bind_Val [of ?decode] bind_Exc [of ?decode]
      user_get_by_id_def exec_simps split: option.split if_splits\<close>)
qed

theorem access_token_authenticates_witness:
  "\<exists>token w1. create_access_token plain_crypto 1 ''s'' ''HS256'' 900 demo_world = (Val token, w1)
     \<and> fst (get_current_user plain_crypto (\<lambda>_. None) (default_settings\<lparr>JWT_PREVIOUS_SECRETS := [''s'']\<rparr>) (Some (''Bearer '' @ token)) w1)
       = Val \<lparr>u_id = 1, u_email = ''ana@mail.com'', u_password_hash = ''h'', u_status = ''active'', u_created_at = 0\<rparr>"
proof -
  obtain token w1 where issue: "create_access_token plain_crypto 1 ''s'' ''HS256'' 900 demo_world = (Val token, w1)"
    "w1 = demo_world\<lparr>ticks := 1\<rparr>"
    by (simp add: create_access_token_def exec_simps demo_world_def)
  from access_token_authenticates [where cfg = "default_settings\<lparr>JWT_PREVIOUS_SECRETS := [''s'']\<rparr>" and other = "\<lambda>_. None"
      and ?w2.0 = w1, of plain_crypto 1 "''s''" 900 demo_world token w1] issue plain_crypto_contracts
  show ?thesis by (simp add: default_settings_def demo_defs unix_seconds_def seconds_def)
qed

end
