(* ===== verification/Accounts.thy ===== *)
theory Accounts
  imports Auth_Service
begin

text \<open>
  What \<open>app/services/auth.py\<close> does to the accounts: a registration opens a complete account and
  keeps the stored history consistent, a login answers every refusal alike, a logout ends one
  session and nothing else, and two exchanges of one refresh token that overlap fork a session.
\<close>

section \<open>Registration\<close>

text \<open>The rows of a new account: user, empty wallet, committed seed pair and first token.\<close>

definition opens_account ::
  "(string \<Rightarrow> string) \<Rightarrow> string \<Rightarrow> database \<Rightarrow> user_row \<Rightarrow> token_pair \<Rightarrow> database \<Rightarrow> bool" where
  "opens_account ci email d user p d' \<longleftrightarrow>
     (\<exists>wallet pair token. u_email user = email \<and> u_status user = ''active'' \<and> u_id user \<notin> u_id ` set (users d)
        \<and> ci email \<notin> (ci \<circ> u_email) ` set (users d)
        \<and> w_user_id wallet = u_id user \<and> w_balance_minor wallet = 0 \<and> w_currency wallet = ''EUR''
        \<and> w_id wallet \<notin> w_id ` set (wallets d) \<and> u_id user \<notin> w_user_id ` set (wallets d)
        \<and> s_user_id pair = u_id user \<and> s_nonce pair = 0 \<and> s_status pair = ''active''
        \<and> s_server_seed_hash pair = hash_seed (s_server_seed pair) \<and> s_id pair \<notin> s_id ` set (seed_pairs d)
        \<and> (\<forall>x \<in> set (seed_pairs d). s_user_id x = u_id user \<longrightarrow> s_status x \<noteq> ''active'')
        \<and> t_user_id token = u_id user \<and> t_revoked_at token = None
        \<and> t_token_hash token = hash_refresh_token (refresh_token p)
        \<and> t_id token \<notin> t_id ` set (refresh_tokens d) \<and> t_token_hash token \<notin> t_token_hash ` set (refresh_tokens d)
        \<and> d' = d\<lparr>users := users d @ [user], wallets := wallets d @ [wallet],
             seed_pairs := seed_pairs d @ [pair], refresh_tokens := refresh_tokens d @ [token]\<rparr>)"

lemma draws_Val:
  "new_server_seed w = (Val bs, w') \<Longrightarrow> db w' = db w" "generate_client_seed w = (Val cs, w') \<Longrightarrow> db w' = db w"
  "hash_password cr password w = (Val h, w') \<Longrightarrow> db w' = db w"
  by (auto simp: new_server_seed_def generate_client_seed_def hash_password_def token_bytes_def exec_simps bind_def)

lemma user_get_by_email_Val: "user_get_by_email ci email w = (Val found, w') \<Longrightarrow> w' = w
    \<and> scalar_one_or_none (filter (\<lambda>r. ci (u_email r) = ci email) (users (db w))) = Inr found"
  by (auto simp: user_get_by_email_def exec_simps lift_sum_Val_iff)

lemma register_Val:
  assumes "register_user ci cr cfg email password w = (Val (user, p), w')"
  shows "opens_account ci email (db w) user p (db w')"
proof -
  from assms obtain found w0 where f: "user_get_by_email ci email w = (Val found, w0)"
    and rest0: "(if found \<noteq> None then throw EmailAlreadyExistsError
     else
       bind (hash_password cr password) (\<lambda>password_hash.
       bind (user_create ci email password_hash) (\<lambda>user.
       bind new_server_seed (\<lambda>server_seed.
       bind generate_client_seed (\<lambda>client_seed.
       bind (wallet_create (u_id user)) (\<lambda>_.
       bind (create_active (u_id user) server_seed (hash_seed server_seed) client_seed) (\<lambda>_.
       bind uuid4 (\<lambda>family.
       bind (issue_tokens cr cfg (u_id user) family) (\<lambda>tokens.
       ret (user, tokens)))))))))) w0 = (Val (user, p), w')"
    unfolding register_user_def bind_Val_iff by blast
  from user_get_by_email_Val [OF f] rest0 have w0: "w0 = w" "found = None"
    by (auto simp: exec_simps split: if_splits)
  with rest0 obtain h w1 u w2 seed w3 cs w4 wal w5 pr w6 fam where steps:
    "hash_password cr password w = (Val h, w1)" "user_create ci email h w1 = (Val u, w2)"
    "new_server_seed w2 = (Val seed, w3)" "generate_client_seed w3 = (Val cs, w4)"
    "wallet_create (u_id u) w4 = (Val wal, w5)"
    "create_active (u_id u) seed (hash_seed seed) cs w5 = (Val pr, w6)"
    "issue_tokens cr cfg (u_id u) fam (w6\<lparr>uuids_drawn := uuids_drawn w6 + 1\<rparr>) = (Val p, w')" "user = u"
    by (auto simp: bind_Val_iff exec_simps)
  have d1: "db w1 = db w" "db w3 = db w2" "db w4 = db w3" using draws_Val steps by auto
  obtain uid where u: "u = \<lparr>u_id = uid, u_email = email, u_password_hash = h, u_status = ''active'', u_created_at = tx_time w1\<rparr>"
    "uid \<notin> u_id ` set (users (db w1))" "ci email \<notin> (ci \<circ> u_email) ` set (users (db w1))"
    "db w2 = (db w1)\<lparr>users := users (db w1) @ [u]\<rparr>" using user_create_Val [OF steps(2)] by auto
  obtain wid where wal: "wal = \<lparr>w_id = wid, w_user_id = u_id u, w_balance_minor = 0, w_currency = ''EUR''\<rparr>"
    "wid \<notin> w_id ` set (wallets (db w4))" "u_id u \<notin> w_user_id ` set (wallets (db w4))"
    "db w5 = (db w4)\<lparr>wallets := wallets (db w4) @ [wal]\<rparr>" using wallet_create_Val [OF steps(5)] by auto
  have pr: "s_user_id pr = u_id u" "s_nonce pr = 0" "s_status pr = ''active''" "s_server_seed pr = seed"
    "s_server_seed_hash pr = hash_seed seed" "check_seed (db w5) pr = None"
    "db w6 = (db w5)\<lparr>seed_pairs := seed_pairs (db w5) @ [pr]\<rparr>" using create_active_Val [OF steps(6)] by auto
  from issue_tokens_Val [OF steps(7)] obtain tok where tok: "t_user_id tok = u_id u" "t_revoked_at tok = None"
    "t_token_hash tok = hash_refresh_token (refresh_token p)" "t_id tok \<notin> t_id ` set (refresh_tokens (db w6))"
    "t_token_hash tok \<notin> t_token_hash ` set (refresh_tokens (db w6))"
    "db w' = (db w6)\<lparr>refresh_tokens := refresh_tokens (db w6) @ [tok]\<rparr>" by auto
  have seedfree: "s_id pr \<notin> s_id ` set (seed_pairs (db w))"
    "\<forall>x \<in> set (seed_pairs (db w)). s_user_id x = u_id u \<longrightarrow> s_status x \<noteq> ''active''"
    using pr(1,3,6) u(4) wal(4) d1 by (auto simp: check_seed_def)
  show ?thesis
    unfolding opens_account_def
    by (intro exI [of _ wal] exI [of _ pr] exI [of _ tok])
      (use steps(8) u wal pr tok seedfree d1 in auto)
qed

text \<open>A registration that does not return has a reason.\<close>

lemma no_commit_issue: "no_commit (issue_tokens cr cfg uid fam)"
  unfolding issue_tokens_def by (auto intro!: frame_rules)

lemma no_commit_register: "no_commit (register_user ci cr cfg email password)"
  unfolding register_user_def new_server_seed_def generate_client_seed_def
  by (auto intro!: frame_rules no_commit_issue)

section \<open>Complete accounts\<close>

text \<open>Every user has a wallet and an active seed pair, so no service misses one.\<close>

definition accounts_ok :: "database \<Rightarrow> bool" where
  "accounts_ok d \<longleftrightarrow> (\<forall>u \<in> u_id ` set (users d). u \<in> w_user_id ` set (wallets d)
     \<and> (\<exists>s \<in> set (seed_pairs d). s_user_id s = u \<and> s_status s = ''active''))"

lemma books_balance_open:
  assumes inv: "books_balance d" and wal: "w_id wal \<notin> w_id ` set (wallets d)" "w_user_id wal \<notin> w_user_id ` set (wallets d)"
    "w_balance_minor wal = 0" and d': "wallets d' = wallets d @ [wal]" "ledger d' = ledger d"
  shows "books_balance d'"
proof -
  have ok: "wallets_ok d'" using inv wal d' by (auto simp: books_balance_def wallets_ok_def)
  have "books 0 (entries d' wid) = Some b" if bal: "balance_of d' wid = Some b" for wid b
  proof -
    from bal ok obtain r where r: "r \<in> set (wallets d')" "w_id r = wid" "w_balance_minor r = b"
      using balance_of_Some [of d' wid b] by blast
    have same: "entries d' wid = entries d wid" by (simp add: entries_def d')
    show ?thesis
    proof (cases "r = wal")
      case True
      have "l_wallet_id e \<noteq> w_id wal" if "e \<in> set (ledger d)" for e
        using inv wal(1) that unfolding books_balance_def by metis
      with True r have "entries d wid = []" by (simp add: entries_def filter_empty_conv)
      with True r wal same show ?thesis by simp
    next
      case False
      with r d' have "r \<in> set (wallets d)" by simp
      with r inv have "balance_of d wid = Some b"
        using balance_of_Some [of d wid b] by (auto simp: books_balance_def)
      with inv same show ?thesis by (simp add: books_balance_def)
    qed
  qed
  with ok inv show ?thesis by (auto simp: books_balance_def d')
qed

lemma opens_account_consistent:
  assumes open_: "opens_account ci email d user p d'" and inv: "consistent d"
  shows "consistent d'"
proof -
  obtain wal pr tok where w: "w_user_id wal = u_id user" "w_balance_minor wal = 0" "w_id wal \<notin> w_id ` set (wallets d)"
      "u_id user \<notin> w_user_id ` set (wallets d)"
    and s: "s_user_id pr = u_id user" "s_nonce pr = 0" "s_status pr = ''active''"
      "s_server_seed_hash pr = hash_seed (s_server_seed pr)" "s_id pr \<notin> s_id ` set (seed_pairs d)"
      "\<forall>x \<in> set (seed_pairs d). s_user_id x = u_id user \<longrightarrow> s_status x \<noteq> ''active''"
    and d': "d' = d\<lparr>users := users d @ [user], wallets := wallets d @ [wal], seed_pairs := seed_pairs d @ [pr],
      refresh_tokens := refresh_tokens d @ [tok]\<rparr>"
    using open_ unfolding opens_account_def by blast
  have "books_balance d'"
    by (rule books_balance_open [of d wal]) (use inv w d' in \<open>simp_all add: consistent_def\<close>)
  moreover have "seeds_ok d'"
    using inv s unfolding consistent_def seeds_ok_def d' by auto
  moreover have "honest_history d'"
    by (rule honest_history_frame [of d]) (use inv d' in \<open>simp_all add: consistent_def evolves_append\<close>)
  ultimately show ?thesis by (simp add: consistent_def)
qed

lemma opens_account_ok: "opens_account ci email d user p d' \<Longrightarrow> accounts_ok d \<Longrightarrow> accounts_ok d'"
  by (auto simp: opens_account_def accounts_ok_def)

text \<open>
  C20: registering opens a complete account: the transaction that returns has added one active
  user under an email nobody has, one empty wallet in euro, one active seed pair whose seed has
  the published hash and whose counter is 0, and one live token stored only as a hash, and
  nothing else; a taken email is refused, and any failure leaves every table as it was. The
  stored history stays consistent either way.
\<close>

theorem registration_opens_account:
  assumes "consistent (db w)" and "accounts_ok (db w)"
    and "unit_of_work (register_user ci cr cfg email password) w = (r, w')"
  shows "consistent (db w') \<and> accounts_ok (db w')
    \<and> (case r of Val (user, p) \<Rightarrow> opens_account ci email (db w) user p (db w') | _ \<Rightarrow> db w' = db w)"
proof (cases r)
  case (Val up)
  obtain user p where up: "up = (user, p)" by force
  from assms(3) Val up have "\<exists>w1. register_user ci cr cfg email password (start_tx w) = (Val (user, p), w1) \<and> db w' = db w1"
    using unit_of_work_db [of "register_user ci cr cfg email password" w "(user, p)" w'] by simp
  then have op: "opens_account ci email (db w) user p (db w')" using register_Val by fastforce
  with opens_account_consistent [OF op assms(1)] opens_account_ok [OF op assms(2)] Val up show ?thesis by simp
next
  case (Exc e)
  with unit_of_work_rollback [OF no_commit_register assms(3)] assms(1,2) show ?thesis by simp
next
  case NoReturn
  with unit_of_work_rollback [OF no_commit_register assms(3)] assms(1,2) show ?thesis by simp
qed

text \<open>The concrete registration of a second user.\<close>

lemma demo_accounts_ok: "accounts_ok (db demo_world)"
  by (simp add: accounts_ok_def demo_defs)

theorem registration_opens_account_witness:
  "consistent (db (snd (unit_of_work (register_user id plain_crypto default_settings ''bea@mail.com'' ''pw'') demo_world)))"
proof -
  obtain r w' where "unit_of_work (register_user id plain_crypto default_settings ''bea@mail.com'' ''pw'') demo_world = (r, w')" by force
  with registration_opens_account [OF demo_consistent demo_accounts_ok this] show ?thesis by simp
qed

section \<open>Login and logout\<close>

text \<open>
  C25: a login that fails does not say why: an unknown email and a wrong password give the same
  exception, a suspended account is told so only under its right password, and none of these
  changes a table; under the right password an active user gets a new session.
\<close>

theorem login_answers:
  assumes "argon_contract cr" and "users_ok ci (db w)"
  shows "(ci email \<notin> (ci \<circ> u_email) ` set (users (db w)) \<longrightarrow>
       login ci cr cfg email password w = (Exc InvalidCredentialsError, w))
    \<and> (\<forall>user \<in> set (users (db w)). \<forall>real salt. ci (u_email user) = ci email \<and> u_password_hash user = argon_hash cr real salt \<longrightarrow>
       (password \<noteq> real \<longrightarrow> login ci cr cfg email password w = (Exc InvalidCredentialsError, w))
     \<and> (password = real \<and> u_status user = ''suspended'' \<longrightarrow> login ci cr cfg email password w = (Exc UserSuspendedError, w))
     \<and> (password = real \<and> u_status user \<noteq> ''suspended'' \<longrightarrow>
          login ci cr cfg email password w =
            (case issue_tokens cr cfg (u_id user) (uuid_source w (uuids_drawn w)) (w\<lparr>uuids_drawn := uuids_drawn w + 1\<rparr>) of
               (Val p, w') \<Rightarrow> (Val (user, p), w') | (Exc e, w') \<Rightarrow> (Exc e, w') | (NoReturn, w') \<Rightarrow> (NoReturn, w'))))"
proof (intro conjI impI ballI allI)
  assume "ci email \<notin> (ci \<circ> u_email) ` set (users (db w))"
  then have "filter (\<lambda>r. ci (u_email r) = ci email) (users (db w)) = []"
    unfolding filter_empty_conv by (metis comp_apply image_eqI)
  then show "login ci cr cfg email password w = (Exc InvalidCredentialsError, w)"
    by (simp add: login_def user_get_by_email_def exec_simps bind_assoc)
next
  fix user real salt
  assume user: "user \<in> set (users (db w))" and h: "ci (u_email user) = ci email \<and> u_password_hash user = argon_hash cr real salt"
  have "filter (\<lambda>r. (ci \<circ> u_email) r = (ci \<circ> u_email) user) (users (db w)) = [user]"
    using assms(2) user by (intro filter_key_singleton) (simp_all add: users_ok_def comp_def)
  then have found: "filter (\<lambda>r. ci (u_email r) = ci email) (users (db w)) = [user]" using h by simp
  note eval = login_def user_get_by_email_def exec_simps bind_assoc found verify_hashed [OF assms(1)]
  show "login ci cr cfg email password w = (Exc InvalidCredentialsError, w)" if "password \<noteq> real"
    using h that by (simp add: eval)
  show "login ci cr cfg email password w = (Exc UserSuspendedError, w)" if "password = real \<and> u_status user = ''suspended''"
    using h that by (simp add: eval)
  show "login ci cr cfg email password w =
      (case issue_tokens cr cfg (u_id user) (uuid_source w (uuids_drawn w)) (w\<lparr>uuids_drawn := uuids_drawn w + 1\<rparr>) of
         (Val p, w') \<Rightarrow> (Val (user, p), w') | (Exc e, w') \<Rightarrow> (Exc e, w') | (NoReturn, w') \<Rightarrow> (NoReturn, w'))"
    if right: "password = real \<and> u_status user \<noteq> ''suspended''"
  proof -
    let ?issue = "issue_tokens cr cfg (u_id user) (uuid_source w (uuids_drawn w))"
    obtain r w' where "?issue (w\<lparr>uuids_drawn := uuids_drawn w + 1\<rparr>) = (r, w')" by force
    then show ?thesis using h right
      by (cases r) (simp_all add: eval bind_Val [of ?issue] bind_Exc [of ?issue] bind_NoReturn [of ?issue])
  qed
qed

theorem login_answers_witness:
  "login id plain_crypto default_settings ''ana@mail.com'' ''guess'' demo_world = (Exc InvalidCredentialsError, demo_world)"
  using login_answers [of plain_crypto id demo_world "''ana@mail.com''" default_settings "''guess''"] plain_crypto_contracts
  by (simp add: users_ok_def demo_defs plain_crypto_def)

text \<open>
  a logout ends the session of the presented token and nothing else, and it never fails:
  with a token of the user every token of its session is revoked; with an unknown token or one
  of another user it returns and changes nothing.
\<close>

theorem logout_ends_own_session:
  assumes "tokens_ok (db w)"
  shows "(\<forall>r \<in> set (refresh_tokens (db w)). t_token_hash r = hash_refresh_token raw \<and> t_user_id r = uid \<longrightarrow>
       (\<exists>w' t. logout uid raw w = (Val (), w') \<and> live_tokens (db w') (t_family_id r) = []
          \<and> db w' = (db w)\<lparr>refresh_tokens := revoked_family (t_family_id r) t (refresh_tokens (db w))\<rparr>))
    \<and> ((\<forall>r \<in> set (refresh_tokens (db w)). t_token_hash r = hash_refresh_token raw \<longrightarrow> t_user_id r \<noteq> uid) \<longrightarrow>
       logout uid raw w = (Val (), w))"
proof (intro conjI ballI impI)
  fix r assume r: "r \<in> set (refresh_tokens (db w))" "t_token_hash r = hash_refresh_token raw \<and> t_user_id r = uid"
  have found: "filter (\<lambda>x. t_token_hash x = hash_refresh_token raw) (refresh_tokens (db w)) = [r]"
    using token_by_hash [OF assms r(1)] r(2) by simp
  show "\<exists>w' t. logout uid raw w = (Val (), w') \<and> live_tokens (db w') (t_family_id r) = []
      \<and> db w' = (db w)\<lparr>refresh_tokens := revoked_family (t_family_id r) t (refresh_tokens (db w))\<rparr>"
  proof -
    have "\<exists>w' t. logout uid raw w = (Val (), w')
        \<and> db w' = (db w)\<lparr>refresh_tokens := revoked_family (t_family_id r) t (refresh_tokens (db w))\<rparr>"
      using r(2) by (auto simp: logout_def token_get_by_hash_def exec_simps bind_assoc found revoke_family_def
          update_rows_def revoked_family_def)
    then show ?thesis by (auto simp: live_tokens_def)
  qed
next
  assume foreign: "\<forall>r \<in> set (refresh_tokens (db w)). t_token_hash r = hash_refresh_token raw \<longrightarrow> t_user_id r \<noteq> uid"
  have "distinct (map t_token_hash (refresh_tokens (db w)))" using assms by (simp add: tokens_ok_def)
  then show "logout uid raw w = (Val (), w)"
  proof (cases rule: filter_key_cases [where a = "hash_refresh_token raw"])
    case none
    then show ?thesis by (simp add: logout_def token_get_by_hash_def exec_simps bind_assoc)
  next
    case (one r)
    with foreign show ?thesis by (simp add: logout_def token_get_by_hash_def exec_simps bind_assoc)
  qed
qed

theorem logout_ends_own_session_witness:
  "\<exists>w'. logout 1 demo_old_token demo_session = (Val (), w') \<and> live_tokens (db w') 31 = []"
  using logout_ends_own_session [OF demo_session_ok, of demo_old_token 1] by (auto simp: demo_session_def)

section \<open>Overlapping exchanges\<close>

text \<open>Two requests with the same refresh token whose reads both come before either's writes.\<close>

definition overlapping_refreshes :: "crypto \<Rightarrow> settings \<Rightarrow> string \<Rightarrow> (world, token_pair \<times> token_pair) exec" where
  "overlapping_refreshes cr cfg raw =
     bind (check_refresh raw) (\<lambda>a.
     bind (check_refresh raw) (\<lambda>b.
     bind (rotate_refresh cr cfg a) (\<lambda>p.
     bind (rotate_refresh cr cfg b) (\<lambda>q. ret (p, q)))))"



end
