(* ===== verification/Application.thy ===== *)
theory Application
  imports Accounts Roulette_Service Idempotency_Machine Outbox_Machine
begin

text \<open>
  The services together: the transactions of the application as one step relation over the
  tables, in any order and with any outcome, and what holds in every state it can reach from an
  empty database. A service is safe when it does not commit by itself and keeps the invariant
  of the tables whenever it returns; \<open>unit_of_work\<close> then keeps it in every case.
\<close>

section \<open>The invariant of the tables\<close>

definition tables_ok :: "database \<Rightarrow> bool" where
  "tables_ok d \<longleftrightarrow> consistent d \<and> accounts_ok d \<and> idem_ok d \<and> tokens_ok d"

definition empty_db :: database where
  "empty_db = \<lparr>users = [], wallets = [], ledger = [], seed_pairs = [], rounds = [], bets = [],
     idem_keys = [], refresh_tokens = [], outbox = []\<rparr>"

lemma empty_db_ok: "tables_ok empty_db"
  by (simp add: tables_ok_def consistent_def books_balance_def wallets_ok_def balance_of_def seeds_ok_def
      honest_history_def accounts_ok_def idem_ok_def tokens_ok_def empty_db_def)

text \<open>Statements on keys, tokens and events leave the rest of the invariant alone.\<close>

lemma tables_ok_idem: "tables_ok d \<Longrightarrow> idem_ok (d\<lparr>idem_keys := rows\<rparr>) \<Longrightarrow> tables_ok (d\<lparr>idem_keys := rows\<rparr>)"
  using consistent_frame [of d "d\<lparr>idem_keys := rows\<rparr>"] by (simp add: tables_ok_def accounts_ok_def tokens_ok_def)

lemma tables_ok_tokens: "tables_ok d \<Longrightarrow> tokens_ok (d\<lparr>refresh_tokens := rows\<rparr>) \<Longrightarrow> tables_ok (d\<lparr>refresh_tokens := rows\<rparr>)"
  using consistent_frame [of d "d\<lparr>refresh_tokens := rows\<rparr>"] by (simp add: tables_ok_def accounts_ok_def idem_ok_def)

lemma tables_ok_outbox: "tables_ok d \<Longrightarrow> tables_ok (d\<lparr>outbox := rows\<rparr>)"
  using consistent_frame [of d "d\<lparr>outbox := rows\<rparr>"] by (simp add: tables_ok_def accounts_ok_def idem_ok_def tokens_ok_def)

lemma tables_ok_outbox_update: "tables_ok d \<Longrightarrow> tables_ok (outbox_update f d)"
  using tables_ok_outbox [of d "f (outbox d)"] by (cases d) simp

lemma accounts_ok_frame:
  assumes "accounts_ok d" "users d' = users d" "w_user_id ` set (wallets d) \<subseteq> w_user_id ` set (wallets d')"
    and "\<And>s. s \<in> set (seed_pairs d) \<Longrightarrow> s_status s = ''active'' \<Longrightarrow>
      \<exists>s' \<in> set (seed_pairs d'). s_user_id s' = s_user_id s \<and> s_status s' = ''active''"
  shows "accounts_ok d'"
  unfolding accounts_ok_def
proof (rule ballI, rule conjI)
  fix u assume u: "u \<in> u_id ` set (users d')"
  have "u \<in> u_id ` set (users d)" using u assms(2) by simp
  with assms(1) have "u \<in> w_user_id ` set (wallets d) \<and> (\<exists>s \<in> set (seed_pairs d). s_user_id s = u \<and> s_status s = ''active'')"
    unfolding accounts_ok_def by (rule bspec)
  then have old: "u \<in> w_user_id ` set (wallets d)" "\<exists>s \<in> set (seed_pairs d). s_user_id s = u \<and> s_status s = ''active''"
    by (rule conjunct1, rule conjunct2)
  show "u \<in> w_user_id ` set (wallets d')" using old(1) assms(3) by (rule subsetD [rotated])
  show "\<exists>s \<in> set (seed_pairs d'). s_user_id s = u \<and> s_status s = ''active''"
    using old(2) assms(4) by force
qed

lemma add_balance_users [simp]: "w_user_id ` set (add_balance wid n rows) = w_user_id ` set rows"
proof -
  have "map w_user_id (add_balance wid n rows) = map w_user_id rows" by (simp add: add_balance_def)
  then show ?thesis by (metis set_map)
qed

lemma bump_nonce_active:
  "s \<in> set ss \<Longrightarrow> \<exists>s' \<in> set (bump_nonce pid ss). s_user_id s' = s_user_id s \<and> s_status s' = s_status s"
  unfolding bump_nonce_def set_update_where by (intro bexI [OF _ imageI [of s]]) auto

lemma append_active:
  "s \<in> set ss \<Longrightarrow> s_status s = ''active'' \<Longrightarrow> \<exists>s' \<in> set (ss @ xs). s_user_id s' = s_user_id s \<and> s_status s' = ''active''"
  by auto

section \<open>Safe services\<close>

locale safe_service =
  fixes m :: "(world, 'a) exec"
  assumes own_commit: "no_commit m"
    and keeps_tables: "m w = (Val x, w') \<Longrightarrow> tables_ok (db w) \<Longrightarrow> tables_ok (db w')"
begin

lemma transaction_keeps_tables:
  "unit_of_work m w = (r, w') \<Longrightarrow> tables_ok (db w) \<Longrightarrow> tables_ok (db w')"
  by (rule unit_of_work_invariant [OF own_commit, where I = tables_ok]) (auto intro: keeps_tables)

end

text \<open>The work of a deposit and of a round, as \<open>run_idempotent\<close> gets it.\<close>

definition bet_work :: "settings \<Rightarrow> uuid \<Rightarrow> string \<Rightarrow> bet_request list \<Rightarrow> (world, json) exec" where
  "bet_work cfg uid key reqs = bind (place_bet cfg uid key reqs) (\<lambda>v. ret (place_bet_result_to_dict v))"

lemma deposit_keeps_tables:
  assumes inv: "tables_ok (db w)" and run: "deposit cfg uid key amount w = (Val v, w')"
  shows "tables_ok (db w')"
proof -
  have books: "books_balance (db w)" using inv by (simp add: tables_ok_def consistent_def)
  from deposit_Val [OF _ run] books obtain wid n es evs where
    d: "db w' = (db w)\<lparr>wallets := add_balance wid n (wallets (db w)), ledger := es, outbox := evs\<rparr>"
    by (auto simp: books_balance_def Let_def)
  have "consistent (db w')"
    unfolding consistent_def
  proof (intro conjI)
    show "books_balance (db w')" by (rule deposit_books [OF books run])
    show "seeds_ok (db w')" using inv d by (simp add: tables_ok_def consistent_def seeds_ok_def)
    show "honest_history (db w')"
      by (rule honest_history_frame [of "db w"]) (use inv d in \<open>simp_all add: tables_ok_def consistent_def\<close>)
  qed
  moreover have "accounts_ok (db w')"
    by (rule accounts_ok_frame [of "db w"]) (use inv d in \<open>auto simp: tables_ok_def\<close>)
  ultimately show ?thesis using inv d by (simp add: tables_ok_def idem_ok_def tokens_ok_def)
qed

lemma place_bet_keeps_tables:
  assumes inv: "tables_ok (db w)" and run: "place_bet cfg uid key reqs w = (Val v, w')"
  shows "tables_ok (db w')"
proof -
  have cons: "consistent (db w)" using inv by (simp add: tables_ok_def)
  have "settles cfg uid key (placed_bets_of reqs) (tx_time w) (db w) v (db w')"
    by (rule place_bet_Val [OF _ _ run]) (use cons in \<open>simp_all add: consistent_def books_balance_def\<close>)
  then obtain wid n pid rs bs es evs where
    d: "db w' = (db w)\<lparr>wallets := add_balance wid n (wallets (db w)), seed_pairs := bump_nonce pid (seed_pairs (db w)),
      rounds := rs, bets := bs, ledger := es, outbox := evs\<rparr>"
    unfolding settles_def Let_def by blast
  have "accounts_ok (db w')"
    by (rule accounts_ok_frame [of "db w"]) (use inv d bump_nonce_active in \<open>fastforce simp: tables_ok_def\<close>)+
  with place_bet_consistent [OF cons run] inv d show ?thesis by (simp add: tables_ok_def idem_ok_def tokens_ok_def)
qed

lemma rotate_keeps_tables:
  assumes inv: "tables_ok (db w)" and run: "rotate_seed uid w = (Val v, w')"
  shows "tables_ok (db w')"
proof -
  from rotate_seed_Val [OF run] obtain current new_pair :: seed_row and t where
    one: "filter (\<lambda>r. s_user_id r = uid \<and> s_status r = ''active'') (seed_pairs (db w)) = [current]"
    and new: "s_user_id new_pair = uid" "s_status new_pair = ''active''"
    and d: "db w' = (db w)\<lparr>seed_pairs := reveal_pair (s_id current) t (seed_pairs (db w)) @ [new_pair]\<rparr>"
    by (elim exE conjE) (rule that; assumption)
  have cur: "current \<in> set (seed_pairs (db w))" "s_user_id current = uid" using filter_eq_single [OF one] by auto
  have distinct: "distinct (map s_id (seed_pairs (db w)))" using inv by (simp add: tables_ok_def consistent_def seeds_ok_def)
  have "accounts_ok (db w')"
  proof (rule accounts_ok_frame [of "db w"])
    fix s assume s: "s \<in> set (seed_pairs (db w))" "s_status s = ''active''"
    show "\<exists>s' \<in> set (seed_pairs (db w')). s_user_id s' = s_user_id s \<and> s_status s' = ''active''"
    proof (cases "s_id s = s_id current")
      case True
      with s(1) cur distinct have "s = current" by (auto simp: distinct_map dest: inj_onD)
      with cur(2) new d show ?thesis by auto
    next
      case False
      with s have "s \<in> set (reveal_pair (s_id current) t (seed_pairs (db w)))" by (auto simp: in_reveal_pair)
      with s(2) d show ?thesis by auto
    qed
  qed (use inv d in \<open>simp_all add: tables_ok_def\<close>)
  with rotate_seed_consistent [OF _ run] inv d show ?thesis by (simp add: tables_ok_def idem_ok_def tokens_ok_def)
qed


text \<open>Registration adds a complete account, the sessions only touch the tokens.\<close>

lemma register_keeps_tables:
  assumes inv: "tables_ok (db w)" and run: "register_user ci cr cfg email password w = (Val up, w')"
  shows "tables_ok (db w')"
proof -
  obtain user p where up: "up = (user, p)" by force
  have op: "opens_account ci email (db w) user p (db w')" by (rule register_Val [OF run [unfolded up]])
  have "consistent (db w')" "accounts_ok (db w')"
    using opens_account_consistent [OF op] opens_account_ok [OF op] inv by (simp_all add: tables_ok_def)
  then show ?thesis using op inv by (auto simp: tables_ok_def idem_ok_def tokens_ok_def opens_account_def)
qed

lemma login_Val:
  assumes "login ci cr cfg email password w = (Val (user, p), w')"
  shows "\<exists>row. t_id row \<notin> t_id ` set (refresh_tokens (db w)) \<and> t_token_hash row \<notin> t_token_hash ` set (refresh_tokens (db w))
    \<and> db w' = (db w)\<lparr>refresh_tokens := refresh_tokens (db w) @ [row]\<rparr>"
proof -
  have "\<exists>fam w1. db w1 = db w \<and> issue_tokens cr cfg (u_id user) fam w1 = (Val p, w')"
    using assms unfolding login_def user_get_by_email_def
    by (auto simp: exec_simps bind_Val_iff lift_sum_Val_iff split: option.splits if_splits
        intro!: exI [of _ "w\<lparr>uuids_drawn := Suc (uuids_drawn w)\<rparr>"])
  then obtain fam w1 where "db w1 = db w" "issue_tokens cr cfg (u_id user) fam w1 = (Val p, w')" by blast
  with issue_tokens_Val [of cr cfg "u_id user" fam w1 p w'] show ?thesis by auto
qed

lemma login_keeps_tables:
  assumes inv: "tables_ok (db w)" and run: "login ci cr cfg email password w = (Val up, w')"
  shows "tables_ok (db w')"
proof -
  obtain user p where up: "up = (user, p)" by force
  from login_Val [OF run [unfolded up]] obtain row where
    row: "t_id row \<notin> t_id ` set (refresh_tokens (db w))" "t_token_hash row \<notin> t_token_hash ` set (refresh_tokens (db w))"
    and d: "db w' = (db w)\<lparr>refresh_tokens := refresh_tokens (db w) @ [row]\<rparr>" by blast
  have "tokens_ok (db w)" using inv by (simp add: tables_ok_def)
  from tables_ok_tokens [OF inv tokens_ok_append [OF this row]] d show ?thesis by simp
qed

lemma no_commit_login: "no_commit (login ci cr cfg email password)"
  unfolding login_def by (auto intro!: frame_rules no_commit_issue)

lemma logout_keeps_tables:
  assumes inv: "tables_ok (db w)" and run: "logout uid raw w = (Val x, w')"
  shows "tables_ok (db w')"
proof -
  have tok: "tokens_ok (db w)" using inv by (simp add: tables_ok_def)
  show ?thesis
  proof (cases "\<exists>r \<in> set (refresh_tokens (db w)). t_token_hash r = hash_refresh_token raw \<and> t_user_id r = uid")
    case True
    then obtain r where r: "r \<in> set (refresh_tokens (db w))" "t_token_hash r = hash_refresh_token raw" "t_user_id r = uid" by blast
    have found: "filter (\<lambda>x. t_token_hash x = hash_refresh_token raw) (refresh_tokens (db w)) = [r]"
      using token_by_hash [OF tok r(1)] r(2) by simp
    have "\<exists>t. db w' = (db w)\<lparr>refresh_tokens := revoked_family (t_family_id r) t (refresh_tokens (db w))\<rparr>"
      using run r(3) by (auto simp: logout_def token_get_by_hash_def exec_simps bind_assoc found revoke_family_def
          update_rows_def revoked_family_def)
    with tables_ok_tokens [OF inv tokens_ok_revoked(2) [OF tok]] show ?thesis by auto
  next
    case False
    have dist: "distinct (map t_token_hash (refresh_tokens (db w)))" using tok by (simp add: tokens_ok_def)
    then have "w' = w"
    proof (cases rule: filter_key_cases [where a = "hash_refresh_token raw"])
      case none
      then show ?thesis using run by (simp add: logout_def token_get_by_hash_def exec_simps bind_assoc)
    next
      case (one r)
      with False run show ?thesis by (auto simp: logout_def token_get_by_hash_def exec_simps bind_assoc)
    qed
    with inv show ?thesis by simp
  qed
qed

lemma no_commit_logout: "no_commit (logout uid raw)"
  unfolding logout_def by (auto intro!: frame_rules)

text \<open>The refresh commits by itself when it meets a reused token.\<close>

lemma check_refresh_run:
  obtains (refused) e where "check_refresh raw w = (Exc e, w\<lparr>ticks := ticks w\<rparr>)"
  | (reused) row :: token_row where "check_refresh raw w = (Exc RefreshTokenReusedError, w\<lparr>ticks := Suc (ticks w),
      db := (db w)\<lparr>refresh_tokens := revoked_family (t_family_id row) (clock w (ticks w)) (refresh_tokens (db w))\<rparr>,
      committed := (db w)\<lparr>refresh_tokens := revoked_family (t_family_id row) (clock w (ticks w)) (refresh_tokens (db w))\<rparr>\<rparr>)"
  | (expired) "check_refresh raw w = (Exc TokenExpiredError, w\<lparr>ticks := Suc (ticks w)\<rparr>)"
  | (fit) stored :: token_row where "check_refresh raw w = (Val (stored, clock w (ticks w)), w\<lparr>ticks := Suc (ticks w)\<rparr>)"
proof -
  note eval = check_refresh_def token_get_by_hash_def bind_assoc exec_simps revoke_family_def update_rows_def
    revoked_family_def session_commit_def
  show ?thesis
  proof (cases "scalar_one_or_none (filter (\<lambda>r. t_token_hash r = hash_refresh_token raw) (refresh_tokens (db w)))")
    case (Inl e)
    then show ?thesis by (intro refused [of e]) (simp add: eval)
  next
    case (Inr found)
    show ?thesis
    proof (cases found)
      case None
      with Inr show ?thesis by (intro refused [of InvalidTokenError]) (simp add: eval)
    next
      case (Some row)
      consider "t_revoked_at row \<noteq> None" | "t_revoked_at row = None" "t_expires_at row < clock w (ticks w)"
        | "t_revoked_at row = None" "\<not> t_expires_at row < clock w (ticks w)" by blast
      then show ?thesis
        by cases (use Inr Some in \<open>auto simp: eval intro: reused [of row] expired fit [of row]\<close>)
    qed
  qed
qed

lemma no_commit_rotate: "no_commit (rotate_refresh cr cfg sn)"
  unfolding rotate_refresh_def by (cases sn) (auto intro!: frame_rules no_commit_issue)

lemma refresh_failure:
  assumes run: "unit_of_work (refresh_access_token cr cfg raw) w = (r, w')" and "\<And>p. r \<noteq> Val p"
  shows "db w' = db w \<or> (\<exists>fam t. db w' = (db w)\<lparr>refresh_tokens := revoked_family fam t (refresh_tokens (db w))\<rparr>)"
proof (cases rule: check_refresh_run [of raw "start_tx w"])
  case (fit stored)
  let ?w1 = "(start_tx w)\<lparr>ticks := Suc (ticks (start_tx w))\<rparr>"
  obtain q w2 where rot: "rotate_refresh cr cfg (stored, clock (start_tx w) (ticks (start_tx w))) ?w1 = (q, w2)" by force
  have "committed w2 = db w" using keepsD [OF no_commit_rotate rot] by simp
  with run assms(2) rot show ?thesis
    by (auto simp: unit_of_work_def bind_begin_tx refresh_access_token_def bind_Val [of "check_refresh raw", OF fit] split: result.splits)
next
  case (reused row)
  with run show ?thesis
    by (intro disjI2 exI [of _ "t_family_id row"] exI [of _ "clock w (ticks (start_tx w))"])
      (auto simp: unit_of_work_def bind_begin_tx refresh_access_token_def bind_Exc [of "check_refresh raw"])
qed (use run in \<open>auto simp: unit_of_work_def bind_begin_tx refresh_access_token_def bind_Exc [of "check_refresh raw"]\<close>)

lemma refresh_keeps_tables:
  assumes inv: "tables_ok (db w)" and run: "unit_of_work (refresh_access_token cr cfg raw) w = (r, w')"
  shows "tables_ok (db w')"
proof (cases "\<exists>p. r = Val p")
  case True
  then obtain p where Val: "r = Val p" by blast
  from unit_of_work_db [OF run [unfolded Val]] obtain w1
    where w1: "refresh_access_token cr cfg raw (start_tx w) = (Val p, w1)" "db w' = db w1" by blast
  from refresh_Val [OF w1(1)] obtain stored row :: token_row and t where
    new: "t_id row \<notin> t_id ` set (refresh_tokens (db w))" "t_token_hash row \<notin> t_token_hash ` set (refresh_tokens (db w))"
    and d: "db w1 = (db w)\<lparr>refresh_tokens := revoked_one (t_id stored) t (refresh_tokens (db w)) @ [row]\<rparr>" by auto
  have "tokens_ok (db w1)" using inv new d by (simp add: tables_ok_def tokens_ok_def)
  with tables_ok_tokens [OF inv] d w1(2) show ?thesis by simp
next
  case False
  have "tokens_ok (db w)" using inv by (simp add: tables_ok_def)
  from refresh_failure [OF run] tables_ok_tokens [OF inv tokens_ok_revoked(2) [OF this]] inv False show ?thesis by auto
qed

section \<open>The services are safe\<close>

lemma deposit_work_keeps_tables:
  "deposit_work cfg uid key amount w = (Val b, w') \<Longrightarrow> tables_ok (db w) \<Longrightarrow> tables_ok (db w')"
  by (auto simp: deposit_work_def bind_Val_iff exec_simps dest: deposit_keeps_tables)

lemma bet_work_keeps_tables:
  "bet_work cfg uid key reqs w = (Val b, w') \<Longrightarrow> tables_ok (db w) \<Longrightarrow> tables_ok (db w')"
  by (auto simp: bet_work_def bind_Val_iff exec_simps dest: place_bet_keeps_tables)

lemma keeps_keys_emit [frame_rules]: "keeps (\<lambda>w. idem_keys (db w)) (enqueue_round_events cfg ctx)"
  unfolding enqueue_round_events_def Let_def by (auto intro!: frame_rules)

lemma plain_bet_work: "plain_work (bet_work cfg uid key reqs)"
  unfolding plain_work_def bet_work_def
proof (intro conjI)
  show "no_commit (bind (place_bet cfg uid key reqs) (\<lambda>v. ret (place_bet_result_to_dict v)))"
    by (auto intro!: frame_rules no_commit_place_bet)
  show "keeps (\<lambda>w. idem_keys (db w)) (bind (place_bet cfg uid key reqs) (\<lambda>v. ret (place_bet_result_to_dict v)))"
    unfolding place_bet_def Let_def run_spin_def by (auto intro!: frame_rules split: option.splits)
qed

interpretation deposit_safe: safe_service "deposit_work cfg uid key amount"
  by unfold_locales (use plain_deposit_work in \<open>auto simp: plain_work_def intro: deposit_work_keeps_tables\<close>)

interpretation bet_safe: safe_service "bet_work cfg uid key reqs"
  by unfold_locales (use plain_bet_work in \<open>auto simp: plain_work_def intro: bet_work_keeps_tables\<close>)

interpretation rotate_safe: safe_service "rotate_seed uid"
  by unfold_locales (auto intro: keeps_rotate rotate_keeps_tables)

interpretation register_safe: safe_service "register_user ci cr cfg email password"
  by unfold_locales (auto intro: no_commit_register register_keeps_tables)

interpretation login_safe: safe_service "login ci cr cfg email password"
  by unfold_locales (auto intro: no_commit_login login_keeps_tables)

interpretation logout_safe: safe_service "logout uid raw"
  by unfold_locales (auto intro: no_commit_logout logout_keeps_tables)

text \<open>The transactions around a key.\<close>

lemma tables_ok_keys:
  "tables_ok d \<Longrightarrow> idem_ok d' \<Longrightarrow> d' = d\<lparr>idem_keys := ks\<rparr> \<Longrightarrow> tables_ok d'"
  using tables_ok_idem [of d ks] by simp

lemma reserve_keeps_tables:
  assumes inv: "tables_ok (db w)" and run: "try_reserve uid key h ttl w = (r, w')"
  shows "tables_ok (db w')"
  using run
proof (cases rule: try_reserve_cases)
  case (reserved rid expires t)
  have "idem_ok (db w)" using inv by (simp add: tables_ok_def)
  from idem_ok_reserve [OF this _ reserved(4,5), of "db w'" h expires t] reserved(2)
  have "idem_ok (db w')" by simp
  from tables_ok_keys [OF inv this reserved(2)] show ?thesis .
qed (use inv in simp)

lemma resolve_keeps_tables:
  assumes inv: "tables_ok (db w)" and run: "resolve_existing uid key h w = (r, w')"
  shows "tables_ok (db w')"
proof -
  have ok: "idem_ok (db w)" using inv by (simp add: tables_ok_def)
  from ok run show ?thesis
  proof (cases rule: resolve_cases)
    case (reclaimed row)
    have "idem_ok (db w')" by (rule idem_ok_filter [OF _ ok]) (simp add: reclaimed)
    from tables_ok_keys [OF inv this reclaimed(6)] show ?thesis .
  qed (use inv in simp_all)
qed

lemma release_keeps_tables:
  assumes inv: "tables_ok (db w)" and run: "release_key rid w = (r, w')"
  shows "tables_ok (db w')"
proof -
  obtain w1 where w1: "release_key rid w = (Val (), w1)"
    "db w1 = (db w)\<lparr>idem_keys := filter (\<lambda>x. i_id x \<noteq> rid) (idem_keys (db w))\<rparr>" by (rule release_key_run)
  have "idem_ok (db w)" using inv by (simp add: tables_ok_def)
  then have "idem_ok (db w1)" by (rule idem_ok_filter [rotated]) (simp add: w1)
  from tables_ok_keys [OF inv this w1(2)] w1(1) run show ?thesis by simp
qed

lemma complete_keeps_tables:
  assumes plain: "plain_work work" and safe: "\<And>w b w'. work w = (Val b, w') \<Longrightarrow> tables_ok (db w) \<Longrightarrow> tables_ok (db w')"
    and inv: "tables_ok (db w)" and run: "complete_work work rid w = (r, w')"
  shows "tables_ok (db w')"
proof (cases "\<exists>b. r = Val b")
  case True
  then obtain b where r: "r = Val b" by blast
  from complete_work_Val [OF plain run [unfolded r]] obtain w1 where w1: "work (start_tx w) = (Val b, w1)"
    "idem_keys (db w1) = idem_keys (db w)" "db w' = (db w1)\<lparr>idem_keys := completed_rows rid b (idem_keys (db w))\<rparr>" by blast
  have t1: "tables_ok (db w1)" by (rule safe [OF w1(1)]) (use inv in simp)
  then have "idem_ok (db w1)" by (simp add: tables_ok_def)
  then have "idem_ok (db w')" by (rule idem_ok_completed [rotated]) (simp add: w1)
  from tables_ok_keys [OF t1 this w1(3)] show ?thesis .
next
  case False
  with complete_work_rollback [OF plain run] inv show ?thesis by simp
qed

text \<open>The relay and the cleanup only touch the outbox.\<close>

lemma keeps_on_world_part [frame_rules]:
  "keeps f m \<Longrightarrow> keeps (\<lambda>s. f (rworld s)) (on_world m)"
  by (auto simp: keeps_def on_world_def split: prod.splits) (metis snd_conv)

lemma keeps_send [frame_rules]: "keeps (\<lambda>s. f (rworld s)) (send_and_wait row)"
  by (auto simp: keeps_def send_and_wait_def Let_def split: send_outcome.splits)

definition besides_outbox :: "world \<Rightarrow> database" where
  "besides_outbox w = (db w)\<lparr>outbox := []\<rparr>"

lemma keeps_marks: "keeps besides_outbox (mark_published eid)" "keeps besides_outbox (mark_failed eid n e)"
  unfolding mark_published_def mark_failed_def by (auto intro!: frame_rules simp: besides_outbox_def)

lemma keeps_relay_rows: "keeps (\<lambda>s. besides_outbox (rworld s)) (relay_rows rows)"
  by (induction rows) (auto intro!: frame_rules keeps_marks split: option.split)

lemma besides_outbox_eq: "besides_outbox w' = besides_outbox w \<Longrightarrow> db w' = (db w)\<lparr>outbox := outbox (db w')\<rparr>"
  unfolding besides_outbox_def by (cases "db w", cases "db w'") simp

lemma relay_keeps_rest:
  assumes "relay_once tie locked n s = (r, s')"
  shows "db (rworld s') = (db (rworld s))\<lparr>outbox := rows_of s'\<rparr>"
proof (cases "\<exists>k. r = Val k")
  case True
  obtain q t where t: "relay_rows (cycle_batch tie locked n s) (cycle_start s) = (q, t)" by force
  have "db (rworld s') = db (rworld t)"
    using assms t True unfolding relay_once_run relay_transaction_def
    by (auto simp: bind_def exec_simps split: result.splits)
  moreover have "besides_outbox (rworld t) = besides_outbox (rworld s)"
    using keepsD [OF keeps_relay_rows t] by (simp add: besides_outbox_def cycle_start_def)
  ultimately show ?thesis using besides_outbox_eq [of "rworld t" "rworld s"] by simp
next
  case False
  with relay_once_failed [OF assms] show ?thesis by auto
qed

section \<open>The machine\<close>

text \<open>
  Everything that changes the tables: the transactions of the handlers, of the keys, and of the
  background tasks, each atomic, in any order, returning or failing; reading requests and the
  passing of time leave the tables alone.
\<close>

inductive app_step :: "(string \<Rightarrow> string) \<Rightarrow> crypto \<Rightarrow> settings \<Rightarrow> world \<Rightarrow> world \<Rightarrow> bool"
  for ci :: "string \<Rightarrow> string" and cr :: crypto and cfg :: settings where
  app_register: "app_step ci cr cfg w (snd (unit_of_work (register_user ci cr cfg email password) w))"
| app_login: "app_step ci cr cfg w (snd (unit_of_work (login ci cr cfg email password) w))"
| app_refresh: "app_step ci cr cfg w (snd (unit_of_work (refresh_access_token cr cfg raw) w))"
| app_logout: "app_step ci cr cfg w (snd (unit_of_work (logout uid raw) w))"
| app_rotate: "app_step ci cr cfg w (snd (unit_of_work (rotate_seed uid) w))"
| app_reserve: "app_step ci cr cfg w (snd (try_reserve uid key h ttl w))"
| app_resolve: "app_step ci cr cfg w (snd (resolve_existing uid key h w))"
| app_deposit: "app_step ci cr cfg w (snd (complete_work (deposit_work cfg uid key amount) rid w))"
| app_place_bet: "app_step ci cr cfg w (snd (complete_work (bet_work cfg uid key reqs) rid w))"
| app_release: "app_step ci cr cfg w (snd (release_key rid w))"
| app_relay: "rworld s = w \<Longrightarrow> app_step ci cr cfg w (rworld (snd (relay_once tie locked n s)))"
| app_purge: "app_step ci cr cfg w (snd (purge_once retention w))"
| app_read: "db w' = db w \<Longrightarrow> app_step ci cr cfg w w'"

definition app_init :: "world \<Rightarrow> bool" where
  "app_init w \<longleftrightarrow> db w = empty_db"

lemma purge_keeps_tables: "tables_ok (db w) \<Longrightarrow> purge_once retention w = (r, w') \<Longrightarrow> tables_ok (db w')"
  by (auto simp: purge_once_def unit_of_work_def purge_published_def exec_simps tables_ok_outbox_update)

lemma app_step_inv:
  assumes "app_step ci cr cfg w w'" and inv: "tables_ok (db w)"
  shows "tables_ok (db w')"
  using assms(1)
proof cases
  case (app_relay s tie locked n)
  obtain r s' where run: "relay_once tie locked n s = (r, s')" by force
  from relay_keeps_rest [OF run] app_relay obtain rows where "db (rworld s') = (db w)\<lparr>outbox := rows\<rparr>" by blast
  with tables_ok_outbox [OF inv] app_relay run show ?thesis by simp
next
  case (app_deposit uid key amount rid)
  show ?thesis unfolding app_deposit
    by (rule complete_keeps_tables [OF plain_deposit_work deposit_work_keeps_tables inv surjective_pairing])
next
  case (app_place_bet uid key reqs rid)
  show ?thesis unfolding app_place_bet
    by (rule complete_keeps_tables [OF plain_bet_work bet_work_keeps_tables inv surjective_pairing])
next
  case (app_register email password)
  show ?thesis unfolding app_register by (rule register_safe.transaction_keeps_tables [OF surjective_pairing inv])
next
  case (app_login email password)
  show ?thesis unfolding app_login by (rule login_safe.transaction_keeps_tables [OF surjective_pairing inv])
next
  case (app_refresh raw)
  show ?thesis unfolding app_refresh by (rule refresh_keeps_tables [OF inv surjective_pairing])
next
  case (app_logout uid raw)
  show ?thesis unfolding app_logout by (rule logout_safe.transaction_keeps_tables [OF surjective_pairing inv])
next
  case (app_rotate uid)
  show ?thesis unfolding app_rotate by (rule rotate_safe.transaction_keeps_tables [OF surjective_pairing inv])
next
  case (app_reserve uid key h ttl)
  show ?thesis unfolding app_reserve by (rule reserve_keeps_tables [OF inv surjective_pairing])
next
  case (app_resolve uid key h)
  show ?thesis unfolding app_resolve by (rule resolve_keeps_tables [OF inv surjective_pairing])
next
  case (app_release rid)
  show ?thesis unfolding app_release by (rule release_keeps_tables [OF inv surjective_pairing])
next
  case (app_purge retention)
  show ?thesis unfolding app_purge by (rule purge_keeps_tables [OF inv surjective_pairing])
next
  case app_read
  with inv show ?thesis by simp
qed

interpretation app_machine: inductive_invariant app_init "app_step ci cr cfg" "\<lambda>w. tables_ok (db w)"
  by unfold_locales (auto simp: app_init_def empty_db_ok intro: app_step_inv)

section \<open>Every state of the application\<close>

lemma wallet_of_user:
  assumes "tables_ok d" "u \<in> set (users d)"
  obtains wallet where "filter (\<lambda>r. w_user_id r = u_id u) (wallets d) = [wallet]" "wallet \<in> set (wallets d)"
    "w_user_id wallet = u_id u" "0 \<le> w_balance_minor wallet"
    "w_balance_minor wallet = sum_list (map l_amount_minor (entries d (w_id wallet)))"
proof -
  have ok: "accounts_ok d" "books_balance d" "wallets_ok d"
    using assms(1) by (simp_all add: tables_ok_def consistent_def books_balance_def)
  then obtain wallet where w: "wallet \<in> set (wallets d)" "w_user_id wallet = u_id u"
    using assms(2) by (auto simp: accounts_ok_def)
  have one: "filter (\<lambda>r. w_user_id r = w_user_id wallet) (wallets d) = [wallet]"
    by (rule filter_key_singleton) (use w ok(3) in \<open>simp_all add: wallets_ok_def\<close>)
  have "balance_of d (w_id wallet) = Some (w_balance_minor wallet)"
    using balance_of_Some [OF ok(3)] w(1) by blast
  then have "books 0 (entries d (w_id wallet)) = Some (w_balance_minor wallet)"
    using ok(2) by (simp add: books_balance_def)
  then have "w_balance_minor wallet = sum_list (map l_amount_minor (entries d (w_id wallet)))" by (auto dest: books_sum)
  moreover have "0 \<le> w_balance_minor wallet" using w(1) ok(3) by (simp add: wallets_ok_def)
  ultimately show ?thesis using w one that by simp
qed

lemma filter_only:
  "distinct xs \<Longrightarrow> r \<in> set xs \<Longrightarrow> P r \<Longrightarrow> (\<And>x. x \<in> set xs \<Longrightarrow> P x \<Longrightarrow> x = r) \<Longrightarrow> filter P xs = [r]"
proof -
  assume a: "distinct xs" "r \<in> set xs" "P r" "\<And>x. x \<in> set xs \<Longrightarrow> P x \<Longrightarrow> x = r"
  have "filter P xs = filter (\<lambda>x. id x = id r) xs" by (rule filter_cong [OF refl]) (use a(3,4) in \<open>metis id_apply\<close>)
  also have "\<dots> = [r]" by (rule filter_key_singleton) (use a(1,2) in simp_all)
  finally show ?thesis .
qed

lemma pair_of_user:
  assumes "tables_ok d" "u \<in> set (users d)"
  obtains pair where "filter (\<lambda>r. s_user_id r = u_id u \<and> s_status r = ''active'') (seed_pairs d) = [pair]"
    "s_server_seed_hash pair = hash_seed (s_server_seed pair)"
proof -
  have ok: "accounts_ok d" "seeds_ok d" using assms(1) by (simp_all add: tables_ok_def consistent_def)
  then obtain pair where p: "pair \<in> set (seed_pairs d)" "s_user_id pair = u_id u" "s_status pair = ''active''"
    using assms(2) by (auto simp: accounts_ok_def)
  have "filter (\<lambda>r. s_user_id r = u_id u \<and> s_status r = ''active'') (seed_pairs d) = [pair]"
    by (rule filter_only) (use p ok(2) in \<open>auto simp: seeds_ok_def distinct_map\<close>)
  moreover have "s_server_seed_hash pair = hash_seed (s_server_seed pair)" using p(1) ok(2) by (simp add: seeds_ok_def)
  ultimately show ?thesis using that by blast
qed

text \<open>
  C1: in every state the application can reach from an empty database, whatever transactions
  ran, failed or interleaved, the books balance, the seeds are sound and every settled round is
  recomputable; and every user has what the services rely on: the balance service returns a
  balance that is not negative and is the sum of the user's ledger entries, and the seed service
  returns the hash of the one seed the user is committed to. So no request of a registered user
  meets \<open>DataIntegrityError\<close> in these services.
\<close>

theorem reachable_states_sound:
  assumes "reach app_init (app_step ci cr cfg) w" and "u \<in> set (users (db w))"
  shows "consistent (db w)
    \<and> (\<exists>wallet \<in> set (wallets (db w)). w_user_id wallet = u_id u \<and> 0 \<le> w_balance_minor wallet
        \<and> get_balance (u_id u) w = (Val \<lparr>bv_balance_minor = w_balance_minor wallet, bv_currency = w_currency wallet\<rparr>, w)
        \<and> w_balance_minor wallet = sum_list (map l_amount_minor (entries (db w) (w_id wallet))))
    \<and> (\<exists>pair. filter (\<lambda>r. s_user_id r = u_id u \<and> s_status r = ''active'') (seed_pairs (db w)) = [pair]
        \<and> get_current_seed (u_id u) w = (Val \<lparr>cs_server_seed_hash = hash_seed (s_server_seed pair),
             cs_client_seed = s_client_seed pair, cs_nonce = s_nonce pair\<rparr>, w))"
proof -
  have ok: "tables_ok (db w)" by (rule app_machine.inv_reach [OF assms(1)])
  obtain wallet where w: "filter (\<lambda>r. w_user_id r = u_id u) (wallets (db w)) = [wallet]" "wallet \<in> set (wallets (db w))"
    "w_user_id wallet = u_id u" "0 \<le> w_balance_minor wallet"
    "w_balance_minor wallet = sum_list (map l_amount_minor (entries (db w) (w_id wallet)))"
    by (rule wallet_of_user [OF ok assms(2)])
  obtain pair where p: "filter (\<lambda>r. s_user_id r = u_id u \<and> s_status r = ''active'') (seed_pairs (db w)) = [pair]"
    "s_server_seed_hash pair = hash_seed (s_server_seed pair)"
    by (rule pair_of_user [OF ok assms(2)])
  have "get_balance (u_id u) w = (Val \<lparr>bv_balance_minor = w_balance_minor wallet, bv_currency = w_currency wallet\<rparr>, w)"
    by (simp add: get_balance_def get_wallet_by_user_id_def exec_simps bind_assoc w(1))
  with w(2-5) have first: "\<exists>wallet \<in> set (wallets (db w)). w_user_id wallet = u_id u \<and> 0 \<le> w_balance_minor wallet
        \<and> get_balance (u_id u) w = (Val \<lparr>bv_balance_minor = w_balance_minor wallet, bv_currency = w_currency wallet\<rparr>, w)
        \<and> w_balance_minor wallet = sum_list (map l_amount_minor (entries (db w) (w_id wallet)))" by blast
  have third: "\<exists>pair. filter (\<lambda>r. s_user_id r = u_id u \<and> s_status r = ''active'') (seed_pairs (db w)) = [pair]
        \<and> get_current_seed (u_id u) w = (Val \<lparr>cs_server_seed_hash = hash_seed (s_server_seed pair),
             cs_client_seed = s_client_seed pair, cs_nonce = s_nonce pair\<rparr>, w)"
    by (intro exI [of _ pair] conjI p(1)) (simp add: get_current_seed_active [OF p(1)] p(2))
  have "consistent (db w)" using ok by (simp add: tables_ok_def)
  with first third show ?thesis by (intro conjI)
qed

text \<open>A first registration, from the empty database.\<close>

definition empty_world :: world where
  "empty_world = demo_world\<lparr>db := empty_db\<rparr>"

lemma bind_token_bytes: "bind (token_bytes n) f w =
    f (map (\<lambda>i. byte_source w (bytes_drawn w + i)) [0..<n]) (w\<lparr>bytes_drawn := bytes_drawn w + n\<rparr>)"
  by (simp add: bind_def token_bytes_def)

definition token_at :: "world \<Rightarrow> string" where
  "token_at w = rev (dropWhile (\<lambda>c. c = CHR ''='') (rev (b64url (map (\<lambda>i. byte_source w (bytes_drawn w + i)) [0..<REFRESH_TOKEN_BYTES]))))"

lemma bind_generate: "bind generate_refresh_token f w = f (token_at w) (w\<lparr>bytes_drawn := bytes_drawn w + REFRESH_TOKEN_BYTES\<rparr>)"
  by (simp add: generate_refresh_token_def token_urlsafe_def bind_assoc bind_token_bytes exec_simps token_at_def)

lemma issue_returns:
  assumes "refresh_tokens (db w) = []" "uid \<in> u_id ` set (users (db w))"
  obtains p w' where "issue_tokens cr cfg uid fam w = (Val p, w')" "users (db w') = users (db w)"
  using assms that
  by (simp add: issue_tokens_def create_access_token_def bind_assoc exec_simps bind_generate token_create_def
      bind_insert_into check_token_def check_row_def)

lemma first_registration:
  "\<exists>up w'. unit_of_work (register_user id plain_crypto default_settings ''ana@mail.com'' ''secret'') empty_world = (Val up, w')
     \<and> (\<exists>u. users (db w') = [u] \<and> u_id u = 100 \<and> u_status u = ''active'')"
proof -
  let ?issue = "issue_tokens plain_crypto default_settings 100"
  have "\<exists>w1 user. register_user id plain_crypto default_settings ''ana@mail.com'' ''secret'' (start_tx empty_world)
      = bind (?issue 103) (\<lambda>p. ret (user, p)) w1 \<and> refresh_tokens (db w1) = []
      \<and> (\<exists>u. users (db w1) = [u] \<and> u_id u = 100 \<and> u_status u = ''active'')"
    by (simp add: start_tx_def empty_world_def empty_db_def demo_world_def register_user_def user_get_by_email_def
      exec_simps bind_assoc hash_password_def user_create_def bind_insert_into check_user_def check_row_def wallet_create_def
      check_wallet_def bigint_def create_active_def check_seed_def int4_def
      new_server_seed_def generate_client_seed_def bind_token_bytes del: upt_Suc upt_conv_Cons)
      (intro exI conjI, rule refl, simp_all, simp_all)
  then obtain w1 user where w1: "register_user id plain_crypto default_settings ''ana@mail.com'' ''secret'' (start_tx empty_world)
      = bind (?issue 103) (\<lambda>p. ret (user, p)) w1" "refresh_tokens (db w1) = []" "\<exists>u. users (db w1) = [u] \<and> u_id u = 100 \<and> u_status u = ''active''" by blast
  have "100 \<in> u_id ` set (users (db w1))" using w1(3) by auto
  from issue_returns [OF w1(2) this] obtain p w' where p: "?issue 103 w1 = (Val p, w')" "users (db w') = users (db w1)" .
  show ?thesis
    using w1 p by (intro exI [of _ "(user, p)"] exI [of _ "w'\<lparr>committed := db w'\<rparr>"])
      (auto simp: unit_of_work_Val bind_Val [of "?issue 103", OF p(1)] exec_simps)
qed

theorem reachable_states_sound_witness:
  "\<exists>w wallet. reach app_init (app_step id plain_crypto default_settings) w \<and> wallet \<in> set (wallets (db w)) \<and> 0 \<le> w_balance_minor wallet"
proof -
  obtain up w' where run: "unit_of_work (register_user id plain_crypto default_settings ''ana@mail.com'' ''secret'') empty_world = (Val up, w')"
    and some: "\<exists>u. users (db w') = [u]" using first_registration by blast
  have "reach app_init (app_step id plain_crypto default_settings) empty_world"
    by (rule reach_init) (simp add: app_init_def empty_world_def)
  from reach_step [OF this app_register] run
  have w': "reach app_init (app_step id plain_crypto default_settings) w'" by (metis snd_conv)
  from some obtain u where "u \<in> set (users (db w'))" by auto
  from reachable_states_sound [OF w' this] w' show ?thesis by blast
qed

end
