(* ===== verification/Migrations.thy ===== *)
theory Migrations
  imports Prelude
begin

text \<open>
  The database schema as it comes to be: the four revisions under \<open>alembic/versions\<close>, run as
  DDL statements on a catalog, and the schema the classes of \<open>app/models\<close> declare, with the
  names that the convention of \<open>app/models/base.py\<close> gives. The statements fail where
  PostgreSQL refuses them (a missing or duplicate table, a broken reference), so the order
  inside a revision matters.
\<close>

section \<open>Catalogs\<close>

datatype sql_type = SqlUuid | SqlString | SqlCitext | SqlJsonb | SqlTimestamptz | SqlInteger | SqlBigInteger | SqlLargeBinary

text \<open>The conditions of check constraints and of partial indexes.\<close>

datatype sql_cond = ColIn string "string list" | ColGe string int | ColGt string int | ColEq string string
  | ColIsNull string | ColNullOrBetween string int int

datatype sql_constraint = PrimaryKey "string list" | Unique "string list" | ForeignKey string string string | Check sql_cond

record sql_column =
  column_type :: sql_type
  nullable :: bool
  server_default :: "string option"

record sql_index =
  index_columns :: "string list"
  index_unique :: bool
  index_where :: "sql_cond option"

record sql_table =
  table_columns :: "(string \<times> sql_column) list"
  table_constraints :: "(string \<times> sql_constraint) list"
  table_indexes :: "(string \<times> sql_index) list"

record catalog =
  extensions :: "string list"
  tables :: "(string \<times> sql_table) list"

definition col :: "string \<Rightarrow> sql_type \<Rightarrow> bool \<Rightarrow> string option \<Rightarrow> string \<times> sql_column" where
  "col n t nl d = (n, \<lparr>column_type = t, nullable = nl, server_default = d\<rparr>)"

definition empty_catalog :: catalog where
  "empty_catalog = \<lparr>extensions = [], tables = []\<rparr>"

section \<open>Statements\<close>

datatype ddl =
    CreateExtension string
  | DropExtension string
  | CreateTable string "(string \<times> sql_column) list" "(string \<times> sql_constraint) list"
  | DropTable string
  | CreateIndex string string "string list" bool "sql_cond option"
  | DropIndex string string
  | CreateCheck string string sql_cond
  | DropConstraint string string
  | AddColumn string "string \<times> sql_column"
  | DropColumn string string

fun cond_column :: "sql_cond \<Rightarrow> string" where
  "cond_column (ColIn c _) = c" | "cond_column (ColGe c _) = c" | "cond_column (ColGt c _) = c"
| "cond_column (ColEq c _) = c" | "cond_column (ColIsNull c) = c" | "cond_column (ColNullOrBetween c _ _) = c"

definition has :: "string \<Rightarrow> (string \<times> 'a) list \<Rightarrow> bool" where
  "has k kvs = list_ex (\<lambda>kv. fst kv = k) kvs"

definition without :: "string \<Rightarrow> (string \<times> 'a) list \<Rightarrow> (string \<times> 'a) list" where
  "without k kvs = filter (\<lambda>kv. fst kv \<noteq> k) kvs"

fun references :: "string \<Rightarrow> sql_constraint \<Rightarrow> bool" where
  "references t (ForeignKey _ target _) = (target = t)"
| "references t _ = False"

text \<open>A constraint of a new table: its columns exist, and so does the table it refers to.\<close>

fun constraint_ok :: "catalog \<Rightarrow> (string \<times> sql_column) list \<Rightarrow> sql_constraint \<Rightarrow> bool" where
  "constraint_ok c cols (PrimaryKey ks) = list_all (\<lambda>k. has k cols) ks"
| "constraint_ok c cols (Unique ks) = list_all (\<lambda>k. has k cols) ks"
| "constraint_ok c cols (Check p) = has (cond_column p) cols"
| "constraint_ok c cols (ForeignKey k t k') = (has k cols
     \<and> (case map_of (tables c) t of None \<Rightarrow> False | Some tab \<Rightarrow> has k' (table_columns tab)))"

definition on_table :: "string \<Rightarrow> (sql_table \<Rightarrow> sql_table option) \<Rightarrow> catalog \<Rightarrow> catalog option" where
  "on_table t f c = (case map_of (tables c) t of
     None \<Rightarrow> None
   | Some tab \<Rightarrow> map_option (\<lambda>tab'. c\<lparr>tables := map (\<lambda>kv. if fst kv = t then (t, tab') else kv) (tables c)\<rparr>) (f tab))"

definition index_exists :: "string \<Rightarrow> catalog \<Rightarrow> bool" where
  "index_exists n c = list_ex (\<lambda>kv. has n (table_indexes (snd kv))) (tables c)"

fun run_ddl :: "ddl \<Rightarrow> catalog \<Rightarrow> catalog option" where
  "run_ddl (CreateExtension e) c = Some (if e \<in> set (extensions c) then c else c\<lparr>extensions := extensions c @ [e]\<rparr>)"
| "run_ddl (DropExtension e) c =
     (if list_ex (\<lambda>kv. list_ex (\<lambda>cc. column_type (snd cc) = SqlCitext) (table_columns (snd kv))) (tables c) then None
      else Some (c\<lparr>extensions := filter (\<lambda>x. x \<noteq> e) (extensions c)\<rparr>))"
| "run_ddl (CreateTable t cols cons) c =
     (if has t (tables c) \<or> \<not> list_all (\<lambda>k. constraint_ok c cols (snd k)) cons
         \<or> (list_ex (\<lambda>cc. column_type (snd cc) = SqlCitext) cols \<and> ''citext'' \<notin> set (extensions c)) then None
      else Some (c\<lparr>tables := tables c @ [(t, \<lparr>table_columns = cols, table_constraints = cons, table_indexes = []\<rparr>)]\<rparr>))"
| "run_ddl (DropTable t) c =
     (if \<not> has t (tables c)
         \<or> list_ex (\<lambda>kv. fst kv \<noteq> t \<and> list_ex (\<lambda>k. references t (snd k)) (table_constraints (snd kv))) (tables c) then None
      else Some (c\<lparr>tables := without t (tables c)\<rparr>))"
| "run_ddl (CreateIndex n t ks u p) c =
     (if index_exists n c then None
      else on_table t (\<lambda>tab. if list_all (\<lambda>k. has k (table_columns tab)) ks
        then Some (tab\<lparr>table_indexes := table_indexes tab @ [(n, \<lparr>index_columns = ks, index_unique = u, index_where = p\<rparr>)]\<rparr>)
        else None) c)"
| "run_ddl (DropIndex n t) c = on_table t (\<lambda>tab. if has n (table_indexes tab)
     then Some (tab\<lparr>table_indexes := without n (table_indexes tab)\<rparr>) else None) c"
| "run_ddl (CreateCheck n t p) c = on_table t (\<lambda>tab. if has n (table_constraints tab) \<or> \<not> has (cond_column p) (table_columns tab)
     then None else Some (tab\<lparr>table_constraints := table_constraints tab @ [(n, Check p)]\<rparr>)) c"
| "run_ddl (DropConstraint n t) c = on_table t (\<lambda>tab. if has n (table_constraints tab)
     then Some (tab\<lparr>table_constraints := without n (table_constraints tab)\<rparr>) else None) c"
| "run_ddl (AddColumn t kc) c = on_table t (\<lambda>tab. if has (fst kc) (table_columns tab)
     then None else Some (tab\<lparr>table_columns := table_columns tab @ [kc]\<rparr>)) c"
| "run_ddl (DropColumn t k) c = on_table t (\<lambda>tab. if has k (table_columns tab)
     then Some (tab\<lparr>table_columns := without k (table_columns tab)\<rparr>) else None) c"

fun run_all :: "ddl list \<Rightarrow> catalog \<Rightarrow> catalog option" where
  "run_all [] c = Some c"
| "run_all (s # ss) c = Option.bind (run_ddl s c) (run_all ss)"

section \<open>The revisions\<close>

record migration =
  revision :: string
  down_revision :: "string option"
  upgrade :: "ddl list"
  downgrade :: "ddl list"

definition initial_schema_upgrade :: "ddl list" where
  "initial_schema_upgrade =
    [CreateExtension ''citext'',
     CreateTable ''outbox''
      [col ''id'' SqlUuid False None,
       col ''topic'' SqlString False None,
       col ''key'' SqlString False None,
       col ''payload'' SqlJsonb False None,
       col ''headers'' SqlJsonb True None,
       col ''created_at'' SqlTimestamptz False (Some ''now()''),
       col ''published_at'' SqlTimestamptz True None,
       col ''attempts'' SqlInteger False None,
       col ''last_error'' SqlString True None]
      [(''pk_outbox'', PrimaryKey [''id''])],
     CreateIndex ''ix_outbox_unpublished'' ''outbox'' [''created_at''] False (Some (ColIsNull ''published_at'')),
     CreateTable ''users''
      [col ''id'' SqlUuid False None,
       col ''email'' SqlCitext False None,
       col ''password_hash'' SqlString False None,
       col ''status'' SqlString False None,
       col ''created_at'' SqlTimestamptz False (Some ''now()'')]
      [(''ck_users_valid_status'', Check (ColIn ''status'' [''active'', ''suspended''])),
       (''pk_users'', PrimaryKey [''id''])],
     CreateIndex ''ix_users_email'' ''users'' [''email''] True None,
     CreateTable ''idempotency_keys''
      [col ''id'' SqlUuid False None,
       col ''user_id'' SqlUuid False None,
       col ''key'' SqlString False None,
       col ''request_hash'' SqlString False None,
       col ''response_body'' SqlJsonb True None,
       col ''status'' SqlString False None,
       col ''expires_at'' SqlTimestamptz False None,
       col ''created_at'' SqlTimestamptz False (Some ''now()'')]
      [(''fk_idempotency_keys_user_id_users'', ForeignKey ''user_id'' ''users'' ''id''),
       (''pk_idempotency_keys'', PrimaryKey [''id'']),
       (''uq_user_idempotency_key'', Unique [''user_id'', ''key''])],
     CreateIndex ''ix_idempotency_keys_user_id'' ''idempotency_keys'' [''user_id''] False None,
     CreateTable ''seed_pairs''
      [col ''id'' SqlUuid False None,
       col ''user_id'' SqlUuid False None,
       col ''server_seed'' SqlLargeBinary False None,
       col ''server_seed_hash'' SqlString False None,
       col ''client_seed'' SqlString False None,
       col ''nonce'' SqlInteger False None,
       col ''status'' SqlString False None,
       col ''revealed_at'' SqlTimestamptz True None,
       col ''created_at'' SqlTimestamptz False (Some ''now()'')]
      [(''ck_seed_pairs_valid_status'', Check (ColIn ''status'' [''active'', ''revealed''])),
       (''fk_seed_pairs_user_id_users'', ForeignKey ''user_id'' ''users'' ''id''),
       (''pk_seed_pairs'', PrimaryKey [''id''])],
     CreateIndex ''ix_seed_pairs_user_id'' ''seed_pairs'' [''user_id''] False None,
     CreateIndex ''uq_one_active_seed_pair_per_user'' ''seed_pairs'' [''user_id''] True (Some (ColEq ''status'' ''active'')),
     CreateTable ''wallets''
      [col ''id'' SqlUuid False None,
       col ''user_id'' SqlUuid False None,
       col ''balance_minor'' SqlBigInteger False None,
       col ''currency'' SqlString False None]
      [(''ck_wallets_balance_non_negative'', Check (ColGe ''balance_minor'' 0)),
       (''fk_wallets_user_id_users'', ForeignKey ''user_id'' ''users'' ''id''),
       (''pk_wallets'', PrimaryKey [''id'']),
       (''uq_wallets_user_id'', Unique [''user_id''])],
     CreateTable ''ledger_entries''
      [col ''id'' SqlUuid False None,
       col ''wallet_id'' SqlUuid False None,
       col ''amount_minor'' SqlBigInteger False None,
       col ''balance_after_minor'' SqlBigInteger False None,
       col ''kind'' SqlString False None,
       col ''ref_type'' SqlString True None,
       col ''ref_id'' SqlUuid True None,
       col ''created_at'' SqlTimestamptz False (Some ''now()'')]
      [(''ck_ledger_entries_valid_kind'', Check (ColIn ''kind'' [''deposit'', ''bet_stake'', ''bet_payout'', ''adjustment''])),
       (''ck_ledger_entries_balance_after_non_negative'', Check (ColGe ''balance_after_minor'' 0)),
       (''fk_ledger_entries_wallet_id_wallets'', ForeignKey ''wallet_id'' ''wallets'' ''id''),
       (''pk_ledger_entries'', PrimaryKey [''id''])],
     CreateIndex ''ix_ledger_entries_wallet_id'' ''ledger_entries'' [''wallet_id''] False None,
     CreateTable ''rounds''
      [col ''id'' SqlUuid False None,
       col ''user_id'' SqlUuid False None,
       col ''seed_pair_id'' SqlUuid False None,
       col ''nonce'' SqlInteger False None,
       col ''outcome'' SqlInteger True None,
       col ''status'' SqlString False None,
       col ''created_at'' SqlTimestamptz False (Some ''now()''),
       col ''settled_at'' SqlTimestamptz True None]
      [(''ck_rounds_valid_status'', Check (ColIn ''status'' [''pending'', ''settled''])),
       (''ck_rounds_valid_outcome'', Check (ColNullOrBetween ''outcome'' 0 36)),
       (''fk_rounds_seed_pair_id_seed_pairs'', ForeignKey ''seed_pair_id'' ''seed_pairs'' ''id''),
       (''fk_rounds_user_id_users'', ForeignKey ''user_id'' ''users'' ''id''),
       (''pk_rounds'', PrimaryKey [''id'']),
       (''uq_seed_pair_nonce'', Unique [''seed_pair_id'', ''nonce''])],
     CreateIndex ''ix_rounds_user_id'' ''rounds'' [''user_id''] False None,
     CreateTable ''bets''
      [col ''id'' SqlUuid False None,
       col ''round_id'' SqlUuid False None,
       col ''bet_type'' SqlString False None,
       col ''selection'' SqlJsonb False None,
       col ''stake_minor'' SqlBigInteger False None,
       col ''payout_minor'' SqlBigInteger False None,
       col ''status'' SqlString False None]
      [(''ck_bets_valid_status'', Check (ColIn ''status'' [''pending'', ''won'', ''lost''])),
       (''ck_bets_non_negative_payout'', Check (ColGe ''payout_minor'' 0)),
       (''ck_bets_positive_stake'', Check (ColGt ''stake_minor'' 0)),
       (''fk_bets_round_id_rounds'', ForeignKey ''round_id'' ''rounds'' ''id''),
       (''pk_bets'', PrimaryKey [''id''])],
     CreateIndex ''ix_bets_round_id'' ''bets'' [''round_id''] False None]"

definition initial_schema_downgrade :: "ddl list" where
  "initial_schema_downgrade =
    [DropIndex ''ix_bets_round_id'' ''bets'',
     DropTable ''bets'',
     DropIndex ''ix_rounds_user_id'' ''rounds'',
     DropTable ''rounds'',
     DropIndex ''ix_ledger_entries_wallet_id'' ''ledger_entries'',
     DropTable ''ledger_entries'',
     DropTable ''wallets'',
     DropIndex ''uq_one_active_seed_pair_per_user'' ''seed_pairs'',
     DropIndex ''ix_seed_pairs_user_id'' ''seed_pairs'',
     DropTable ''seed_pairs'',
     DropIndex ''ix_idempotency_keys_user_id'' ''idempotency_keys'',
     DropTable ''idempotency_keys'',
     DropIndex ''ix_users_email'' ''users'',
     DropTable ''users'',
     DropIndex ''ix_outbox_unpublished'' ''outbox'',
     DropTable ''outbox'',
     DropExtension ''citext'']"

definition refresh_tokens_table_upgrade :: "ddl list" where
  "refresh_tokens_table_upgrade =
    [CreateTable ''refresh_tokens''
      [col ''id'' SqlUuid False None,
       col ''user_id'' SqlUuid False None,
       col ''family_id'' SqlUuid False None,
       col ''token_hash'' SqlString False None,
       col ''created_at'' SqlTimestamptz False (Some ''now()''),
       col ''expires_at'' SqlTimestamptz False None,
       col ''revoked_at'' SqlTimestamptz True None]
      [(''fk_refresh_tokens_user_id_users'', ForeignKey ''user_id'' ''users'' ''id''),
       (''pk_refresh_tokens'', PrimaryKey [''id''])],
     CreateIndex ''ix_refresh_tokens_family_id'' ''refresh_tokens'' [''family_id''] False None,
     CreateIndex ''ix_refresh_tokens_token_hash'' ''refresh_tokens'' [''token_hash''] True None,
     CreateIndex ''ix_refresh_tokens_user_id'' ''refresh_tokens'' [''user_id''] False None]"

definition refresh_tokens_table_downgrade :: "ddl list" where
  "refresh_tokens_table_downgrade =
    [DropIndex ''ix_refresh_tokens_user_id'' ''refresh_tokens'',
     DropIndex ''ix_refresh_tokens_token_hash'' ''refresh_tokens'',
     DropIndex ''ix_refresh_tokens_family_id'' ''refresh_tokens'',
     DropTable ''refresh_tokens'']"

definition idempotency_status_check_upgrade :: "ddl list" where
  "idempotency_status_check_upgrade =
    [CreateCheck ''ck_idempotency_keys_valid_status'' ''idempotency_keys'' (ColIn ''status'' [''pending'', ''completed''])]"

definition idempotency_status_check_downgrade :: "ddl list" where
  "idempotency_status_check_downgrade =
    [DropConstraint ''ck_idempotency_keys_valid_status'' ''idempotency_keys'']"

definition outbox_next_attempt_upgrade :: "ddl list" where
  "outbox_next_attempt_upgrade =
    [AddColumn ''outbox'' (col ''next_attempt_at'' SqlTimestamptz True None)]"

definition outbox_next_attempt_downgrade :: "ddl list" where
  "outbox_next_attempt_downgrade =
    [DropColumn ''outbox'' ''next_attempt_at'']"

definition initial_schema :: migration where
  "initial_schema = \<lparr>revision = ''27218e9eef3b'', down_revision = None,
     upgrade = initial_schema_upgrade, downgrade = initial_schema_downgrade\<rparr>"

definition refresh_tokens_revision :: migration where
  "refresh_tokens_revision = \<lparr>revision = ''e5ad238d47ba'', down_revision = Some ''27218e9eef3b'',
     upgrade = refresh_tokens_table_upgrade, downgrade = refresh_tokens_table_downgrade\<rparr>"

definition idempotency_check_revision :: migration where
  "idempotency_check_revision = \<lparr>revision = ''135373233e81'', down_revision = Some ''e5ad238d47ba'',
     upgrade = idempotency_status_check_upgrade, downgrade = idempotency_status_check_downgrade\<rparr>"

definition next_attempt_revision :: migration where
  "next_attempt_revision = \<lparr>revision = ''4c638e44f315'', down_revision = Some ''135373233e81'',
     upgrade = outbox_next_attempt_upgrade, downgrade = outbox_next_attempt_downgrade\<rparr>"

text \<open>The files in the order of their names.\<close>

definition alembic_versions :: "migration list" where
  "alembic_versions = [idempotency_check_revision, initial_schema, next_attempt_revision, refresh_tokens_revision]"

text \<open>
  The order of the revisions: from a given one to the one that names it, until none does. Each
  step takes a revision off the list, so the walk ends whatever the files say.
\<close>

function chain :: "string option \<Rightarrow> migration list \<Rightarrow> migration list" where
  "chain at ms = (case find (\<lambda>m. down_revision m = at) ms of
     None \<Rightarrow> []
   | Some m \<Rightarrow> m # chain (Some (revision m)) (filter (\<lambda>x. revision x \<noteq> revision m) ms))"
  by pat_completeness auto
termination
  by (relation "measure (\<lambda>(_, ms). length ms)") (auto simp: find_Some_iff intro!: length_filter_less)

definition upgrade_head :: "migration list \<Rightarrow> catalog \<Rightarrow> catalog option" where
  "upgrade_head ms = run_all (concat (map upgrade (chain None ms)))"

definition downgrade_base :: "migration list \<Rightarrow> catalog \<Rightarrow> catalog option" where
  "downgrade_base ms = run_all (concat (map downgrade (rev (chain None ms))))"

section \<open>The declared schema\<close>

text \<open>
  A mapped column: its Python annotation decides the SQL type (\<open>type_annotation_map\<close> makes
  \<open>datetime\<close> a \<open>TIMESTAMPTZ\<close>) unless \<open>mapped_column\<close> names one; optional annotations are
  nullable. Unique indexed columns get a unique index, unique ones alone a constraint.
\<close>

datatype py_type = PyUuid | PyStr | PyInt | PyBytes | PyDatetime | PyDict

fun annotation_type :: "py_type \<Rightarrow> sql_type" where
  "annotation_type PyUuid = SqlUuid" | "annotation_type PyStr = SqlString" | "annotation_type PyInt = SqlInteger"
| "annotation_type PyBytes = SqlLargeBinary" | "annotation_type PyDatetime = SqlTimestamptz" | "annotation_type PyDict = SqlJsonb"

record mapped_column =
  m_name :: string
  m_type :: py_type
  m_optional :: bool
  m_sql :: "sql_type option"
  m_primary_key :: bool
  m_unique :: bool
  m_index :: bool
  m_foreign_key :: "(string \<times> string) option"
  m_server_now :: bool

definition mapped :: "string \<Rightarrow> py_type \<Rightarrow> mapped_column" where
  "mapped n t = \<lparr>m_name = n, m_type = t, m_optional = False, m_sql = None, m_primary_key = False,
     m_unique = False, m_index = False, m_foreign_key = None, m_server_now = False\<rparr>"

definition optional :: "string \<Rightarrow> py_type \<Rightarrow> mapped_column" where
  "optional n t = (mapped n t)\<lparr>m_optional := True\<rparr>"

definition id_column :: mapped_column where
  "id_column = (mapped ''id'' PyUuid)\<lparr>m_primary_key := True\<rparr>"

definition created_at_column :: mapped_column where
  "created_at_column = (mapped ''created_at'' PyDatetime)\<lparr>m_server_now := True\<rparr>"

definition bigint_column :: "string \<Rightarrow> mapped_column" where
  "bigint_column n = (mapped n PyInt)\<lparr>m_sql := Some SqlBigInteger\<rparr>"

definition key_to :: "string \<Rightarrow> string \<Rightarrow> mapped_column" where
  "key_to n t = (mapped n PyUuid)\<lparr>m_foreign_key := Some (t, ''id'')\<rparr>"

datatype table_arg = CheckConstraint sql_cond string | UniqueConstraint "string list" string
  | Index string "string list" bool "sql_cond option"

record model =
  tablename :: string
  mapped_columns :: "mapped_column list"
  table_args :: "table_arg list"

text \<open>\<open>NAMING_CONVENTION\<close>: the name of a check is always derived, that of the others when none is given.\<close>

definition convention :: "string \<Rightarrow> string \<Rightarrow> string \<Rightarrow> string" where
  "convention prefix t rest = prefix @ ''_'' @ t @ rest"

definition ix_name :: "string \<Rightarrow> string \<Rightarrow> string" where "ix_name t c = convention ''ix'' t (''_'' @ c)"
definition uq_name :: "string \<Rightarrow> string \<Rightarrow> string" where "uq_name t c = convention ''uq'' t (''_'' @ c)"
definition ck_name :: "string \<Rightarrow> string \<Rightarrow> string" where "ck_name t n = convention ''ck'' t (''_'' @ n)"
definition fk_name :: "string \<Rightarrow> string \<Rightarrow> string \<Rightarrow> string" where
  "fk_name t c t' = convention ''fk'' t (''_'' @ c @ ''_'' @ t')"
definition pk_name :: "string \<Rightarrow> string" where "pk_name t = convention ''pk'' t []"

definition column_of :: "mapped_column \<Rightarrow> string \<times> sql_column" where
  "column_of m = col (m_name m) (case m_sql m of Some t \<Rightarrow> t | None \<Rightarrow> annotation_type (m_type m)) (m_optional m)
     (if m_server_now m then Some ''now()'' else None)"

definition column_constraints :: "string \<Rightarrow> mapped_column \<Rightarrow> (string \<times> sql_constraint) list" where
  "column_constraints t m =
     (case m_foreign_key m of None \<Rightarrow> [] | Some (t', k) \<Rightarrow> [(fk_name t (m_name m) t', ForeignKey (m_name m) t' k)])
     @ (if m_unique m \<and> \<not> m_index m then [(uq_name t (m_name m), Unique [m_name m])] else [])"

definition column_indexes :: "string \<Rightarrow> mapped_column \<Rightarrow> (string \<times> sql_index) list" where
  "column_indexes t m = (if m_index m then [(ix_name t (m_name m),
     \<lparr>index_columns = [m_name m], index_unique = m_unique m, index_where = None\<rparr>)] else [])"

fun arg_constraints :: "string \<Rightarrow> table_arg \<Rightarrow> (string \<times> sql_constraint) list" where
  "arg_constraints t (CheckConstraint p n) = [(ck_name t n, Check p)]"
| "arg_constraints t (UniqueConstraint ks n) = [(n, Unique ks)]"
| "arg_constraints t (Index n ks u p) = []"

fun arg_indexes :: "table_arg \<Rightarrow> (string \<times> sql_index) list" where
  "arg_indexes (Index n ks u p) = [(n, \<lparr>index_columns = ks, index_unique = u, index_where = p\<rparr>)]"
| "arg_indexes _ = []"

definition declared :: "model \<Rightarrow> string \<times> sql_table" where
  "declared m = (tablename m,
     \<lparr>table_columns = map column_of (mapped_columns m),
      table_constraints = (pk_name (tablename m), PrimaryKey (map m_name (filter m_primary_key (mapped_columns m))))
        # concat (map (column_constraints (tablename m)) (mapped_columns m))
        @ concat (map (arg_constraints (tablename m)) (table_args m)),
      table_indexes = concat (map (column_indexes (tablename m)) (mapped_columns m)) @ concat (map arg_indexes (table_args m))\<rparr>)"

subsection \<open>The models\<close>

definition User :: model where
  "User = \<lparr>tablename = ''users'', mapped_columns = [id_column,
      (mapped ''email'' PyStr)\<lparr>m_sql := Some SqlCitext, m_unique := True, m_index := True\<rparr>,
      mapped ''password_hash'' PyStr, mapped ''status'' PyStr, created_at_column],
    table_args = [CheckConstraint (ColIn ''status'' [''active'', ''suspended'']) ''valid_status'']\<rparr>"

definition Wallet :: model where
  "Wallet = \<lparr>tablename = ''wallets'', mapped_columns = [id_column,
      (key_to ''user_id'' ''users'')\<lparr>m_unique := True\<rparr>, bigint_column ''balance_minor'', mapped ''currency'' PyStr],
    table_args = [CheckConstraint (ColGe ''balance_minor'' 0) ''balance_non_negative'']\<rparr>"

definition LedgerEntry :: model where
  "LedgerEntry = \<lparr>tablename = ''ledger_entries'', mapped_columns = [id_column,
      (key_to ''wallet_id'' ''wallets'')\<lparr>m_index := True\<rparr>, bigint_column ''amount_minor'',
      bigint_column ''balance_after_minor'', mapped ''kind'' PyStr, optional ''ref_type'' PyStr,
      optional ''ref_id'' PyUuid, created_at_column],
    table_args = [CheckConstraint (ColIn ''kind'' [''deposit'', ''bet_stake'', ''bet_payout'', ''adjustment'']) ''valid_kind'',
      CheckConstraint (ColGe ''balance_after_minor'' 0) ''balance_after_non_negative'']\<rparr>"

definition SeedPair :: model where
  "SeedPair = \<lparr>tablename = ''seed_pairs'', mapped_columns = [id_column,
      (key_to ''user_id'' ''users'')\<lparr>m_index := True\<rparr>, mapped ''server_seed'' PyBytes,
      mapped ''server_seed_hash'' PyStr, mapped ''client_seed'' PyStr, mapped ''nonce'' PyInt,
      mapped ''status'' PyStr, optional ''revealed_at'' PyDatetime, created_at_column],
    table_args = [CheckConstraint (ColIn ''status'' [''active'', ''revealed'']) ''valid_status'',
      Index ''uq_one_active_seed_pair_per_user'' [''user_id''] True (Some (ColEq ''status'' ''active''))]\<rparr>"

definition Round :: model where
  "Round = \<lparr>tablename = ''rounds'', mapped_columns = [id_column,
      (key_to ''user_id'' ''users'')\<lparr>m_index := True\<rparr>, key_to ''seed_pair_id'' ''seed_pairs'',
      mapped ''nonce'' PyInt, optional ''outcome'' PyInt, mapped ''status'' PyStr, created_at_column,
      optional ''settled_at'' PyDatetime],
    table_args = [CheckConstraint (ColNullOrBetween ''outcome'' 0 36) ''valid_outcome'',
      CheckConstraint (ColIn ''status'' [''pending'', ''settled'']) ''valid_status'',
      UniqueConstraint [''seed_pair_id'', ''nonce''] ''uq_seed_pair_nonce'']\<rparr>"

definition Bet :: model where
  "Bet = \<lparr>tablename = ''bets'', mapped_columns = [id_column,
      (key_to ''round_id'' ''rounds'')\<lparr>m_index := True\<rparr>, mapped ''bet_type'' PyStr,
      mapped ''selection'' PyDict, bigint_column ''stake_minor'', bigint_column ''payout_minor'',
      mapped ''status'' PyStr],
    table_args = [CheckConstraint (ColGt ''stake_minor'' 0) ''positive_stake'',
      CheckConstraint (ColGe ''payout_minor'' 0) ''non_negative_payout'',
      CheckConstraint (ColIn ''status'' [''pending'', ''won'', ''lost'']) ''valid_status'']\<rparr>"

definition IdempotencyKey :: model where
  "IdempotencyKey = \<lparr>tablename = ''idempotency_keys'', mapped_columns = [id_column,
      (key_to ''user_id'' ''users'')\<lparr>m_index := True\<rparr>, mapped ''key'' PyStr, mapped ''request_hash'' PyStr,
      optional ''response_body'' PyDict, mapped ''status'' PyStr, mapped ''expires_at'' PyDatetime, created_at_column],
    table_args = [UniqueConstraint [''user_id'', ''key''] ''uq_user_idempotency_key'',
      CheckConstraint (ColIn ''status'' [''pending'', ''completed'']) ''valid_status'']\<rparr>"

definition RefreshToken :: model where
  "RefreshToken = \<lparr>tablename = ''refresh_tokens'', mapped_columns = [id_column,
      (key_to ''user_id'' ''users'')\<lparr>m_index := True\<rparr>, (mapped ''family_id'' PyUuid)\<lparr>m_index := True\<rparr>,
      (mapped ''token_hash'' PyStr)\<lparr>m_unique := True, m_index := True\<rparr>, created_at_column,
      mapped ''expires_at'' PyDatetime, optional ''revoked_at'' PyDatetime],
    table_args = []\<rparr>"

definition OutboxEvent :: model where
  "OutboxEvent = \<lparr>tablename = ''outbox'', mapped_columns = [id_column, mapped ''topic'' PyStr, mapped ''key'' PyStr,
      mapped ''payload'' PyDict, optional ''headers'' PyDict, created_at_column, optional ''published_at'' PyDatetime,
      mapped ''attempts'' PyInt, optional ''last_error'' PyStr, optional ''next_attempt_at'' PyDatetime],
    table_args = [Index ''ix_outbox_unpublished'' [''created_at''] False (Some (ColIsNull ''published_at''))]\<rparr>"

definition metadata :: "(string \<times> sql_table) list" where
  "metadata = map declared [SeedPair, IdempotencyKey, LedgerEntry, OutboxEvent, RefreshToken, Bet, Round, User, Wallet]"

section \<open>Comparison\<close>

text \<open>The order of tables, columns, constraints and indexes does not count.\<close>

definition same_items :: "(string \<times> 'a) list \<Rightarrow> (string \<times> 'a) list \<Rightarrow> bool" where
  "same_items xs ys \<longleftrightarrow> length xs = length ys \<and> distinct (map fst xs) \<and> list_all (\<lambda>x. x \<in> set ys) xs"

definition same_table :: "sql_table \<Rightarrow> sql_table \<Rightarrow> bool" where
  "same_table a b \<longleftrightarrow> same_items (table_columns a) (table_columns b)
     \<and> same_items (table_constraints a) (table_constraints b) \<and> same_items (table_indexes a) (table_indexes b)"

definition same_schema :: "(string \<times> sql_table) list \<Rightarrow> (string \<times> sql_table) list \<Rightarrow> bool" where
  "same_schema xs ys \<longleftrightarrow> length xs = length ys \<and> distinct (map fst xs)
     \<and> list_all (\<lambda>x. case map_of ys (fst x) of None \<Rightarrow> False | Some t \<Rightarrow> same_table (snd x) t) xs"


section \<open>Properties\<close>

text \<open>Whatever revision files there are, the walk links each one to the one before it.\<close>

lemma chain_linked:
  "successively (\<lambda>a b. down_revision b = Some (revision a)) (chain at ms)
   \<and> (case chain at ms of [] \<Rightarrow> True | m # _ \<Rightarrow> down_revision m = at)"
proof (induction at ms rule: chain.induct)
  case (1 at ms)
  show ?case
  proof (cases "find (\<lambda>m. down_revision m = at) ms")
    case (Some m)
    have m: "down_revision m = at" using Some by (auto simp: find_Some_iff)
    have "chain at ms = m # chain (Some (revision m)) (filter (\<lambda>x. revision x \<noteq> revision m) ms)"
      by (subst chain.simps) (simp add: Some)
    with 1 [OF Some] m show ?thesis by (simp add: successively_Cons split: list.splits)
  qed (simp add: chain.simps [of at ms])
qed

lemma revision_line:
  "chain None alembic_versions = [initial_schema, refresh_tokens_revision, idempotency_check_revision, next_attempt_revision]"
  by (simp add: chain.simps alembic_versions_def initial_schema_def refresh_tokens_revision_def
      idempotency_check_revision_def next_attempt_revision_def)

lemma upgraded_as_declared:
  "map_option (\<lambda>c. same_schema (tables c) metadata) (upgrade_head alembic_versions empty_catalog) = Some True"
  unfolding upgrade_head_def revision_line by code_simp

text \<open>
  C29: the revisions form one line from the empty database to the head, and running them there
  succeeds and gives exactly the schema the model classes declare: the same tables, columns with
  types and nullability, constraints and indexes under the same names.
\<close>

theorem migrations_build_declared_schema:
  "map revision (chain None alembic_versions) = [''27218e9eef3b'', ''e5ad238d47ba'', ''135373233e81'', ''4c638e44f315'']
   \<and> map_option (\<lambda>c. same_schema (tables c) metadata) (upgrade_head alembic_versions empty_catalog) = Some True"
proof
  show "map revision (chain None alembic_versions) = [''27218e9eef3b'', ''e5ad238d47ba'', ''135373233e81'', ''4c638e44f315'']"
    unfolding revision_line by code_simp
qed (rule upgraded_as_declared)

definition after_revisions :: "nat \<Rightarrow> catalog option" where
  "after_revisions k = run_all (concat (map upgrade (take k (chain None alembic_versions)))) empty_catalog"

text \<open>
  the revisions can be undone: after any number of them the downgrade of the last one gives
  back the catalog before it, and undoing all of them leaves an empty database.
\<close>

theorem migrations_reversible:
  "map (\<lambda>k. Option.bind (after_revisions (Suc k)) (run_all (downgrade (chain None alembic_versions ! k)))) [0, 1, 2, 3]
     = map after_revisions [0, 1, 2, 3]
   \<and> Option.bind (after_revisions 4) (downgrade_base alembic_versions) = Some empty_catalog"
  unfolding after_revisions_def downgrade_base_def revision_line by (rule conjI) code_simp+

end
