(* ===== verification/Broadcaster.thy ===== *)
theory Broadcaster
  imports Db_Model "HOL-Library.Sublist"
begin

text \<open>
  \<open>app/ws/broadcaster.py\<close>: the in-memory publish/subscribe of the notifications. A queue is an
  object that the publisher and one connection share, so it lives in a store under its identity;
  the set of queues of a user is a list without repetitions, in an order the results do not
  depend on.
\<close>

section \<open>Queues\<close>

definition QUEUE_MAXSIZE :: nat where "QUEUE_MAXSIZE = 32"

definition queue_full :: "json list \<Rightarrow> bool" where
  "queue_full q \<longleftrightarrow> QUEUE_MAXSIZE \<le> length q"

fun get_nowait :: "json list \<Rightarrow> (json \<times> json list) option" where
  "get_nowait [] = None"
| "get_nowait (m # q) = Some (m, q)"

definition put_nowait :: "json \<Rightarrow> json list \<Rightarrow> json list option" where
  "put_nowait m q = (if queue_full q then None else Some (q @ [m]))"

text \<open>One round of the loop of \<open>publish\<close>; \<open>None\<close> is \<open>QueueFull\<close>.\<close>

definition offer :: "json \<Rightarrow> json list \<Rightarrow> json list option" where
  "offer m q =
     put_nowait m (if queue_full q then (case get_nowait q of None \<Rightarrow> q | Some (_, rest) \<Rightarrow> rest) else q)"

section \<open>The broadcaster\<close>

record hub =
  subscribers :: "uuid \<Rightarrow> nat list option"
  queues :: "nat \<Rightarrow> json list"
  next_queue :: nat

definition new_hub :: hub where
  "new_hub = \<lparr>subscribers = (\<lambda>_. None), queues = (\<lambda>_. []), next_queue = 0\<rparr>"

definition queues_of :: "hub \<Rightarrow> uuid \<Rightarrow> nat list" where
  "queues_of h uid = (case subscribers h uid of None \<Rightarrow> [] | Some qs \<Rightarrow> qs)"

fun offer_all :: "json \<Rightarrow> nat list \<Rightarrow> (hub, unit) exec" where
  "offer_all m [] = ret ()"
| "offer_all m (q # qs) = (\<lambda>h. case offer m (queues h q) of
      None \<Rightarrow> (Exc OtherError, h)
    | Some c \<Rightarrow> offer_all m qs (h\<lparr>queues := (queues h)(q := c)\<rparr>))"

definition publish :: "uuid \<Rightarrow> json \<Rightarrow> (hub, unit) exec" where
  "publish uid m = (\<lambda>h. offer_all m (queues_of h uid) h)"

text \<open>Entering and leaving \<open>async with broadcaster.subscribe(user_id)\<close>.\<close>

definition subscribe :: "uuid \<Rightarrow> (hub, nat) exec" where
  "subscribe uid = (\<lambda>h. let q = next_queue h in
     (Val q, h\<lparr>next_queue := q + 1, queues := (queues h)(q := []),
        subscribers := (subscribers h)(uid \<mapsto> queues_of h uid @ [q])\<rparr>))"

definition unsubscribe :: "uuid \<Rightarrow> nat \<Rightarrow> (hub, unit) exec" where
  "unsubscribe uid q = (\<lambda>h. case subscribers h uid of
      None \<Rightarrow> (Val (), h)
    | Some qs \<Rightarrow> (let rest = filter (\<lambda>x. x \<noteq> q) qs in
        (Val (), h\<lparr>subscribers := (subscribers h)(uid := (if rest = [] then None else Some rest))\<rparr>)))"

section \<open>What they do\<close>

lemma offer_eq: "offer m q = (if length q < QUEUE_MAXSIZE then Some (q @ [m])
    else if length q = QUEUE_MAXSIZE then Some (tl q @ [m]) else None)"
  by (cases q) (auto simp: offer_def put_nowait_def queue_full_def QUEUE_MAXSIZE_def)

lemma offer_all_run:
  assumes "distinct qs" "\<forall>q \<in> set qs. length (queues h q) \<le> QUEUE_MAXSIZE"
  shows "offer_all m qs h = (Val (), h\<lparr>queues := (\<lambda>q. if q \<in> set qs then the (offer m (queues h q)) else queues h q)\<rparr>)"
  using assms
proof (induction qs arbitrary: h)
  case (Cons q qs)
  have "offer m (queues h q) \<noteq> None" using Cons.prems(2) by (auto simp: offer_eq)
  then obtain c where c: "offer m (queues h q) = Some c" by blast
  let ?h = "h\<lparr>queues := (queues h)(q := c)\<rparr>"
  have "offer_all m qs ?h = (Val (), ?h\<lparr>queues := (\<lambda>x. if x \<in> set qs then the (offer m (queues ?h x)) else queues ?h x)\<rparr>)"
    by (rule Cons.IH) (use Cons.prems in auto)
  moreover have "(\<lambda>x. if x \<in> set qs then the (offer m (queues ?h x)) else queues ?h x)
      = (\<lambda>x. if x \<in> set (q # qs) then the (offer m (queues h x)) else queues h x)"
    using Cons.prems(1) c by (auto simp: fun_eq_iff)
  ultimately show ?case using c by simp
qed (simp add: ret_def)

section \<open>The broadcaster at work\<close>

text \<open>
  The steps of publishers and connections in any order, with two histories per queue: what was
  published for its user since the connection subscribed, and what its connection has taken.
\<close>

record hub_run =
  the_hub :: hub
  heard :: "nat \<Rightarrow> json list"
  taken :: "nat \<Rightarrow> json list"

inductive hub_step :: "hub_run \<Rightarrow> hub_run \<Rightarrow> bool" where
  hub_publish: "publish uid m (the_hub s) = (r, h) \<Longrightarrow> hub_step s (s\<lparr>the_hub := h,
     heard := (\<lambda>q. if q \<in> set (queues_of (the_hub s) uid) then heard s q @ [m] else heard s q)\<rparr>)"
| hub_subscribe: "subscribe uid (the_hub s) = (Val q, h) \<Longrightarrow>
     hub_step s (s\<lparr>the_hub := h, heard := (heard s)(q := []), taken := (taken s)(q := [])\<rparr>)"
| hub_leave: "unsubscribe uid q (the_hub s) = (r, h) \<Longrightarrow> hub_step s (s\<lparr>the_hub := h\<rparr>)"
| hub_take: "get_nowait (queues (the_hub s) q) = Some (m, rest) \<Longrightarrow>
     hub_step s (s\<lparr>the_hub := (the_hub s)\<lparr>queues := (queues (the_hub s))(q := rest)\<rparr>, taken := (taken s)(q := taken s q @ [m])\<rparr>)"

inductive_cases hub_stepE: "hub_step s t"

definition hub_init :: "hub_run \<Rightarrow> bool" where
  "hub_init s \<longleftrightarrow> s = \<lparr>the_hub = new_hub, heard = (\<lambda>_. []), taken = (\<lambda>_. [])\<rparr>"

text \<open>A queue holds the end of what was heard; before it come what was taken and what was dropped.\<close>

definition queue_ok :: "json list \<Rightarrow> json list \<Rightarrow> json list \<Rightarrow> bool" where
  "queue_ok q hs ts \<longleftrightarrow> length q \<le> QUEUE_MAXSIZE
     \<and> (\<exists>gone. hs = gone @ q \<and> subseq ts gone \<and> (length hs \<le> QUEUE_MAXSIZE \<longrightarrow> ts = gone))"

definition subscribers_ok :: "hub \<Rightarrow> bool" where
  "subscribers_ok h \<longleftrightarrow> (\<forall>uid. subscribers h uid \<noteq> Some [])
     \<and> (\<forall>uid qs. subscribers h uid = Some qs \<longrightarrow> distinct qs \<and> (\<forall>q \<in> set qs. q < next_queue h))"

definition hub_inv :: "hub_run \<Rightarrow> bool" where
  "hub_inv s \<longleftrightarrow> subscribers_ok (the_hub s) \<and> (\<forall>q. queue_ok (queues (the_hub s) q) (heard s q) (taken s q))"

lemma queue_ok_offer:
  assumes "queue_ok q hs ts"
  shows "queue_ok (the (offer m q)) (hs @ [m]) ts"
proof -
  obtain gone where g: "hs = gone @ q" "subseq ts gone" "length hs \<le> QUEUE_MAXSIZE \<longrightarrow> ts = gone"
    and l: "length q \<le> QUEUE_MAXSIZE" using assms by (auto simp: queue_ok_def)
  show ?thesis
  proof (cases "length q < QUEUE_MAXSIZE")
    case True
    with g show ?thesis by (auto simp: queue_ok_def offer_eq intro!: exI [of _ gone])
  next
    case False
    with l have full: "length q = QUEUE_MAXSIZE" by simp
    then obtain x rest where q: "q = x # rest" by (cases q) (auto simp: QUEUE_MAXSIZE_def)
    have "subseq ts (gone @ [x])" using g(2) by (rule list_emb_prefix)
    moreover have "offer m q = Some (rest @ [m])" using full q by (simp add: offer_eq)
    ultimately show ?thesis using g(1) full q by (auto simp: queue_ok_def intro!: exI [of _ "gone @ [x]"])
  qed
qed

lemma queue_ok_take:
  assumes "queue_ok (m # q) hs ts"
  shows "queue_ok q hs (ts @ [m])"
proof -
  obtain gone where g: "hs = gone @ m # q" "subseq ts gone" "length hs \<le> QUEUE_MAXSIZE \<longrightarrow> ts = gone"
    and l: "length (m # q) \<le> QUEUE_MAXSIZE" using assms by (auto simp: queue_ok_def)
  then show ?thesis by (auto simp: queue_ok_def intro!: exI [of _ "gone @ [m]"])
qed

lemma distinct_queues: "subscribers_ok h \<Longrightarrow> distinct (queues_of h uid)"
  by (auto simp: subscribers_ok_def queues_of_def split: option.split)

lemma publish_run:
  assumes "hub_inv s"
  shows "publish uid m (the_hub s) = (Val (), (the_hub s)\<lparr>queues := (\<lambda>q. if q \<in> set (queues_of (the_hub s) uid)
     then the (offer m (queues (the_hub s) q)) else queues (the_hub s) q)\<rparr>)"
  unfolding publish_def
  by (rule offer_all_run) (use assms in \<open>auto simp: hub_inv_def queue_ok_def distinct_queues\<close>)

lemma publish_inv: "hub_inv s \<Longrightarrow> publish uid m (the_hub s) = (r, h) \<Longrightarrow> hub_inv (s\<lparr>the_hub := h,
    heard := (\<lambda>q. if q \<in> set (queues_of (the_hub s) uid) then heard s q @ [m] else heard s q)\<rparr>)"
  using publish_run [of s uid m] by (auto simp: hub_inv_def subscribers_ok_def queue_ok_offer)

lemma queues_below: "subscribers_ok h \<Longrightarrow> subscribers h uid = Some qs \<Longrightarrow> next_queue h \<notin> set qs"
  by (auto simp: subscribers_ok_def)

lemma subscribe_inv: "hub_inv s \<Longrightarrow> subscribe uid (the_hub s) = (Val q, h) \<Longrightarrow>
    hub_inv (s\<lparr>the_hub := h, heard := (heard s)(q := []), taken := (taken s)(q := [])\<rparr>)"
  using queues_below [of "the_hub s" uid]
  by (auto simp: hub_inv_def subscribers_ok_def subscribe_def Let_def queues_of_def queue_ok_def less_Suc_eq
      split: option.splits if_splits)

lemma unsubscribe_inv: "hub_inv s \<Longrightarrow> unsubscribe uid q (the_hub s) = (r, h) \<Longrightarrow> hub_inv (s\<lparr>the_hub := h\<rparr>)"
  by (auto simp: hub_inv_def subscribers_ok_def unsubscribe_def Let_def split: option.splits if_splits)

lemma take_inv: "hub_inv s \<Longrightarrow> get_nowait (queues (the_hub s) q) = Some (m, rest) \<Longrightarrow>
    hub_inv (s\<lparr>the_hub := (the_hub s)\<lparr>queues := (queues (the_hub s))(q := rest)\<rparr>, taken := (taken s)(q := taken s q @ [m])\<rparr>)"
proof -
  assume inv: "hub_inv s" and "get_nowait (queues (the_hub s) q) = Some (m, rest)"
  then have "queues (the_hub s) q = m # rest" by (cases "queues (the_hub s) q") auto
  moreover have "queue_ok (queues (the_hub s) q) (heard s q) (taken s q)" using inv by (simp add: hub_inv_def)
  ultimately have "queue_ok rest (heard s q) (taken s q @ [m])" by (simp add: queue_ok_take)
  with inv show ?thesis by (simp add: hub_inv_def subscribers_ok_def)
qed

interpretation hub_machine: inductive_invariant hub_init hub_step hub_inv
proof unfold_locales
  fix s assume "hub_init s"
  then show "hub_inv s"
    by (simp add: hub_init_def hub_inv_def new_hub_def subscribers_ok_def queue_ok_def)
next
  fix s t assume "hub_inv s" and "hub_step s t"
  from this(2,1) show "hub_inv t"
    by cases (auto intro: publish_inv subscribe_inv unsubscribe_inv take_inv)
qed

text \<open>
  C30: what a connection can read: whatever publishers and connections do, a queue holds the
  most recent of the messages published for its user since the connection came, at most 32, in
  their order; what the connection reads is a subsequence of what was published, never twice and
  never out of order; nothing is lost as long as no more than 32 were published; a publication
  never raises, however slow a client is; and a user without connections leaves no entry.
\<close>

theorem subscribers_hear_the_latest:
  assumes "reach hub_init hub_step s"
  shows "length (queues (the_hub s) q) \<le> 32 \<and> suffix (queues (the_hub s) q) (heard s q)
    \<and> subseq (taken s q @ queues (the_hub s) q) (heard s q)
    \<and> (length (heard s q) \<le> 32 \<longrightarrow> taken s q @ queues (the_hub s) q = heard s q)
    \<and> (\<exists>h. publish uid m (the_hub s) = (Val (), h)) \<and> subscribers (the_hub s) uid \<noteq> Some []"
proof -
  have inv: "hub_inv s" by (rule hub_machine.inv_reach [OF assms])
  then have "queue_ok (queues (the_hub s) q) (heard s q) (taken s q)" by (simp add: hub_inv_def)
  then obtain gone where "length (queues (the_hub s) q) \<le> 32" "heard s q = gone @ queues (the_hub s) q"
    "subseq (taken s q) gone" "length (heard s q) \<le> 32 \<longrightarrow> taken s q = gone"
    unfolding queue_ok_def QUEUE_MAXSIZE_def by blast
  moreover have "subscribers (the_hub s) uid \<noteq> Some []" using inv by (auto simp: hub_inv_def subscribers_ok_def)
  ultimately show ?thesis using publish_run [OF inv, of uid m]
    by (auto simp: suffix_def intro: list_emb_append_mono)
qed

text \<open>A connection of user 1 that hears two messages and has read the first.\<close>

definition demo_hub :: hub_run where
  "demo_hub = \<lparr>the_hub = \<lparr>subscribers = [1 \<mapsto> [0]], queues = (\<lambda>q. if q = 0 then [JInt 6] else []), next_queue = 1\<rparr>,
     heard = (\<lambda>q. if q = 0 then [JInt 5, JInt 6] else []), taken = (\<lambda>q. if q = 0 then [JInt 5] else [])\<rparr>"

lemma demo_hub_reach: "reach hub_init hub_step demo_hub"
proof -
  define s0 where "s0 = \<lparr>the_hub = new_hub, heard = (\<lambda>_. []), taken = (\<lambda>_. [])\<rparr>"
  define s1 where "s1 = s0\<lparr>the_hub := snd (subscribe 1 new_hub)\<rparr>"
  define s2 where "s2 = s1\<lparr>the_hub := snd (publish 1 (JInt 5) (the_hub s1)), heard := (\<lambda>q. if q = 0 then [JInt 5] else [])\<rparr>"
  define s3 where "s3 = s2\<lparr>the_hub := snd (publish 1 (JInt 6) (the_hub s2)), heard := (\<lambda>q. if q = 0 then [JInt 5, JInt 6] else [])\<rparr>"
  note defs = s0_def s1_def s2_def s3_def new_hub_def subscribe_def publish_def queues_of_def Let_def offer_eq QUEUE_MAXSIZE_def ret_def
  have "reach hub_init hub_step s0" by (rule reach_init) (simp add: hub_init_def s0_def)
  moreover have "hub_step s0 s1"
    using hub_subscribe [of 1 s0 0 "snd (subscribe 1 new_hub)"] by (simp add: defs fun_upd_idem)
  moreover have "hub_step s1 s2"
    using hub_publish [of 1 "JInt 5" s1 "Val ()" "snd (publish 1 (JInt 5) (the_hub s1))"] by (simp add: defs cong: if_cong)
  moreover have "hub_step s2 s3"
    using hub_publish [of 1 "JInt 6" s2 "Val ()" "snd (publish 1 (JInt 6) (the_hub s2))"] by (simp add: defs cong: if_cong)
  moreover have "hub_step s3 demo_hub"
    using hub_take [of s3 0 "JInt 5" "[JInt 6]"] by (simp add: defs demo_hub_def fun_upd_def cong: if_cong)
  ultimately show ?thesis by (meson reach_step)
qed

theorem subscribers_hear_the_latest_witness:
  "taken demo_hub 0 @ queues (the_hub demo_hub) 0 = heard demo_hub 0 \<and> heard demo_hub 0 = [JInt 5, JInt 6]"
  using subscribers_hear_the_latest [OF demo_hub_reach, of 0 1 JNull] by (simp add: demo_hub_def)

end
