(* ===== verification/Ws_Rate_Limit.thy ===== *)
theory Ws_Rate_Limit
  imports Codec Complex_Main
begin

text \<open>
  \<open>app/ws/rate_limit.py\<close>: the fixed window limit of connection attempts. Redis is outside: its
  \<open>INCR\<close> and \<open>EXPIRE\<close> are modelled as documented, on keys with a counter and a time to live. Times
  are seconds as rational numbers; the rounding of Python's floats is left out.
\<close>

section \<open>The two commands of Redis\<close>

record redis_entry =
  re_count :: int
  re_expires :: "rat option"

type_synonym redis = "string \<Rightarrow> redis_entry option"

definition re_live :: "rat \<Rightarrow> redis_entry \<Rightarrow> bool" where
  "re_live now e \<longleftrightarrow> (case re_expires e of None \<Rightarrow> True | Some t \<Rightarrow> now < t)"

definition redis_incr :: "string \<Rightarrow> rat \<Rightarrow> redis \<Rightarrow> int \<times> redis" where
  "redis_incr k now r = (let e' = (case r k of
       Some e \<Rightarrow> (if re_live now e then e\<lparr>re_count := re_count e + 1\<rparr> else \<lparr>re_count = 1, re_expires = None\<rparr>)
     | None \<Rightarrow> \<lparr>re_count = 1, re_expires = None\<rparr>) in (re_count e', r(k \<mapsto> e')))"

definition redis_expire :: "string \<Rightarrow> int \<Rightarrow> rat \<Rightarrow> redis \<Rightarrow> redis" where
  "redis_expire k secs now r = (case r k of
     None \<Rightarrow> r
   | Some e \<Rightarrow> r(k \<mapsto> e\<lparr>re_expires := Some (now + of_int secs)\<rparr>))"

section \<open>The limiter\<close>

definition window_bucket :: "rat \<Rightarrow> rat \<Rightarrow> int" where
  "window_bucket window now = \<lfloor>now / window\<rfloor>"

definition redis_key :: "string \<Rightarrow> int \<Rightarrow> string" where
  "redis_key key bucket = ''ws-connect-rl:'' @ key @ '':'' @ dec_int bucket"

definition allow :: "int \<Rightarrow> rat \<Rightarrow> string \<Rightarrow> rat \<Rightarrow> redis \<Rightarrow> bool \<times> redis" where
  "allow max_attempts window key now r =
     (let rkey = redis_key key (window_bucket window now);
          (attempts, r1) = redis_incr rkey now r;
          r2 = (if attempts = 1 then redis_expire rkey \<lceil>window\<rceil> now r1 else r1)
      in (attempts \<le> max_attempts, r2))"

text \<open>A run of attempts, each by a key at a time, and what the limiter answers to each.\<close>

fun attempts_run :: "int \<Rightarrow> rat \<Rightarrow> (string \<times> rat) list \<Rightarrow> redis \<Rightarrow> bool list \<times> redis" where
  "attempts_run n window [] r = ([], r)"
| "attempts_run n window ((key, now) # as) r =
     (let (ok, r') = allow n window key now r; (oks, r'') = attempts_run n window as r' in (ok # oks, r''))"

section \<open>Counting\<close>

lemma length_filter_le_cong:
  "(\<And>x. x \<in> set xs \<Longrightarrow> P x \<Longrightarrow> Q x) \<Longrightarrow> length (filter P xs) \<le> length (filter Q xs)"
  by (induction xs) auto

lemma redis_key_inject [simp]: "redis_key k b = redis_key k' b' \<longleftrightarrow> k = k' \<and> b = b'"
proof
  assume "redis_key k b = redis_key k' b'"
  then have "rev (k @ '':'' @ dec_int b) = rev (k' @ '':'' @ dec_int b')" by (simp add: redis_key_def)
  then have eq: "rev (dec_int b) @ CHR '':'' # rev k = rev (dec_int b') @ CHR '':'' # rev k'" by simp
  have split: "takeWhile (\<lambda>c. c \<noteq> CHR '':'') (rev (dec_int i) @ CHR '':'' # s) = rev (dec_int i)"
    "dropWhile (\<lambda>c. c \<noteq> CHR '':'') (rev (dec_int i) @ CHR '':'' # s) = CHR '':'' # s" for i s
  proof -
    have "\<forall>c \<in> set (rev (dec_int i)). c \<noteq> CHR '':''" using dec_int_no_colon [of i] by (auto simp del: dec_int_no_colon)
    then show "takeWhile (\<lambda>c. c \<noteq> CHR '':'') (rev (dec_int i) @ CHR '':'' # s) = rev (dec_int i)"
      "dropWhile (\<lambda>c. c \<noteq> CHR '':'') (rev (dec_int i) @ CHR '':'' # s) = CHR '':'' # s"
      by (simp_all add: takeWhile_append dropWhile_append)
  qed
  from eq split [of b "rev k"] split [of b' "rev k'"] show "k = k' \<and> b = b'"
    by (metis dec_int_inject list.inject rev_is_rev_conv)
qed simp

text \<open>The attempts of a key in a bucket.\<close>

definition hits :: "rat \<Rightarrow> string \<Rightarrow> int \<Rightarrow> (string \<times> rat) list \<Rightarrow> nat" where
  "hits window key b as = length (filter (\<lambda>(k, t). k = key \<and> window_bucket window t = b) as)"

lemma hits_simps [simp]:
  "hits window key b [] = 0"
  "hits window key b ((k, t) # as) = (if k = key \<and> window_bucket window t = b then 1 else 0) + hits window key b as"
  "hits window key b (xs @ ys) = hits window key b xs + hits window key b ys"
  by (simp_all add: hits_def)

definition counts :: "rat \<Rightarrow> (string \<times> rat) list \<Rightarrow> redis \<Rightarrow> bool" where
  "counts window as r \<longleftrightarrow> (\<forall>key b. case r (redis_key key b) of
       None \<Rightarrow> hits window key b as = 0
     | Some e \<Rightarrow> re_count e = int (hits window key b as) \<and> 0 < hits window key b as
         \<and> (\<exists>t. re_expires e = Some t \<and> of_int (b + 1) * window \<le> t))"

lemma bucket_bounds:
  assumes "0 < window"
  shows "of_int (window_bucket window t) * window \<le> t" "t < of_int (window_bucket window t + 1) * window"
proof -
  show "of_int (window_bucket window t) * window \<le> t"
    unfolding window_bucket_def pos_le_divide_eq [OF assms, symmetric] by simp
  show "t < of_int (window_bucket window t + 1) * window"
    unfolding window_bucket_def pos_divide_less_eq [OF assms, symmetric] using floor_correct [of "t / window"] by simp
qed

lemma allow_counts:
  assumes w: "0 < window" and inv: "counts window as r"
  shows "fst (allow n window key now r) \<longleftrightarrow> int (hits window key (window_bucket window now) as) < n"
    and "counts window (as @ [(key, now)]) (snd (allow n window key now r))"
proof -
  let ?b = "window_bucket window now"
  let ?k = "redis_key key ?b"
  have end_of_bucket: "of_int (?b + 1) * window \<le> now + of_int \<lceil>window\<rceil>"
  proof -
    have "of_int (?b + 1) * window = of_int ?b * window + window" by (simp add: algebra_simps)
    with bucket_bounds(1) [OF w, of now] le_of_int_ceiling [of window] show ?thesis by linarith
  qed
  have "\<exists>e. allow n window key now r = (int (hits window key ?b as) + 1 \<le> n, r(?k \<mapsto> e))
      \<and> re_count e = int (hits window key ?b as) + 1 \<and> (\<exists>t. re_expires e = Some t \<and> of_int (?b + 1) * window \<le> t)"
  proof (cases "r ?k")
    case None
    with inv have "hits window key ?b as = 0" by (force simp: counts_def split: option.splits)
    with None end_of_bucket show ?thesis
      by (intro exI [of _ "\<lparr>re_count = 1, re_expires = Some (now + of_int \<lceil>window\<rceil>)\<rparr>"]) (simp add: allow_def redis_incr_def redis_expire_def Let_def)
  next
    case (Some e)
    with inv have "re_count e = int (hits window key ?b as) \<and> 0 < hits window key ?b as
        \<and> (\<exists>t. re_expires e = Some t \<and> of_int (?b + 1) * window \<le> t)"
      unfolding counts_def by (auto dest!: spec [of _ key] spec [of _ ?b])
    then obtain t where e: "re_count e = int (hits window key ?b as)" "0 < hits window key ?b as"
      "re_expires e = Some t" "of_int (?b + 1) * window \<le> t" by blast
    from bucket_bounds(2) [OF w, of now] e(4) have "now < t" by simp
    with Some e show ?thesis
      by (intro exI [of _ "e\<lparr>re_count := re_count e + 1\<rparr>"]) (simp add: allow_def redis_incr_def re_live_def Let_def)
  qed
  then obtain e where e: "allow n window key now r = (int (hits window key ?b as) + 1 \<le> n, r(?k \<mapsto> e))"
    "re_count e = int (hits window key ?b as) + 1" "\<exists>t. re_expires e = Some t \<and> of_int (?b + 1) * window \<le> t" by blast
  show "fst (allow n window key now r) \<longleftrightarrow> int (hits window key ?b as) < n" using e(1) by auto
  show "counts window (as @ [(key, now)]) (snd (allow n window key now r))"
    unfolding counts_def
  proof (intro allI)
    fix key' b
    show "case (snd (allow n window key now r)) (redis_key key' b) of
        None \<Rightarrow> hits window key' b (as @ [(key, now)]) = 0
      | Some e \<Rightarrow> re_count e = int (hits window key' b (as @ [(key, now)])) \<and> 0 < hits window key' b (as @ [(key, now)])
          \<and> (\<exists>t. re_expires e = Some t \<and> of_int (b + 1) * window \<le> t)"
    proof (cases "key' = key \<and> b = ?b")
      case True
      with e show ?thesis by simp
    next
      case False
      then have "hits window key' b (as @ [(key, now)]) = hits window key' b as" by auto
      moreover have "(snd (allow n window key now r)) (redis_key key' b) = r (redis_key key' b)"
        using e(1) False by auto
      moreover have "case r (redis_key key' b) of None \<Rightarrow> hits window key' b as = 0
        | Some e \<Rightarrow> re_count e = int (hits window key' b as) \<and> 0 < hits window key' b as
          \<and> (\<exists>t. re_expires e = Some t \<and> of_int (b + 1) * window \<le> t)" using inv unfolding counts_def by blast
      ultimately show ?thesis by (simp only:)
    qed
  qed
qed

lemma attempts_run_counts:
  assumes "0 < window" "counts window before r"
  shows "fst (attempts_run n window as r) = map (\<lambda>i. int (hits window (fst (as ! i)) (window_bucket window (snd (as ! i)))
    (before @ take i as)) < n) [0..<length as]"
  using assms(2)
proof (induction as arbitrary: before r)
  case (Cons a as)
  obtain key now where a: "a = (key, now)" by force
  note step = allow_counts [OF assms(1) Cons.prems, where n = n and key = key and now = now]
  have "fst (attempts_run n window (a # as) r)
      = fst (allow n window key now r) # fst (attempts_run n window as (snd (allow n window key now r)))"
    by (simp add: a Let_def split: prod.splits)
  with Cons.IH [OF step(2)] step(1) show ?case
    by (simp add: a upt_conv_Cons map_Suc_upt [symmetric] del: map_Suc_upt upt_Suc)
qed simp

lemma counts_empty: "counts window [] (\<lambda>_. None)"
  by (simp add: counts_def)

section \<open>Properties\<close>

text \<open>How many attempts of a key at times of a given kind were let through.\<close>

definition granted :: "int \<Rightarrow> rat \<Rightarrow> string \<Rightarrow> (rat \<Rightarrow> bool) \<Rightarrow> (string \<times> rat) list \<Rightarrow> nat" where
  "granted n window key P as = length (filter (\<lambda>i. fst (attempts_run n window as (\<lambda>_. None)) ! i
     \<and> fst (as ! i) = key \<and> P (snd (as ! i))) [0..<length as])"

lemma granted_eq:
  assumes "0 < window"
  shows "granted n window key P as = length (filter (\<lambda>i. int (hits window (fst (as ! i)) (window_bucket window (snd (as ! i))) (take i as)) < n
     \<and> fst (as ! i) = key \<and> P (snd (as ! i))) [0..<length as])"
  unfolding granted_def attempts_run_counts [OF assms counts_empty]
  by (rule arg_cong [where f = length], rule filter_cong) auto

lemma granted_snoc:
  assumes "0 < window"
  shows "granted n window key P (as @ [(k, t)]) = granted n window key P as
    + (if int (hits window k (window_bucket window t) as) < n \<and> k = key \<and> P t then 1 else 0)"
proof -
  have "filter (\<lambda>i. int (hits window (fst ((as @ [(k, t)]) ! i)) (window_bucket window (snd ((as @ [(k, t)]) ! i))) (take i (as @ [(k, t)]))) < n
      \<and> fst ((as @ [(k, t)]) ! i) = key \<and> P (snd ((as @ [(k, t)]) ! i))) [0..<length as]
    = filter (\<lambda>i. int (hits window (fst (as ! i)) (window_bucket window (snd (as ! i))) (take i as)) < n
      \<and> fst (as ! i) = key \<and> P (snd (as ! i))) [0..<length as]"
    by (rule filter_cong) (auto simp: nth_append)
  moreover have "[0..<length (as @ [(k, t)])] = [0..<length as] @ [length as]" by simp
  ultimately show ?thesis
    unfolding granted_eq [OF assms] by (simp only: filter_append length_append) simp
qed

lemma granted_bucket:
  assumes "0 < window"
  shows "granted n window key (\<lambda>t. window_bucket window t = b) as = min (hits window key b as) (nat n)"
proof (induction as rule: rev_induct)
  case Nil
  then show ?case by (simp add: granted_def)
next
  case (snoc a as)
  obtain k t where "a = (k, t)" by force
  with snoc show ?case by (auto simp: granted_snoc [OF assms])
qed

lemma interval_buckets:
  assumes "0 < window" "from_t \<le> t" "t < from_t + window"
  shows "window_bucket window t \<in> {window_bucket window from_t, window_bucket window from_t + 1}"
proof -
  have "from_t / window \<le> t / window" "t / window < from_t / window + 1"
    using assms by (simp_all add: divide_right_mono add_divide_distrib [symmetric] pos_divide_less_eq algebra_simps)
  then have "\<lfloor>from_t / window\<rfloor> \<le> \<lfloor>t / window\<rfloor>" "\<lfloor>t / window\<rfloor> \<le> \<lfloor>from_t / window\<rfloor> + 1"
    by (auto simp: floor_mono) linarith
  then show ?thesis by (auto simp: window_bucket_def)
qed

text \<open>
  C31: the connection limit: an attempt is let through exactly when fewer than the allowed
  number of attempts by its key came before it in its window, so of the attempts in one window
  at most that number are; and since windows are fixed and not sliding, at most twice that
  number in any stretch of time as long as a window.
\<close>

theorem connect_attempts_limited:
  assumes "0 < window"
  shows "fst (attempts_run n window as (\<lambda>_. None)) = map (\<lambda>i. int (hits window (fst (as ! i))
        (window_bucket window (snd (as ! i))) (take i as)) < n) [0..<length as]
    \<and> granted n window key (\<lambda>t. window_bucket window t = b) as = min (hits window key b as) (nat n)
    \<and> granted n window key (\<lambda>t. from_t \<le> t \<and> t < from_t + window) as \<le> 2 * nat n"
proof (intro conjI)
  show "fst (attempts_run n window as (\<lambda>_. None)) = map (\<lambda>i. int (hits window (fst (as ! i))
        (window_bucket window (snd (as ! i))) (take i as)) < n) [0..<length as]"
    using attempts_run_counts [OF assms counts_empty, of n as] by simp
  let ?in = "\<lambda>b. granted n window key (\<lambda>t. window_bucket window t = b) as"
  let ?b = "window_bucket window from_t"
  have "granted n window key (\<lambda>t. from_t \<le> t \<and> t < from_t + window) as
      \<le> granted n window key (\<lambda>t. window_bucket window t \<in> {?b, ?b + 1}) as"
    unfolding granted_def by (rule length_filter_le_cong) (use interval_buckets [OF assms] in auto)
  also have "\<dots> = ?in ?b + ?in (?b + 1)"
    by (induction as rule: rev_induct) (auto simp: granted_snoc [OF assms] granted_def [of _ _ _ _ "[]"])
  also have "\<dots> \<le> 2 * nat n" by (simp add: granted_bucket [OF assms])
  finally show "granted n window key (\<lambda>t. from_t \<le> t \<and> t < from_t + window) as \<le> 2 * nat n" .
qed (rule granted_bucket [OF assms])

text \<open>Two attempts a minute: the third in a window is refused, the next window starts afresh.\<close>

theorem connect_attempts_limited_witness:
  "fst (attempts_run 2 60 [(''ip'', 0), (''ip'', 1), (''ip'', 59), (''ip'', 60)] (\<lambda>_. None)) = [True, True, False, True]"
proof -
  let ?as = "[(''ip'', 0), (''ip'', 1), (''ip'', 59), (''ip'', 60)] :: (string \<times> rat) list"
  have w: "0 < (60 :: rat)" by simp
  have "\<lfloor>1 / 60 :: rat\<rfloor> = 0" "\<lfloor>59 / 60 :: rat\<rfloor> = 0" by (rule floor_unique; simp)+
  moreover have "fst (attempts_run 2 60 ?as (\<lambda>_. None)) = map (\<lambda>i. int (hits 60 (fst (?as ! i))
      (window_bucket 60 (snd (?as ! i))) (take i ?as)) < 2) [0..<length ?as]"
    by (rule connect_attempts_limited [OF w, THEN conjunct1])
  ultimately show ?thesis by (simp only:) (simp add: window_bucket_def upt_conv_Cons)
qed

end
