(* ===== verification/Ws_Endpoint.thy ===== *)
theory Ws_Endpoint
  imports Auth_Service Broadcaster Ws_Rate_Limit
begin

text \<open>
  \<open>app/ws/connections.py\<close> and \<open>app/api/v1/ws.py\<close>: the registry of connections with its gauge, the
  checks of a connection attempt in their order, and the life of a connection that is let in.
  The socket is outside: whether the handshake succeeds, what the two tasks meet while the
  connection is up and how it ends are parameters.
\<close>

section \<open>The registry\<close>

record registry =
  max_connections :: int
  connections :: "nat list"
  ws_connections_active :: int
  ws_connections_total :: int

definition try_register :: "nat \<Rightarrow> (registry, bool) exec" where
  "try_register ws = (\<lambda>g. if max_connections g \<le> int (length (connections g)) then (Val False, g)
     else (Val True, g\<lparr>connections := (if ws \<in> set (connections g) then connections g else connections g @ [ws]),
       ws_connections_active := ws_connections_active g + 1, ws_connections_total := ws_connections_total g + 1\<rparr>))"

definition unregister :: "nat \<Rightarrow> (registry, unit) exec" where
  "unregister ws = (\<lambda>g. (Val (), if ws \<in> set (connections g)
     then g\<lparr>connections := filter (\<lambda>x. x \<noteq> ws) (connections g), ws_connections_active := ws_connections_active g - 1\<rparr>
     else g))"

text \<open>The connections that are sent the close frame, with its code; a failing \<open>close\<close> is suppressed.\<close>

definition close_all :: "int \<Rightarrow> (registry, (nat \<times> int) list) exec" where
  "close_all code = (\<lambda>g. (Val (map (\<lambda>ws. (ws, code)) (connections g)),
     g\<lparr>connections := [], ws_connections_active := ws_connections_active g - int (length (connections g))\<rparr>))"

definition registry_ok :: "registry \<Rightarrow> bool" where
  "registry_ok g \<longleftrightarrow> distinct (connections g) \<and> ws_connections_active g = int (length (connections g))
     \<and> int (length (connections g)) \<le> max_connections g"

lemma length_remove_one: "distinct xs \<Longrightarrow> x \<in> set xs \<Longrightarrow> Suc (length (filter (\<lambda>y. y \<noteq> x) xs)) = length xs"
proof (induction xs)
  case (Cons a xs)
  show ?case
  proof (cases "a = x")
    case True
    with Cons.prems have "filter (\<lambda>y. y \<noteq> x) xs = xs" by (auto simp: filter_id_conv)
    with True show ?thesis by simp
  qed (use Cons in auto)
qed simp

lemma registry_steps_ok:
  "registry_ok g \<Longrightarrow> ws \<notin> set (connections g) \<Longrightarrow> try_register ws g = (r, g') \<Longrightarrow> registry_ok g'"
  "registry_ok g \<Longrightarrow> unregister ws g = (u, g') \<Longrightarrow> registry_ok g'"
  "registry_ok g \<Longrightarrow> 0 \<le> max_connections g \<Longrightarrow> close_all code g = (c, g') \<Longrightarrow> registry_ok g'"
proof -
  show "registry_ok g \<Longrightarrow> ws \<notin> set (connections g) \<Longrightarrow> try_register ws g = (r, g') \<Longrightarrow> registry_ok g'"
    by (auto simp: registry_ok_def try_register_def split: if_splits)
  show "registry_ok g \<Longrightarrow> unregister ws g = (u, g') \<Longrightarrow> registry_ok g'"
  proof -
    assume a: "registry_ok g" "unregister ws g = (u, g')"
    show ?thesis
    proof (cases "ws \<in> set (connections g)")
      case True
      have "Suc (length (filter (\<lambda>y. y \<noteq> ws) (connections g))) = length (connections g)"
        by (rule length_remove_one) (use True a(1) in \<open>simp_all add: registry_ok_def\<close>)
      with True a show ?thesis by (auto simp: registry_ok_def unregister_def)
    qed (use a in \<open>simp add: unregister_def\<close>)
  qed
  show "registry_ok g \<Longrightarrow> 0 \<le> max_connections g \<Longrightarrow> close_all code g = (c, g') \<Longrightarrow> registry_ok g'"
    by (auto simp: registry_ok_def close_all_def)
qed

section \<open>The endpoint\<close>

record ws_app =
  ws_world :: world
  ws_redis :: redis
  ws_time :: rat
  ws_registry :: registry
  ws_hub :: hub

definition on_part :: "('w \<Rightarrow> 'p) \<Rightarrow> (('p \<Rightarrow> 'p) \<Rightarrow> 'w \<Rightarrow> 'w) \<Rightarrow> ('p, 'a) exec \<Rightarrow> ('w, 'a) exec" where
  "on_part get upd m = (\<lambda>s. case m (get s) of (r, p) \<Rightarrow> (r, upd (\<lambda>_. p) s))"

definition CLOSE_UNAUTHORIZED :: int where "CLOSE_UNAUTHORIZED = 4401"
definition CLOSE_TOO_MANY_CONNECTIONS :: int where "CLOSE_TOO_MANY_CONNECTIONS = 4429"

definition authenticate ::
  "crypto \<Rightarrow> (string \<Rightarrow> uuid option) \<Rightarrow> settings \<Rightarrow> string option \<Rightarrow> (world, uuid option) exec" where
  "authenticate cr other_uuid cfg token = (case token of
     None \<Rightarrow> ret None
   | Some t \<Rightarrow>
       if t = [] then ret None
       else (\<lambda>w. case decode_access_token cr other_uuid t (JWT_SECRET cfg) (JWT_ALGORITHM cfg) (JWT_PREVIOUS_SECRETS cfg) w of
           (Val uid, w') \<Rightarrow>
             bind (session_scope (user_get_by_id uid)) (\<lambda>found.
             case found of
               None \<Rightarrow> ret None
             | Some user \<Rightarrow> if u_status user = ''suspended'' then ret None else ret (Some uid)) w'
         | (Exc e, w') \<Rightarrow> if e = InvalidTokenError \<or> e = TokenExpiredError then (Val None, w') else (Exc e, w')
         | (NoReturn, w') \<Rightarrow> (NoReturn, w')))"

text \<open>The client's address; the checks before the connection is let in: a close code, or the user.\<close>

definition client_ip :: "string option \<Rightarrow> string" where
  "client_ip host = (case host of Some ip \<Rightarrow> ip | None \<Rightarrow> ''unknown'')"

definition ws_checks ::
  "crypto \<Rightarrow> (string \<Rightarrow> uuid option) \<Rightarrow> settings \<Rightarrow> nat \<Rightarrow> string option \<Rightarrow> string option \<Rightarrow> (ws_app, int + uuid) exec" where
  "ws_checks cr other_uuid cfg ws host token =
     (\<lambda>s. case allow (WS_CONNECT_RATE_LIMIT_ATTEMPTS cfg) (WS_CONNECT_RATE_LIMIT_WINDOW_S cfg) (client_ip host) (ws_time s) (ws_redis s) of
        (allowed, r) \<Rightarrow>
          (if \<not> allowed then ret (Inl CLOSE_TOO_MANY_CONNECTIONS)
           else
             bind (on_part ws_world ws_world_update (authenticate cr other_uuid cfg token)) (\<lambda>user.
             case user of
               None \<Rightarrow> ret (Inl CLOSE_UNAUTHORIZED)
             | Some uid \<Rightarrow>
                 bind (on_part ws_registry ws_registry_update (try_register ws)) (\<lambda>ok.
                 if \<not> ok then ret (Inl CLOSE_TOO_MANY_CONNECTIONS) else ret (Inr uid)))) (s\<lparr>ws_redis := r\<rparr>))"

text \<open>One round of \<open>_sender\<close>: the next message, or a ping when none came in time.\<close>

fun sender_round :: "json list \<Rightarrow> json \<times> json list" where
  "sender_round [] = (JObj [(''type'', JStr ''ping'')], [])"
| "sender_round (m # q) = (m, q)"

text \<open>How the two tasks of a connection end, and the reason that is logged.\<close>

datatype ws_ending = ReceiverTimeout | ReceiverDone | SenderDone

definition close_reason :: "bool \<Rightarrow> ws_ending \<Rightarrow> string" where
  "close_reason accepted ending = (if accepted \<and> ending = ReceiverTimeout then ''heartbeat_timeout'' else ''disconnected_or_shutdown'')"

datatype ws_result = Refused int | Ended uuid string | HandshakeFailed uuid string

text \<open>
  The \<open>try\<close> block and its \<open>finally\<close>: accept, subscribe, whatever happens while the tasks run,
  leave the subscription, give the slot back.
\<close>

definition ws_serve :: "nat \<Rightarrow> uuid \<Rightarrow> bool \<Rightarrow> (ws_app \<Rightarrow> ws_app) \<Rightarrow> ws_ending \<Rightarrow> (ws_app, ws_result) exec" where
  "ws_serve ws uid accepted during ending =
     bind (if accepted then
             bind (on_part ws_hub ws_hub_update (subscribe uid)) (\<lambda>q.
             bind (modify during) (\<lambda>_.
             bind (on_part ws_hub ws_hub_update (unsubscribe uid q)) (\<lambda>_.
             ret (Ended uid (close_reason accepted ending)))))
           else ret (HandshakeFailed uid (close_reason accepted ending))) (\<lambda>res.
     bind (on_part ws_registry ws_registry_update (unregister ws)) (\<lambda>_.
     ret res))"

definition ws_endpoint ::
  "crypto \<Rightarrow> (string \<Rightarrow> uuid option) \<Rightarrow> settings \<Rightarrow> nat \<Rightarrow> string option \<Rightarrow> string option
     \<Rightarrow> bool \<Rightarrow> (ws_app \<Rightarrow> ws_app) \<Rightarrow> ws_ending \<Rightarrow> (ws_app, ws_result) exec" where
  "ws_endpoint cr other_uuid cfg ws host token accepted during ending =
     bind (ws_checks cr other_uuid cfg ws host token) (\<lambda>checked.
     case checked of
       Inl code \<Rightarrow> ret (Refused code)
     | Inr uid \<Rightarrow> ws_serve ws uid accepted during ending)"

section \<open>What an attempt can meet\<close>

lemma on_part_run [exec_simps]:
  "m (get s) = (r, p) \<Longrightarrow> on_part get upd m s = (r, upd (\<lambda>_. p) s)"
  by (simp add: on_part_def)

text \<open>The user a token stands for, if it is let in.\<close>

definition token_user :: "crypto \<Rightarrow> (string \<Rightarrow> uuid option) \<Rightarrow> settings \<Rightarrow> string option \<Rightarrow> world \<Rightarrow> uuid option" where
  "token_user cr other_uuid cfg token w = (case token of None \<Rightarrow> None | Some t \<Rightarrow> if t = [] then None else
     (case fst (get_current_user cr other_uuid cfg (Some (''Bearer '' @ t)) w) of Val user \<Rightarrow> Some (u_id user) | _ \<Rightarrow> None))"

lemma decode_results:
  "decode_access_token cr other t secret alg prev w = (r, w') \<Longrightarrow>
     (\<exists>uid. r = Val uid) \<or> r = Exc InvalidTokenError \<or> r = Exc TokenExpiredError"
proof -
  have tried: "try_secrets cr t alg now ss = Inl e \<Longrightarrow> e = TokenExpiredError" for now ss e
    by (induction ss) (auto split: jwt_outcome.splits)
  have sub: "subject_of other p = Inl e \<Longrightarrow> e = InvalidTokenError" for p e
    by (auto simp: subject_of_def split: option.splits json.splits)
  assume "decode_access_token cr other t secret alg prev w = (r, w')"
  then show ?thesis
    unfolding decode_access_token_def
    by (cases "try_secrets cr t alg (clock w (ticks w)) (secret # prev)")
      (auto simp: exec_simps lift_sum_def throw_def ret_def sbind_def dest: tried sub
        split: option.splits sum.splits simp del: try_secrets.simps)
qed

lemma authenticate_run:
  obtains w' where "authenticate cr other cfg token w = (Val (token_user cr other cfg token w), w')" "db w' = db w"
proof (cases "token = None \<or> token = Some []")
  case True
  then show ?thesis by (intro that [of w]) (auto simp: authenticate_def token_user_def ret_def)
next
  case False
  then obtain t where t: "token = Some t" "t \<noteq> []" by (cases token) auto
  let ?decode = "decode_access_token cr other t (JWT_SECRET cfg) (JWT_ALGORITHM cfg) (JWT_PREVIOUS_SECRETS cfg)"
  obtain r w1 where run: "?decode w = (r, w1)" by force
  have "keeps db ?decode" by (auto intro!: frame_rules simp: decode_access_token_def)
  then have db: "db w1 = db w" using keepsD [of db ?decode w r w1] run by simp
  show ?thesis
  proof (cases r)
    case (Val uid)
    have found: "session_scope (user_get_by_id uid) w1 = (Val (find (\<lambda>r. u_id r = uid) (users (db w))), (start_tx w1)\<lparr>db := db w\<rparr>)"
      by (simp add: session_scope_def user_get_by_id_def exec_simps db)
    let ?found = "find (\<lambda>r. u_id r = uid) (users (db w))"
    have found_id: "u_id u = uid" if "?found = Some u" for u using that by (auto simp: find_Some_iff)
    have auth: "authenticate cr other cfg token w = (Val (case ?found of None \<Rightarrow> None
        | Some u \<Rightarrow> if u_status u = ''suspended'' then None else Some uid), (start_tx w1)\<lparr>db := db w\<rparr>)"
      using t by (simp add: authenticate_def run Val bind_Val [of "session_scope (user_get_by_id uid)", OF found] ret_def split: option.split)
    have "fst (get_current_user cr other cfg (Some (''Bearer '' @ t)) w) = (case ?found of None \<Rightarrow> Exc InvalidTokenError
        | Some u \<Rightarrow> if u_status u = ''suspended'' then Exc UserSuspendedError else Val u)"
      by (simp add: get_current_user_def bind_Val [of ?decode, OF run [unfolded Val]] user_get_by_id_def exec_simps db split: option.split)
    then have user: "token_user cr other cfg token w = (case ?found of None \<Rightarrow> None
        | Some u \<Rightarrow> if u_status u = ''suspended'' then None else Some (u_id u))"
      using t by (cases ?found) (simp_all add: token_user_def)
    have "token_user cr other cfg token w = (case ?found of None \<Rightarrow> None
        | Some u \<Rightarrow> if u_status u = ''suspended'' then None else Some uid)"
    proof (cases ?found)
      case (Some u)
      from user found_id [OF Some] show ?thesis unfolding Some by simp
    qed (simp add: user)
    with auth show ?thesis by (intro that [of "(start_tx w1)\<lparr>db := db w\<rparr>"]) simp_all
  next
    case (Exc e)
    then have "e = InvalidTokenError \<or> e = TokenExpiredError" using decode_results [OF run] by auto
    then show ?thesis
      using t run Exc db
      by (intro that [of w1]) (auto simp: authenticate_def token_user_def get_current_user_def bind_Exc [of ?decode, OF run [unfolded Exc]])
  next
    case NoReturn
    with decode_results [OF run] show ?thesis by auto
  qed
qed

lemma ws_checks_run:
  "let (allowed, r) = allow (WS_CONNECT_RATE_LIMIT_ATTEMPTS cfg) (WS_CONNECT_RATE_LIMIT_WINDOW_S cfg) (client_ip host) (ws_time s) (ws_redis s);
       user = token_user cr other cfg token (ws_world s);
       full = max_connections (ws_registry s) \<le> int (length (connections (ws_registry s)));
       (answer, s') = ws_checks cr other cfg ws host token s
   in answer = Val (if \<not> allowed then Inl 4429 else case user of
          None \<Rightarrow> Inl 4401
        | Some uid \<Rightarrow> if full then Inl 4429 else Inr uid)
    \<and> (\<not> allowed \<longrightarrow> s' = s\<lparr>ws_redis := r\<rparr>)
    \<and> db (ws_world s') = db (ws_world s) \<and> ws_redis s' = r \<and> ws_hub s' = ws_hub s
    \<and> ws_registry s' = (case answer of Val (Inr uid) \<Rightarrow> snd (try_register ws (ws_registry s)) | _ \<Rightarrow> ws_registry s)"
proof -
  obtain allowed r where a: "allow (WS_CONNECT_RATE_LIMIT_ATTEMPTS cfg) (WS_CONNECT_RATE_LIMIT_WINDOW_S cfg) (client_ip host) (ws_time s) (ws_redis s)
      = (allowed, r)" by force
  obtain w' where w': "authenticate cr other cfg token (ws_world s) = (Val (token_user cr other cfg token (ws_world s)), w')"
    "db w' = db (ws_world s)" by (rule authenticate_run)
  show ?thesis
    by (cases allowed; cases "token_user cr other cfg token (ws_world s)";
        cases "max_connections (ws_registry s) \<le> int (length (connections (ws_registry s)))")
      (simp_all add: a ws_checks_def w'(1)
        CLOSE_TOO_MANY_CONNECTIONS_def CLOSE_UNAUTHORIZED_def ret_def w'(2) try_register_def on_part_def bind_def Let_def)
qed

text \<open>
  why a connection attempt is refused, in the order of the checks: an address over its
  limit is closed with 4429 before its token is looked at; then every bad token, missing,
  invalid, expired, of no user or of a suspended one, is closed with 4401 alike; then a full
  registry closes with 4429; otherwise the slot is taken and the user is the token's. Only the
  limiter and the registry change, no table does.
\<close>

theorem connection_checks:
  "let (allowed, r) = allow (WS_CONNECT_RATE_LIMIT_ATTEMPTS cfg) (WS_CONNECT_RATE_LIMIT_WINDOW_S cfg) (client_ip host) (ws_time s) (ws_redis s);
       user = token_user cr other cfg token (ws_world s);
       full = max_connections (ws_registry s) \<le> int (length (connections (ws_registry s)));
       (answer, s') = ws_checks cr other cfg ws host token s
   in answer = Val (if \<not> allowed then Inl 4429 else case user of
          None \<Rightarrow> Inl 4401
        | Some uid \<Rightarrow> if full then Inl 4429 else Inr uid)
    \<and> (\<not> allowed \<longrightarrow> s' = s\<lparr>ws_redis := r\<rparr>)
    \<and> db (ws_world s') = db (ws_world s) \<and> ws_redis s' = r \<and> ws_hub s' = ws_hub s
    \<and> ws_registry s' = (case answer of Val (Inr uid) \<Rightarrow> snd (try_register ws (ws_registry s)) | _ \<Rightarrow> ws_registry s)"
  by (rule ws_checks_run)

text \<open>A server where nobody has connected yet.\<close>

definition demo_ws :: ws_app where
  "demo_ws = \<lparr>ws_world = demo_world, ws_redis = (\<lambda>_. None), ws_time = 0,
     ws_registry = \<lparr>max_connections = 1, connections = [], ws_connections_active = 0, ws_connections_total = 0\<rparr>, ws_hub = new_hub\<rparr>"

theorem connection_checks_witness:
  "fst (ws_checks plain_crypto (\<lambda>_. None) default_settings 0 (Some ''10.0.0.1'') (Some []) demo_ws) = Val (Inl 4401)"
  using connection_checks [of default_settings "Some ''10.0.0.1''" demo_ws plain_crypto "\<lambda>_. None" "Some []" 0]
  by (simp add: allow_def redis_incr_def redis_expire_def default_settings_def demo_ws_def token_user_def Let_def split: prod.splits)

lemma serve_run:
  "\<exists>t. ws_serve ws uid accepted during ending s = (Val (if accepted then Ended uid (close_reason True ending)
      else HandshakeFailed uid ''disconnected_or_shutdown''), t)
    \<and> ws_registry t = snd (unregister ws (ws_registry (if accepted then during (s\<lparr>ws_hub := snd (subscribe uid (ws_hub s))\<rparr>) else s)))"
proof -
  obtain q h where sub: "subscribe uid (ws_hub s) = (Val q, h)" by (auto simp: subscribe_def Let_def)
  let ?u = "during (s\<lparr>ws_hub := h\<rparr>)"
  obtain h' where uns: "unsubscribe uid q (ws_hub ?u) = (Val (), h')"
    by (cases "subscribers (ws_hub ?u) uid") (simp_all add: unsubscribe_def Let_def)
  show ?thesis
    by (cases accepted) (simp_all add: ws_serve_def bind_def modify_def ret_def on_part_def sub uns unregister_def close_reason_def)
qed



end
