(* ===== verification/Http.thy ===== *)
theory Http
  imports Auth_Service
begin

text \<open>
  The HTTP shell: the exception handlers and the innermost middleware of \<open>app/api/errors.py\<close>, the
  body limit of \<open>app/api/middleware.py\<close>, the request context of \<open>app/api/request_context.py\<close>, and the
  order in which \<open>app/main.py\<close> stacks them. An ASGI application maps a scope and a state to the
  messages it sends, how it ends, and the new state. The middlewares of Starlette and slowapi and
  FastAPI's router are parameters.
\<close>

section \<open>ASGI\<close>

datatype scope_type = HttpScope | WebsocketScope | LifespanScope

record scope =
  sc_type :: scope_type
  sc_method :: string
  sc_path :: string
  sc_headers :: "(string \<times> string) list"

datatype asgi_message = ResponseStart int "(string \<times> string) list" | ResponseBody string | OtherMessage

type_synonym 's asgi = "scope \<Rightarrow> 's \<Rightarrow> asgi_message list \<times> unit result \<times> 's"

fun is_start :: "asgi_message \<Rightarrow> bool" where
  "is_start (ResponseStart _ _) = True"
| "is_start _ = False"

text \<open>\<open>JSONResponse(status_code, content={"detail": detail})\<close>.\<close>

definition detail_body :: "string \<Rightarrow> string" where
  "detail_body detail = CHR ''{'' # CHR 0x22 # ''detail'' @ [CHR 0x22, CHR '':'', CHR 0x22] @ detail @ [CHR 0x22, CHR ''}'']"

definition json_response :: "int \<Rightarrow> string \<Rightarrow> asgi_message list" where
  "json_response status detail = [ResponseStart status
      [(''content-length'', dec_nat (length (detail_body detail))), (''content-type'', ''application/json'')],
     ResponseBody (detail_body detail)]"

section \<open>Exceptions as responses\<close>

definition ERROR_MAP :: "(exn \<times> int \<times> string) list" where
  "ERROR_MAP =
     [(EmailAlreadyExistsError, 409, ''email already registered''),
      (InvalidCredentialsError, 401, ''invalid credentials''),
      (UserSuspendedError, 403, ''account is suspended''),
      (TokenExpiredError, 401, ''token has expired''),
      (InvalidTokenError, 401, ''invalid token''),
      (RefreshTokenReusedError, 401, ''session revoked''),
      (InvalidBetError, 422, ''invalid bet''),
      (InsufficientFundsError, 409, ''insufficient funds''),
      (IdempotencyKeyConflictError, 409, ''Idempotency-Key already used with a different request body''),
      (IdempotencyInProgressError, 409, ''a request with this same Idempotency-Key is already in progress'')]"

definition make_handler :: "int \<Rightarrow> string \<Rightarrow> asgi_message list" where
  "make_handler status detail = json_response status detail"

definition handle_data_integrity_error :: "asgi_message list" where
  "handle_data_integrity_error = json_response 500 ''internal error''"

definition handle_unexpected_error :: "asgi_message list" where
  "handle_unexpected_error = json_response 500 ''internal error''"

text \<open>The handlers the application has after \<open>register_error_handlers\<close>.\<close>

definition error_handlers :: "(exn \<times> asgi_message list) list" where
  "error_handlers = map (\<lambda>(e, status, detail). (e, make_handler status detail)) ERROR_MAP
     @ [(DataIntegrityError, handle_data_integrity_error)]"

text \<open>A route behind FastAPI's exception handling: the response of its endpoint, or of the handler.\<close>

definition route :: "(scope \<Rightarrow> ('s, asgi_message list) exec) \<Rightarrow> 's asgi" where
  "route endpoint sc s = (case endpoint sc s of
     (Val ms, t) \<Rightarrow> (ms, Val (), t)
   | (Exc e, t) \<Rightarrow> (case map_of error_handlers e of
       Some ms \<Rightarrow> (ms, Val (), t)
     | None \<Rightarrow> ([], Exc e, t))
   | (NoReturn, t) \<Rightarrow> ([], NoReturn, t))"

definition UnhandledExceptionMiddleware :: "'s asgi \<Rightarrow> 's asgi" where
  "UnhandledExceptionMiddleware app sc s =
     (if sc_type sc \<noteq> HttpScope then app sc s
      else case app sc s of
        (ms, Exc e, t) \<Rightarrow>
          if list_ex is_start ms then (ms, Exc e, t) else (ms @ handle_unexpected_error, Val (), t)
      | r \<Rightarrow> r)"

section \<open>The body limit\<close>

text \<open>
  Python's \<open>int(b"...")\<close>: blanks around, a sign, digits with single underscores between them;
  \<open>dict(headers)\<close> keeps the last header of a name.
\<close>

definition py_space :: "char \<Rightarrow> bool" where
  "py_space c \<longleftrightarrow> c \<in> {CHR '' '', CHR 0x09, CHR 0x0A, CHR 0x0B, CHR 0x0C, CHR 0x0D}"

definition py_strip :: "string \<Rightarrow> string" where
  "py_strip s = rev (dropWhile py_space (rev (dropWhile py_space s)))"

fun digit_groups :: "string \<Rightarrow> string option" where
  "digit_groups [] = None"
| "digit_groups [c] = (if c \<in> set ''0123456789'' then Some [c] else None)"
| "digit_groups (c # d # cs) = (if c \<notin> set ''0123456789'' then None
     else map_option (\<lambda>r. c # r) (digit_groups (if d = CHR ''_'' then cs else d # cs)))"

definition py_int :: "string \<Rightarrow> int option" where
  "py_int s = (case py_strip s of
     c # cs \<Rightarrow> (if c = CHR ''-'' then map_option (\<lambda>r. - int (read_dec r)) (digit_groups cs)
       else if c = CHR ''+'' then map_option (\<lambda>r. int (read_dec r)) (digit_groups cs)
       else map_option (\<lambda>r. int (read_dec r)) (digit_groups (c # cs)))
   | [] \<Rightarrow> None)"

definition last_header :: "string \<Rightarrow> (string \<times> string) list \<Rightarrow> string option" where
  "last_header name hs = map_of (rev hs) name"

definition too_large :: "asgi_message list" where
  "too_large = [ResponseStart 413 [(''content-type'', ''application/json'')], ResponseBody (detail_body ''request body too large'')]"

definition MaxBodySizeMiddleware :: "int \<Rightarrow> 's asgi \<Rightarrow> 's asgi" where
  "MaxBodySizeMiddleware max_body_bytes app sc s =
     (if sc_type sc \<noteq> HttpScope then app sc s
      else case last_header ''content-length'' (sc_headers sc) of
        None \<Rightarrow> app sc s
      | Some v \<Rightarrow> (case py_int v of
          None \<Rightarrow> ([], Exc ValueError, s)
        | Some n \<Rightarrow> if max_body_bytes < n then (too_large, Val (), s) else app sc s))"

section \<open>The request context\<close>

text \<open>
  What the context of a request holds: its identifiers and the fields that any layer may add;
  and what outlives it: the canonical lines and the counted requests. The context is that of
  the request's task, so its variables have their old values afterwards. Durations are left out.
\<close>

record log_line =
  ln_request_id :: string
  ln_user_id :: "string option"
  ln_type :: scope_type
  ln_fields :: "(string \<times> json) list"
  ln_request :: "(string \<times> string \<times> int option) option"

record ctx =
  request_id_var :: "string option"
  user_id_var :: "string option"
  canonical_fields :: "(string \<times> json) list option"
  canonical_lines :: "log_line list"
  http_requests_total :: "(string \<times> string \<times> int option) list"
  ids_drawn :: nat
  id_source :: "nat \<Rightarrow> uuid"

fun dict_set :: "string \<times> json \<Rightarrow> (string \<times> json) list \<Rightarrow> (string \<times> json) list" where
  "dict_set (k, v) [] = [(k, v)]"
| "dict_set (k, v) ((k', v') # kvs) = (if k' = k then (k, v) # kvs else (k', v') # dict_set (k, v) kvs)"

definition bind_canonical :: "(string \<times> json) list \<Rightarrow> ctx \<Rightarrow> ctx" where
  "bind_canonical kvs c = (case canonical_fields c of
     None \<Rightarrow> c
   | Some d \<Rightarrow> c\<lparr>canonical_fields := Some (fold dict_set kvs d)\<rparr>)"

text \<open>The wrapped \<open>send\<close>: the header on every start message, and the status of the last one.\<close>

fun add_request_id :: "string \<Rightarrow> asgi_message \<Rightarrow> asgi_message" where
  "add_request_id rid (ResponseStart status hs) = ResponseStart status (hs @ [(''X-Request-ID'', rid)])"
| "add_request_id rid m = m"

fun last_status :: "int option \<Rightarrow> asgi_message list \<Rightarrow> int option" where
  "last_status st [] = st"
| "last_status st (ResponseStart status hs # ms) = last_status (Some status) ms"
| "last_status st (m # ms) = last_status st ms"

definition RequestContextMiddleware :: "(ctx \<times> 's) asgi \<Rightarrow> (ctx \<times> 's) asgi" where
  "RequestContextMiddleware app sc s0 = (case s0 of (c, s) \<Rightarrow>
     if sc_type sc = LifespanScope then app sc (c, s)
     else
       let rid = uuid_str (id_source c (ids_drawn c));
           c1 = c\<lparr>ids_drawn := ids_drawn c + 1, request_id_var := Some rid, canonical_fields := Some []\<rparr>
       in case app sc (c1, s) of (ms, r, (c2, s2)) \<Rightarrow>
         let sent = (if sc_type sc = HttpScope then map (add_request_id rid) ms else ms);
             request = (if sc_type sc = HttpScope then Some (sc_method sc, sc_path sc, last_status None ms) else None);
             line = \<lparr>ln_request_id = rid, ln_user_id = user_id_var c2, ln_type = sc_type sc,
               ln_fields = (case canonical_fields c2 of None \<Rightarrow> [] | Some d \<Rightarrow> d), ln_request = request\<rparr>
         in (sent, r, (c2\<lparr>canonical_lines := canonical_lines c2 @ [line],
               http_requests_total := http_requests_total c2 @ (case request of None \<Rightarrow> [] | Some q \<Rightarrow> [q]),
               request_id_var := request_id_var c, user_id_var := user_id_var c, canonical_fields := canonical_fields c\<rparr>, s2)))"

section \<open>The stack\<close>

text \<open>
  \<open>add_middleware\<close> inserts in front, so the one added last is the outermost; the stack is built
  from the innermost to the outermost around the router.
\<close>

definition add_middleware :: "('s asgi \<Rightarrow> 's asgi) \<Rightarrow> ('s asgi \<Rightarrow> 's asgi) list \<Rightarrow> ('s asgi \<Rightarrow> 's asgi) list" where
  "add_middleware m user_middleware = m # user_middleware"

definition build_stack :: "('s asgi \<Rightarrow> 's asgi) list \<Rightarrow> 's asgi \<Rightarrow> 's asgi" where
  "build_stack user_middleware router = foldr (\<lambda>m app. m app) user_middleware router"

definition create_app ::
  "settings \<Rightarrow> ((ctx \<times> 's) asgi \<Rightarrow> (ctx \<times> 's) asgi) \<Rightarrow> ((ctx \<times> 's) asgi \<Rightarrow> (ctx \<times> 's) asgi) \<Rightarrow> (ctx \<times> 's) asgi \<Rightarrow> (ctx \<times> 's) asgi" where
  "create_app cfg slow_api cors router =
     build_stack
       (add_middleware RequestContextMiddleware
       (add_middleware (MaxBodySizeMiddleware (MAX_REQUEST_BODY_BYTES cfg))
       (add_middleware cors
       (add_middleware slow_api
       (add_middleware UnhandledExceptionMiddleware []))))) router"


section \<open>Properties\<close>

lemma stack_order:
  "create_app cfg slow_api cors router =
     RequestContextMiddleware (MaxBodySizeMiddleware (MAX_REQUEST_BODY_BYTES cfg) (cors (slow_api (UnhandledExceptionMiddleware router))))"
  by (simp add: create_app_def build_stack_def add_middleware_def)

lemma map_of_error_handlers: "map_of error_handlers e =
    (case map_of ERROR_MAP e of Some (status, detail) \<Rightarrow> Some (json_response status detail)
     | None \<Rightarrow> if e = DataIntegrityError then Some (json_response 500 ''internal error'') else None)"
proof -
  have "map_of (map (\<lambda>(e, status, detail). (e, make_handler status detail)) xs) e
      = map_option (\<lambda>(status, detail). json_response status detail) (map_of xs e)" for xs
    by (induction xs) (auto simp: make_handler_def)
  then show ?thesis
    by (auto simp: error_handlers_def map_add_def handle_data_integrity_error_def split: option.split)
qed

text \<open>
  how an endpoint's exception reaches the client: the exceptions of the map become the
  status and the detail it names, and every other one, a broken invariant included, becomes the
  same answer 500 whatever the exception was, so nothing about it leaks; nothing is raised
  further, and the state is the one the endpoint left.
\<close>

theorem exceptions_answered:
  assumes "sc_type sc = HttpScope" and "endpoint sc s = (Exc e, t)"
  shows "UnhandledExceptionMiddleware (route endpoint) sc s =
    ((case map_of ERROR_MAP e of Some (status, detail) \<Rightarrow> json_response status detail
      | None \<Rightarrow> json_response 500 ''internal error''), Val (), t)"
  using assms
  by (auto simp: UnhandledExceptionMiddleware_def route_def map_of_error_handlers handle_unexpected_error_def
      split: option.splits if_splits)

theorem exceptions_answered_witness:
  "UnhandledExceptionMiddleware (route (\<lambda>sc. throw InsufficientFundsError))
      \<lparr>sc_type = HttpScope, sc_method = ''POST'', sc_path = ''/x'', sc_headers = []\<rparr> (0 :: nat)
    = (json_response 409 ''insufficient funds'', Val (), 0)"
  using exceptions_answered [of "\<lparr>sc_type = HttpScope, sc_method = ''POST'', sc_path = ''/x'', sc_headers = []\<rparr>"
      "\<lambda>sc. throw InsufficientFundsError" "0 :: nat" InsufficientFundsError 0]
  by (simp add: throw_def ERROR_MAP_def)

text \<open>
  What the middlewares of the libraries are relied on for, and the shape of a router: an
  application that answers every request goes on answering behind them; a router sends one
  response or raises before it sends anything.
\<close>

definition one_response :: "asgi_message list \<Rightarrow> bool" where
  "one_response ms \<longleftrightarrow> (\<exists>status hs rest. ms = ResponseStart status hs # rest \<and> \<not> list_ex is_start rest)"

definition answers :: "'s asgi \<Rightarrow> bool" where
  "answers app \<longleftrightarrow> (\<forall>sc s. sc_type sc = HttpScope \<longrightarrow> (\<exists>ms t. app sc s = (ms, Val (), t) \<and> one_response ms))"

definition relays :: "('s asgi \<Rightarrow> 's asgi) \<Rightarrow> bool" where
  "relays m \<longleftrightarrow> (\<forall>app. answers app \<longrightarrow> answers (m app))"

definition responds_or_raises :: "'s asgi \<Rightarrow> bool" where
  "responds_or_raises app \<longleftrightarrow> (\<forall>sc s. sc_type sc = HttpScope \<longrightarrow>
     (\<exists>ms t. app sc s = (ms, Val (), t) \<and> one_response ms) \<or> (\<exists>e t. app sc s = ([], Exc e, t)))"

lemma json_one_response [simp]: "one_response (json_response status detail)"
  by (simp add: one_response_def json_response_def)

lemma unhandled_answers: "responds_or_raises app \<Longrightarrow> answers (UnhandledExceptionMiddleware app)"
  unfolding answers_def
proof (intro allI impI)
  fix sc :: scope and s
  assume "responds_or_raises app" and http: "sc_type sc = HttpScope"
  then consider ms t where "app sc s = (ms, Val (), t)" "one_response ms" | e t where "app sc s = ([], Exc e, t)"
    unfolding responds_or_raises_def by blast
  then show "\<exists>ms t. UnhandledExceptionMiddleware app sc s = (ms, Val (), t) \<and> one_response ms"
    by cases (simp_all add: UnhandledExceptionMiddleware_def http handle_unexpected_error_def)
qed

lemma route_responds: "(\<And>sc s. fst (endpoint sc s) \<noteq> NoReturn) \<Longrightarrow> (\<And>sc s ms t. endpoint sc s = (Val ms, t) \<Longrightarrow> one_response ms)
    \<Longrightarrow> responds_or_raises (route endpoint)"
  unfolding responds_or_raises_def
proof (intro allI impI)
  fix sc :: scope and s
  assume a: "\<And>sc s. fst (endpoint sc s) \<noteq> NoReturn" "\<And>sc s ms t. endpoint sc s = (Val ms, t) \<Longrightarrow> one_response ms"
  obtain r t where run: "endpoint sc s = (r, t)" by force
  then show "(\<exists>ms t. route endpoint sc s = (ms, Val (), t) \<and> one_response ms) \<or> (\<exists>e t. route endpoint sc s = ([], Exc e, t))"
    using a(1) [of sc s] a(2) [of sc s]
    by (cases r) (auto simp: route_def map_of_error_handlers split: option.splits if_splits prod.splits)
qed

lemma last_status_rest: "\<not> list_ex is_start ms \<Longrightarrow> last_status st ms = st"
  by (induction st ms rule: last_status.induct) auto

lemma add_request_id_rest: "\<not> list_ex is_start ms \<Longrightarrow> map (add_request_id rid) ms = ms"
proof (induction ms)
  case (Cons m ms)
  then show ?case by (cases m) auto
qed simp

definition request_line :: "scope \<Rightarrow> ctx \<Rightarrow> int option \<Rightarrow> log_line \<Rightarrow> bool" where
  "request_line sc c status line \<longleftrightarrow> ln_request_id line = uuid_str (id_source c (ids_drawn c))
     \<and> ln_request line = Some (sc_method sc, sc_path sc, status)"

lemma request_context_one_response:
  assumes "sc_type sc = HttpScope"
    and "app sc (c\<lparr>ids_drawn := ids_drawn c + 1, request_id_var := Some (uuid_str (id_source c (ids_drawn c))), canonical_fields := Some []\<rparr>, s)
      = (ResponseStart status hs # rest, Val (), (c2, s2))" and "\<not> list_ex is_start rest"
  shows "\<exists>line c'. RequestContextMiddleware app sc (c, s)
      = (ResponseStart status (hs @ [(''X-Request-ID'', uuid_str (id_source c (ids_drawn c)))]) # rest, Val (), (c', s2))
    \<and> canonical_lines c' = canonical_lines c2 @ [line] \<and> request_line sc c (Some status) line
    \<and> http_requests_total c' = http_requests_total c2 @ [(sc_method sc, sc_path sc, Some status)]"
  using assms by (simp add: RequestContextMiddleware_def Let_def last_status_rest add_request_id_rest request_line_def)

text \<open>
  C33: every request is answered and accounted for: behind the whole stack an HTTP request whose
  \<open>Content-Length\<close> is missing or a number gets exactly one response, whatever layer made it and
  whatever the routes raised; it carries the request's \<open>X-Request-ID\<close>, and the canonical line
  written for it and the counted request name the same identifier, method, path and status.
\<close>

theorem requests_answered_and_logged:
  assumes "responds_or_raises router" and "relays slow_api" and "relays cors"
    and http: "sc_type sc = HttpScope"
    and number: "pred_option (\<lambda>v. py_int v \<noteq> None) (last_header ''content-length'' (sc_headers sc))"
  shows "\<exists>status hs rest line c' s' before. create_app cfg slow_api cors router sc (c, s)
      = (ResponseStart status (hs @ [(''X-Request-ID'', uuid_str (id_source c (ids_drawn c)))]) # rest, Val (), (c', s'))
    \<and> \<not> list_ex is_start rest
    \<and> canonical_lines c' = before @ [line] \<and> request_line sc c (Some status) line
    \<and> last (http_requests_total c') = (sc_method sc, sc_path sc, Some status)"
proof -
  let ?inner = "cors (slow_api (UnhandledExceptionMiddleware router))"
  let ?limited = "MaxBodySizeMiddleware (MAX_REQUEST_BODY_BYTES cfg) ?inner"
  let ?s1 = "(c\<lparr>ids_drawn := ids_drawn c + 1, request_id_var := Some (uuid_str (id_source c (ids_drawn c))), canonical_fields := Some []\<rparr>, s)"
  have inner: "answers ?inner"
    using assms(1-3) unhandled_answers unfolding relays_def by blast
  have "\<exists>ms t. ?limited sc ?s1 = (ms, Val (), t) \<and> one_response ms"
  proof (cases "last_header ''content-length'' (sc_headers sc)")
    case None
    with inner http show ?thesis by (simp add: MaxBodySizeMiddleware_def answers_def)
  next
    case (Some v)
    with number obtain n where "py_int v = Some n" by auto
    with Some inner http show ?thesis
      by (auto simp: MaxBodySizeMiddleware_def answers_def too_large_def one_response_def)
  qed
  then obtain status hs rest c2 s2 where run: "?limited sc ?s1 = (ResponseStart status hs # rest, Val (), (c2, s2))"
    "\<not> list_ex is_start rest" by (auto simp: one_response_def)
  from request_context_one_response [where app = ?limited, OF http run] run(2) show ?thesis
    unfolding stack_order by (metis last_snoc)
qed

text \<open>
  C34: the body limit: a request that announces more bytes than the limit is answered 413
  without any layer below seeing it, so no table changes; one whose \<open>Content-Length\<close> is no
  number is not answered at all by the stack: the middleware raises outside the layer that turns
  exceptions into responses, and the line is written without a status.
\<close>

theorem body_limit:
  assumes http: "sc_type sc = HttpScope" and len: "last_header ''content-length'' (sc_headers sc) = Some v"
  shows "(\<forall>n. py_int v = Some n \<and> MAX_REQUEST_BODY_BYTES cfg < n \<longrightarrow>
      (\<exists>line c'. create_app cfg slow_api cors router sc (c, s)
         = ([ResponseStart 413 [(''content-type'', ''application/json''), (''X-Request-ID'', uuid_str (id_source c (ids_drawn c)))],
             ResponseBody (detail_body ''request body too large'')], Val (), (c', s))
       \<and> canonical_lines c' = canonical_lines c @ [line] \<and> request_line sc c (Some 413) line))
    \<and> (py_int v = None \<longrightarrow>
      (\<exists>line c'. create_app cfg slow_api cors router sc (c, s) = ([], Exc ValueError, (c', s))
       \<and> canonical_lines c' = canonical_lines c @ [line] \<and> request_line sc c None line))"
  using http len
  by (auto simp: stack_order RequestContextMiddleware_def MaxBodySizeMiddleware_def Let_def too_large_def request_line_def)

text \<open>Requests to a server whose routes refuse everything.\<close>

definition demo_ctx :: ctx where
  "demo_ctx = \<lparr>request_id_var = None, user_id_var = None, canonical_fields = None, canonical_lines = [],
     http_requests_total = [], ids_drawn = 0, id_source = (\<lambda>n. n)\<rparr>"

definition demo_scope :: "string \<Rightarrow> scope" where
  "demo_scope len = \<lparr>sc_type = HttpScope, sc_method = ''POST'', sc_path = ''/x'', sc_headers = [(''content-length'', len)]\<rparr>"

theorem requests_answered_and_logged_witness:
  "\<exists>status hs rest c' s'. create_app default_settings id id (route (\<lambda>sc. throw OtherError)) (demo_scope ''12'') (demo_ctx, 0 :: nat)
     = (ResponseStart status (hs @ [(''X-Request-ID'', uuid_str 0)]) # rest, Val (), (c', s'))"
proof -
  have router: "responds_or_raises (route (\<lambda>sc. throw OtherError :: (ctx \<times> nat, asgi_message list) exec))"
    by (rule route_responds) (simp_all add: throw_def)
  have number: "pred_option (\<lambda>v. py_int v \<noteq> None) (last_header ''content-length'' (sc_headers (demo_scope ''12'')))"
    by (simp add: demo_scope_def last_header_def py_int_def py_strip_def py_space_def)
  have id: "relays (id :: (ctx \<times> nat) asgi \<Rightarrow> (ctx \<times> nat) asgi)" by (simp add: relays_def)
  have "sc_type (demo_scope ''12'') = HttpScope" by (simp add: demo_scope_def)
  from requests_answered_and_logged [OF router id id this number, of default_settings demo_ctx 0]
  show ?thesis by (auto simp: demo_ctx_def)
qed

theorem body_limit_witness:
  "\<exists>c'. create_app default_settings id id (route (\<lambda>sc. throw OtherError)) (demo_scope ''many'') (demo_ctx, 0 :: nat) = ([], Exc ValueError, (c', 0))"
  using body_limit [of "demo_scope ''many''" "''many''" default_settings id id "route (\<lambda>sc. throw OtherError)" demo_ctx "0 :: nat"]
  by (auto simp: demo_scope_def last_header_def py_int_def py_strip_def py_space_def)

end
