(* ===== verification/Json_Text.thy ===== *)
theory Json_Text
  imports Cursor Http
begin

text \<open>
  JSON values as text, as Python's \<open>json.dumps\<close> writes them: with the default separators and only
  ASCII for the logs, compact and with the characters as they are for the responses.
\<close>

section \<open>Escaping\<close>

definition hex4 :: "nat \<Rightarrow> string" where
  "hex4 n = map (\<lambda>i. hex_digit (n div 16 ^ i mod 16)) [3, 2, 1, 0]"

definition u_escape :: "nat \<Rightarrow> string" where
  "u_escape n = [CHR 0x5C, CHR ''u''] @ hex4 n"

text \<open>The characters that have a short escape.\<close>

definition short_escapes :: "(nat \<times> string) list" where
  "short_escapes = [(0x22, [CHR 0x5C, CHR 0x22]), (0x5C, [CHR 0x5C, CHR 0x5C]), (0x0A, [CHR 0x5C, CHR ''n'']),
     (0x0D, [CHR 0x5C, CHR ''r'']), (0x09, [CHR 0x5C, CHR ''t'']), (0x0C, [CHR 0x5C, CHR ''f'']), (0x08, [CHR 0x5C, CHR ''b''])]"

text \<open>
  One code point: \<open>ESCAPE_ASCII\<close> leaves the printable ASCII characters, and writes a code point
  beyond 16 bits as its surrogates.
\<close>

definition escape_ascii :: "nat \<Rightarrow> string" where
  "escape_ascii n = (case map_of short_escapes n of Some e \<Rightarrow> e | None \<Rightarrow>
     if 0x20 \<le> n \<and> n \<le> 0x7E then [char_of n]
     else if n < 0x10000 then u_escape n
     else u_escape (0xD800 + (n - 0x10000) div 0x400 mod 0x400) @ u_escape (0xDC00 + n mod 0x400))"

text \<open>The code points of a text given by its UTF-8 bytes.\<close>

fun code_points :: "nat list \<Rightarrow> nat list" where
  "code_points [] = []"
| "code_points (b # bs) =
     (if b < 0x80 then b # code_points bs
      else if b < 0xE0 then (case bs of
          b1 # r \<Rightarrow> ((b - 0xC0) * 0x40 + b1 mod 0x40) # code_points r | _ \<Rightarrow> [])
      else if b < 0xF0 then (case bs of
          b1 # b2 # r \<Rightarrow> ((b - 0xE0) * 0x1000 + b1 mod 0x40 * 0x40 + b2 mod 0x40) # code_points r | _ \<Rightarrow> [])
      else (case bs of
          b1 # b2 # b3 # r \<Rightarrow> ((b - 0xF0) * 0x40000 + b1 mod 0x40 * 0x1000 + b2 mod 0x40 * 0x40 + b3 mod 0x40) # code_points r
        | _ \<Rightarrow> []))"

definition encode_ascii :: "string \<Rightarrow> string" where
  "encode_ascii s = concat (map escape_ascii (code_points (map of_char s)))"

text \<open>Without \<open>ensure_ascii\<close> only quotes, backslashes and control characters are escaped.\<close>

definition encode_plain :: "string \<Rightarrow> string" where
  "encode_plain s = concat (map (\<lambda>c. case map_of short_escapes (of_char c) of Some e \<Rightarrow> e
     | None \<Rightarrow> if of_char c < (0x20 :: nat) then u_escape (of_char c) else [c]) s)"

section \<open>Values\<close>

definition quoted :: "(string \<Rightarrow> string) \<Rightarrow> string \<Rightarrow> string" where
  "quoted enc s = CHR 0x22 # enc s @ [CHR 0x22]"

fun joined :: "string \<Rightarrow> string list \<Rightarrow> string" where
  "joined sep [] = []"
| "joined sep [x] = x"
| "joined sep (x # y # ys) = x @ sep @ joined sep (y # ys)"

lemma size_member [termination_simp]: "p \<in> set kvs \<Longrightarrow> size (snd p) < Suc (size_list (\<lambda>p. Suc (size (snd p))) kvs)"
  by (induction kvs) auto

fun json_text :: "(string \<Rightarrow> string) \<Rightarrow> string \<Rightarrow> string \<Rightarrow> json \<Rightarrow> string" where
  "json_text enc item key JNull = ''null''"
| "json_text enc item key (JBool b) = (if b then ''true'' else ''false'')"
| "json_text enc item key (JInt n) = dec_int n"
| "json_text enc item key (JStr s) = quoted enc s"
| "json_text enc item key (JList xs) = ''['' @ joined item (map (json_text enc item key) xs) @ '']''"
| "json_text enc item key (JObj kvs) =
     ''{'' @ joined item (map (\<lambda>p. quoted enc (fst p) @ key @ json_text enc item key (snd p)) kvs) @ ''}''"

text \<open>\<open>json.dumps(value)\<close>, and the text of a response.\<close>

definition dumps :: "json \<Rightarrow> string" where
  "dumps = json_text encode_ascii '', '' '': ''"

definition response_text :: "json \<Rightarrow> string" where
  "response_text = json_text encode_plain '','' '':''"

section \<open>The text is printable\<close>

definition printable :: "char \<Rightarrow> bool" where
  "printable c \<longleftrightarrow> 0x20 \<le> (of_char c :: nat) \<and> (of_char c :: nat) \<le> 0x7E"

lemma printable_chars [simp]: "printable (CHR 0x5C)" "printable (CHR 0x22)" "printable (CHR ''u'')" "printable (CHR ''n'')"
    "printable (CHR ''r'')" "printable (CHR ''t'')" "printable (CHR ''f'')" "printable (CHR ''b'')"
  by (simp_all add: printable_def)

lemma printable_hex_digit [simp]: "printable (hex_digit (n mod 16))"
proof -
  have "\<forall>c \<in> set ''0123456789abcdef''. printable c" by (simp add: printable_def)
  moreover have "''0123456789abcdef'' ! (n mod 16) \<in> set ''0123456789abcdef''" by (rule nth_mem) simp
  ultimately show ?thesis unfolding hex_digit_def by blast
qed

lemma printable_u_escape: "c \<in> set (u_escape n) \<Longrightarrow> printable c"
  by (auto simp: u_escape_def hex4_def simp del: One_nat_def)

lemma printable_short: "map_of short_escapes n = Some e \<Longrightarrow> c \<in> set e \<Longrightarrow> printable c"
  by (auto simp: short_escapes_def split: if_splits)

lemma printable_escape: "c \<in> set (escape_ascii n) \<Longrightarrow> printable c"
  by (auto simp: escape_ascii_def printable_def [of "char_of n"] dest: printable_short printable_u_escape
      split: if_splits option.splits)

lemma printable_encode: "c \<in> set (encode_ascii s) \<Longrightarrow> printable c"
  by (auto simp: encode_ascii_def dest: printable_escape)

lemma printable_quoted: "c \<in> set (quoted encode_ascii s) \<Longrightarrow> printable c"
  by (auto simp: quoted_def dest: printable_encode)

lemma set_joined: "c \<in> set (joined sep xs) \<Longrightarrow> c \<in> set sep \<or> (\<exists>x \<in> set xs. c \<in> set x)"
  by (induction sep xs rule: joined.induct) auto

lemma printable_dec_int: "c \<in> set (dec_int n) \<Longrightarrow> printable c"
proof -
  have "printable (digit_char d)" if "d < 10" for d
    using less_ten_cases [OF that] by (auto simp: digit_char_def printable_def)
  then show "c \<in> set (dec_int n) \<Longrightarrow> printable c"
    by (auto simp: dec_int_def printable_def [of "CHR ''-''"] dest!: dec_nat_digits split: if_splits)
qed

lemma printable_json:
  assumes "\<forall>c \<in> set item. printable c" "\<forall>c \<in> set key. printable c"
  shows "c \<in> set (json_text encode_ascii item key j) \<Longrightarrow> printable c"
proof (induction j arbitrary: c)
  case (JList xs)
  then show ?case using assms
    by (auto simp: printable_def [of "CHR ''[''"] printable_def [of "CHR '']''"] dest!: set_joined)
next
  case (JObj kvs)
  then show ?case using assms
    by (auto simp: printable_def [of "CHR ''{''"] printable_def [of "CHR ''}''"] dest!: set_joined dest: printable_quoted)
      (blast intro: printable_quoted)
qed (auto simp: printable_def [of "CHR ''a''"] printable_def [of "CHR ''e''"] printable_def [of "CHR ''l''"]
    printable_def [of "CHR ''s''"] dest: printable_dec_int printable_quoted split: if_splits)

lemma printable_dumps: "c \<in> set (dumps j) \<Longrightarrow> printable c"
  unfolding dumps_def by (rule printable_json) (simp_all add: printable_def)

end
