(* ===== verification/Logging.thy ===== *)
theory Logging
  imports Json_Text
begin

text \<open>
  \<open>app/infra/logging.py\<close>: a log record as one line of JSON, and the canonical line that the
  request context hands to it. The duration of a request is not modelled, so the line has no
  \<open>duration_ms\<close>.
\<close>

record log_record =
  lr_created :: time
  lr_levelname :: string
  lr_name :: string
  lr_message :: string
  lr_canonical :: "(string \<times> json) list option"
  lr_exception :: "string option"

definition timestamp :: "log_record \<Rightarrow> string" where
  "timestamp rec = isoformat (lr_created rec)"

text \<open>\<open>{..., **updates}\<close> and \<open>d[key] = value\<close> on a dictionary that keeps its order.\<close>

definition dict_update :: "(string \<times> json) list \<Rightarrow> (string \<times> json) list \<Rightarrow> (string \<times> json) list" where
  "dict_update d updates = fold dict_set updates d"

definition JsonFormatter_format :: "ctx \<Rightarrow> log_record \<Rightarrow> string" where
  "JsonFormatter_format c rec = (case lr_canonical rec of
     Some canonical \<Rightarrow> dumps (JObj (dict_update
       [(''timestamp'', JStr (timestamp rec)), (''level'', JStr (lr_levelname rec)), (''event'', JStr (lr_message rec))] canonical))
   | None \<Rightarrow>
       let payload = [(''timestamp'', JStr (timestamp rec)), (''level'', JStr (lr_levelname rec)),
             (''logger'', JStr (lr_name rec)), (''message'', JStr (lr_message rec))];
           payload = (case request_id_var c of None \<Rightarrow> payload | Some i \<Rightarrow> dict_update payload [(''request_id'', JStr i)]);
           payload = (case user_id_var c of None \<Rightarrow> payload | Some i \<Rightarrow> dict_update payload [(''user_id'', JStr i)]);
           payload = (case lr_exception rec of None \<Rightarrow> payload | Some x \<Rightarrow> dict_update payload [(''exception'', JStr x)])
       in dumps (JObj payload))"

text \<open>The dictionary of a canonical line, as \<open>RequestContextMiddleware\<close> builds it.\<close>

definition str_or_null :: "string option \<Rightarrow> json" where
  "str_or_null s = (case s of None \<Rightarrow> JNull | Some x \<Rightarrow> JStr x)"

fun scope_type_text :: "scope_type \<Rightarrow> string" where
  "scope_type_text HttpScope = ''http''"
| "scope_type_text WebsocketScope = ''websocket''"
| "scope_type_text LifespanScope = ''lifespan''"

definition canonical_dict :: "log_line \<Rightarrow> (string \<times> json) list" where
  "canonical_dict line =
     (let d = dict_update [(''request_id'', JStr (ln_request_id line)), (''user_id'', str_or_null (ln_user_id line)),
            (''type'', JStr (scope_type_text (ln_type line)))] (ln_fields line)
      in case ln_request line of None \<Rightarrow> d
         | Some (m, p, st) \<Rightarrow> dict_update d [(''method'', JStr m), (''path'', JStr p),
             (''status_code'', (case st of None \<Rightarrow> JNull | Some n \<Rightarrow> JInt n))])"

section \<open>Dictionaries\<close>

lemma map_of_dict_set [simp]: "map_of (dict_set (k, v) d) = (map_of d)(k \<mapsto> v)"
  by (induction "(k, v)" d rule: dict_set.induct) (auto simp: fun_eq_iff)

lemma keys_dict_set: "fst ` set (dict_set (k, v) d) = insert k (fst ` set d)"
  by (induction "(k, v)" d rule: dict_set.induct) auto

lemma distinct_dict_set [simp]: "distinct (map fst d) \<Longrightarrow> distinct (map fst (dict_set kv d))"
proof (induction kv d rule: dict_set.induct)
  case (2 k v k' v' kvs)
  then show ?case using keys_dict_set [of k v kvs] by (auto simp: image_iff)
qed simp

lemma map_of_dict_update: "map_of (dict_update d updates) = (\<lambda>k. case map_of (rev updates) k of Some v \<Rightarrow> Some v | None \<Rightarrow> map_of d k)"
proof (induction updates arbitrary: d)
  case (Cons kv updates)
  obtain k v where kv: "kv = (k, v)" by force
  have "map_of (dict_update d (kv # updates)) = map_of (dict_update (dict_set kv d) updates)" by (simp add: dict_update_def)
  with Cons.IH [of "dict_set kv d"] kv show ?case by (auto simp: fun_eq_iff map_add_def split: option.split)
qed (simp add: dict_update_def)

lemma distinct_dict_update: "distinct (map fst d) \<Longrightarrow> distinct (map fst (dict_update d updates))"
  unfolding dict_update_def by (induction updates arbitrary: d) auto

section \<open>Lines\<close>

lemma format_dict: "\<exists>d. JsonFormatter_format c rec = dumps (JObj d) \<and> distinct (map fst d)"
  by (auto simp: JsonFormatter_format_def Let_def intro!: exI distinct_dict_update split: option.split)

text \<open>
  a log record is one line: whatever text a client, an exception or a header brought into
  it, every character of the formatted record is a printable ASCII character, so nothing in it
  can start a line of its own or look like another record; the record is one JSON object in
  which no key is repeated.
\<close>

theorem one_record_one_line:
  "list_all printable (JsonFormatter_format c rec) \<and> CHR 0x0A \<notin> set (JsonFormatter_format c rec)
     \<and> (\<exists>d. JsonFormatter_format c rec = dumps (JObj d) \<and> distinct (map fst d))"
proof -
  obtain d where d: "JsonFormatter_format c rec = dumps (JObj d)" "distinct (map fst d)" using format_dict by blast
  have "\<not> printable (CHR 0x0A)" by (simp add: printable_def)
  with d show ?thesis by (auto simp: list_all_iff dest: printable_dumps)
qed

end
