(* ===== verification/Requests.thy ===== *)
theory Requests
  imports Roulette_Service Idempotency History Security Logging
begin

text \<open>
  What the endpoints of \<open>app/api/v1/auth.py\<close>, \<open>app/api/v1/wallet.py\<close> and \<open>app/api/v1/roulette.py\<close>
  take and give: the request and response models with their constraints. The texts and numbers
  that pydantic reads leniently (an integer given as a text, the normal form of an e-mail
  address) are parameters; a request that does not fit its model is \<open>None\<close>, which FastAPI answers
  with 422, and a result that does not fit its response model raises.
\<close>

section \<open>The libraries\<close>

record http_response =
  rs_status :: int
  rs_content :: "json option"

record framework =
  fw_crypto :: crypto
  fw_citext :: "string \<Rightarrow> string"
  fw_uuid :: "string \<Rightarrow> uuid option"
  fw_datetime :: "string \<Rightarrow> time option"
  fw_show_datetime :: "time \<Rightarrow> string"
  fw_lax_int :: "json \<Rightarrow> int option"
  fw_lax_bool :: "json \<Rightarrow> bool option"
  fw_email :: "string \<Rightarrow> string option"
  fw_limited :: "string \<Rightarrow> http_response"

text \<open>What the application relies on: an integer and a truth value read as themselves.\<close>

definition framework_ok :: "framework \<Rightarrow> bool" where
  "framework_ok fw \<longleftrightarrow> (\<forall>n. fw_lax_int fw (JInt n) = Some n) \<and> (\<forall>b. fw_lax_bool fw (JBool b) = Some b)"

record http_request =
  rq_authorization :: "string option"
  rq_idempotency_key :: "string option"
  rq_cursor :: "string option"
  rq_limit :: "string option"
  rq_body :: bytes
  rq_json :: json
  rq_within :: "string \<Rightarrow> bool"

section \<open>Fields\<close>

text \<open>The number of characters of a text given by its UTF-8 bytes.\<close>

definition py_len :: "string \<Rightarrow> nat" where
  "py_len s = length (filter (\<lambda>c. (of_char c :: nat) div 64 \<noteq> 2) s)"

definition length_within :: "nat \<Rightarrow> nat \<Rightarrow> string \<Rightarrow> bool" where
  "length_within lo hi s \<longleftrightarrow> lo \<le> py_len s \<and> py_len s \<le> hi"

text \<open>A model with \<open>extra="forbid"\<close> reads an object that has no other fields.\<close>

definition only_fields :: "string list \<Rightarrow> json \<Rightarrow> (string \<Rightarrow> json option) option" where
  "only_fields names j = (case j of
     JObj kvs \<Rightarrow> if set (map fst kvs) \<subseteq> set names then Some (map_of kvs) else None
   | _ \<Rightarrow> None)"

fun str_field :: "json option \<Rightarrow> string option" where
  "str_field (Some (JStr s)) = Some s"
| "str_field _ = None"

definition int_field :: "framework \<Rightarrow> json option \<Rightarrow> int option" where
  "int_field fw j = Option.bind j (fw_lax_int fw)"

fun all_some :: "'a option list \<Rightarrow> 'a list option" where
  "all_some [] = Some []"
| "all_some (x # xs) = Option.bind x (\<lambda>y. map_option (\<lambda>ys. y # ys) (all_some xs))"

section \<open>Accounts\<close>

record credentials =
  rg_email :: string
  rg_password :: string

definition credentials_of :: "framework \<Rightarrow> nat \<Rightarrow> json \<Rightarrow> credentials option" where
  "credentials_of fw min_length j =
     Option.bind (only_fields [''email'', ''password''] j) (\<lambda>f.
     Option.bind (Option.bind (str_field (f ''email'')) (fw_email fw)) (\<lambda>email.
     Option.bind (str_field (f ''password'')) (\<lambda>password.
     if length_within min_length 128 password then Some \<lparr>rg_email = email, rg_password = password\<rparr> else None)))"

definition RegisterRequest :: "framework \<Rightarrow> json \<Rightarrow> credentials option" where
  "RegisterRequest fw = credentials_of fw 8"

definition LoginRequest :: "framework \<Rightarrow> json \<Rightarrow> credentials option" where
  "LoginRequest fw = credentials_of fw 1"

definition RefreshRequest :: "json \<Rightarrow> string option" where
  "RefreshRequest j = Option.bind (only_fields [''refresh_token''] j) (\<lambda>f. str_field (f ''refresh_token''))"

definition TokenResponse :: "token_pair \<Rightarrow> json" where
  "TokenResponse p = JObj [(''access_token'', JStr (access_token p)), (''refresh_token'', JStr (refresh_token p)),
     (''token_type'', JStr ''bearer'')]"

definition UserResponse :: "framework \<Rightarrow> user_row \<Rightarrow> json" where
  "UserResponse fw u = JObj [(''id'', JStr (uuid_str (u_id u))), (''email'', JStr (u_email u)),
     (''status'', JStr (u_status u)), (''created_at'', JStr (fw_show_datetime fw (u_created_at u)))]"

section \<open>The wallet\<close>

definition DepositRequest :: "framework \<Rightarrow> json \<Rightarrow> int option" where
  "DepositRequest fw j =
     Option.bind (only_fields [''amount_minor''] j) (\<lambda>f.
     Option.bind (int_field fw (f ''amount_minor'')) (\<lambda>n.
     if 0 < n \<and> n \<le> MAX_DEPOSIT_MINOR then Some n else None))"

definition idempotency_key_of :: "http_request \<Rightarrow> string option" where
  "idempotency_key_of rq = Option.bind (rq_idempotency_key rq) (\<lambda>k.
     if length_within 1 IDEMPOTENCY_KEY_MAX_LENGTH k then Some k else None)"

text \<open>\<open>d["key"]\<close> on a result.\<close>

fun item_of :: "string \<Rightarrow> json \<Rightarrow> exn + json" where
  "item_of k (JObj kvs) = (case map_of kvs k of None \<Rightarrow> Inl KeyError | Some v \<Rightarrow> Inr v)"
| "item_of k _ = Inl TypeError"

fun or_invalid :: "'a option \<Rightarrow> exn + 'a" where
  "or_invalid None = Inl ValidationError"
| "or_invalid (Some x) = Inr x"

fun fields_of :: "json \<Rightarrow> string \<Rightarrow> json option" where
  "fields_of (JObj kvs) = map_of kvs"
| "fields_of _ = (\<lambda>_. None)"

definition BalanceResponse :: "framework \<Rightarrow> json \<Rightarrow> exn + json" where
  "BalanceResponse fw j =
     sbind (or_invalid (int_field fw (fields_of j ''balance_minor''))) (\<lambda>n.
     sbind (or_invalid (str_field (fields_of j ''currency''))) (\<lambda>c.
     Inr (JObj [(''balance_minor'', JInt n), (''currency'', JStr c)])))"

definition DepositResponse :: "framework \<Rightarrow> json \<Rightarrow> exn + json" where
  "DepositResponse = BalanceResponse"

definition transaction_item_json :: "framework \<Rightarrow> transaction_item \<Rightarrow> json" where
  "transaction_item_json fw t = JObj [(''id'', JStr (uuid_str (ti_id t))), (''amount_minor'', JInt (ti_amount_minor t)),
     (''balance_after_minor'', JInt (ti_balance_after_minor t)), (''kind'', JStr (ti_kind t)),
     (''ref_type'', str_or_null (ti_ref_type t)), (''ref_id'', str_or_null (map_option uuid_str (ti_ref_id t))),
     (''created_at'', JStr (fw_show_datetime fw (ti_created_at t)))]"

definition transactions_page_json :: "framework \<Rightarrow> transactions_page \<Rightarrow> json" where
  "transactions_page_json fw p = JObj [(''items'', JList (map (transaction_item_json fw) (tp_items p))),
     (''next_cursor'', str_or_null (tp_next_cursor p))]"

section \<open>Roulette\<close>

definition FairnessCurrentResponse :: "framework \<Rightarrow> json \<Rightarrow> exn + json" where
  "FairnessCurrentResponse fw j =
     sbind (or_invalid (str_field (fields_of j ''server_seed_hash''))) (\<lambda>h.
     sbind (or_invalid (str_field (fields_of j ''client_seed''))) (\<lambda>c.
     sbind (or_invalid (int_field fw (fields_of j ''nonce''))) (\<lambda>n.
     Inr (JObj [(''server_seed_hash'', JStr h), (''client_seed'', JStr c), (''nonce'', JInt n)]))))"

definition FairnessRotateResponse :: "json \<Rightarrow> exn + json" where
  "FairnessRotateResponse j =
     sbind (or_invalid (str_field (fields_of j ''revealed_server_seed''))) (\<lambda>s.
     sbind (or_invalid (str_field (fields_of j ''revealed_server_seed_hash''))) (\<lambda>h.
     sbind (or_invalid (str_field (fields_of j ''new_server_seed_hash''))) (\<lambda>h'.
     sbind (or_invalid (str_field (fields_of j ''new_client_seed''))) (\<lambda>c.
     Inr (JObj [(''revealed_server_seed'', JStr s), (''revealed_server_seed_hash'', JStr h),
       (''new_server_seed_hash'', JStr h'), (''new_client_seed'', JStr c)])))))"

definition MAX_BETS_PER_ROUND :: nat where "MAX_BETS_PER_ROUND = 20"

text \<open>\<open>Selection = dict[str, int | list[int]]\<close>; \<open>BetType\<close> by its value.\<close>

definition sel_value_of :: "framework \<Rightarrow> json \<Rightarrow> sel_value option" where
  "sel_value_of fw j = (case j of
     JList xs \<Rightarrow> map_option SelList (all_some (map (fw_lax_int fw) xs))
   | _ \<Rightarrow> map_option SelInt (fw_lax_int fw j))"

definition selection_of :: "framework \<Rightarrow> json option \<Rightarrow> selection option" where
  "selection_of fw j = (case j of
     Some (JObj kvs) \<Rightarrow> all_some (map (\<lambda>(k, v). map_option (Pair k) (sel_value_of fw v)) kvs)
   | _ \<Rightarrow> None)"

definition bet_type_of :: "json option \<Rightarrow> bet_type option" where
  "bet_type_of j = Option.bind (str_field j) (\<lambda>s. case parse_bet_type s of Inl _ \<Rightarrow> None | Inr t \<Rightarrow> Some t)"

definition BetInput :: "framework \<Rightarrow> json \<Rightarrow> bet_request option" where
  "BetInput fw j =
     Option.bind (only_fields [''bet_type'', ''selection'', ''stake_minor''] j) (\<lambda>f.
     Option.bind (bet_type_of (f ''bet_type'')) (\<lambda>t.
     Option.bind (selection_of fw (f ''selection'')) (\<lambda>sel.
     Option.bind (int_field fw (f ''stake_minor'')) (\<lambda>n.
     if 0 < n then Some \<lparr>br_bet_type = t, br_selection = sel, br_stake_minor = n\<rparr> else None))))"

definition PlaceRoundRequest :: "framework \<Rightarrow> json \<Rightarrow> bet_request list option" where
  "PlaceRoundRequest fw j =
     Option.bind (only_fields [''bets''] j) (\<lambda>f. case f ''bets'' of
       Some (JList bs) \<Rightarrow> Option.bind (all_some (map (BetInput fw) bs)) (\<lambda>reqs.
         if 1 \<le> length reqs \<and> length reqs \<le> MAX_BETS_PER_ROUND then Some reqs else None)
     | _ \<Rightarrow> None)"

definition SettledBetResponse :: "framework \<Rightarrow> json \<Rightarrow> exn + json" where
  "SettledBetResponse fw j =
     sbind (or_invalid (bet_type_of (fields_of j ''bet_type''))) (\<lambda>t.
     sbind (or_invalid (selection_of fw (fields_of j ''selection''))) (\<lambda>sel.
     sbind (or_invalid (int_field fw (fields_of j ''stake_minor''))) (\<lambda>stake.
     sbind (or_invalid (int_field fw (fields_of j ''payout_minor''))) (\<lambda>payout.
     sbind (or_invalid (Option.bind (fields_of j ''won'') (fw_lax_bool fw))) (\<lambda>won.
     Inr (settled_bet_view_to_dict \<lparr>sv_bet_type = t, sv_selection = sel, sv_stake_minor = stake,
       sv_payout_minor = payout, sv_won = won\<rparr>))))))"

definition RoundResponse :: "framework \<Rightarrow> json \<Rightarrow> exn + json" where
  "RoundResponse fw j =
     sbind (or_invalid (Option.bind (str_field (fields_of j ''round_id'')) (parse_uuid (fw_uuid fw)))) (\<lambda>i.
     sbind (or_invalid (int_field fw (fields_of j ''outcome''))) (\<lambda>v.
     sbind (case fields_of j ''bets'' of Some (JList bs) \<Rightarrow> smap (SettledBetResponse fw) bs | _ \<Rightarrow> Inl ValidationError) (\<lambda>bs.
     sbind (or_invalid (int_field fw (fields_of j ''total_stake_minor''))) (\<lambda>staked.
     sbind (or_invalid (int_field fw (fields_of j ''total_payout_minor''))) (\<lambda>paid.
     sbind (or_invalid (int_field fw (fields_of j ''net_minor''))) (\<lambda>net.
     sbind (or_invalid (int_field fw (fields_of j ''balance_minor''))) (\<lambda>balance.
     Inr (JObj [(''round_id'', JStr (uuid_str i)), (''outcome'', JInt v), (''bets'', JList bs),
       (''total_stake_minor'', JInt staked), (''total_payout_minor'', JInt paid), (''net_minor'', JInt net),
       (''balance_minor'', JInt balance)]))))))))"

definition shown_bet_json :: "settled_bet_response \<Rightarrow> json" where
  "shown_bet_json b = settled_bet_view_to_dict \<lparr>sv_bet_type = sr_bet_type b, sv_selection = sr_selection b,
     sv_stake_minor = sr_stake_minor b, sv_payout_minor = sr_payout_minor b, sv_won = sr_won b\<rparr>"

definition round_history_page_json :: "framework \<Rightarrow> round_history_page \<Rightarrow> json" where
  "round_history_page_json fw p = JObj
     [(''items'', JList (map (\<lambda>i. JObj [(''round_id'', JStr (uuid_str (hi_round_id i))), (''outcome'', JInt (hi_outcome i)),
        (''created_at'', JStr (fw_show_datetime fw (hi_created_at i))), (''bets'', JList (map shown_bet_json (hi_bets i)))]) (rp_items p))),
      (''next_cursor'', str_or_null (rp_next_cursor p))]"

text \<open>\<open>Query(default=20, ge=1, le=100)\<close>.\<close>

definition page_limit :: "framework \<Rightarrow> http_request \<Rightarrow> nat option" where
  "page_limit fw rq = (case rq_limit rq of
     None \<Rightarrow> Some 20
   | Some t \<Rightarrow> Option.bind (fw_lax_int fw (JStr t)) (\<lambda>n. if 1 \<le> n \<and> n \<le> 100 then Some (nat n) else None))"

end
