(* ===== verification/Endpoints.thy ===== *)
theory Endpoints
  imports Requests Ws_Endpoint Application
begin

text \<open>
  The routes of \<open>app/api/v1/auth.py\<close>, \<open>app/api/v1/wallet.py\<close> and \<open>app/api/v1/roulette.py\<close>, with the
  dependencies of \<open>app/api/deps.py\<close> in the order FastAPI resolves them: the session opens, the
  user of the token is looked up, the fields are validated, then the rate limit of the route and
  the handler run, and the session closes. The state is the context of the request and the
  server: tables, notification hub, counters.
\<close>

section \<open>The state of a request\<close>

record server =
  sv_app :: ws_app
  bets_placed_total :: "string list"

type_synonym http_state = "ctx \<times> server"

definition world_of :: "http_state \<Rightarrow> world" where
  "world_of s = ws_world (sv_app (snd s))"

definition in_world :: "(world, 'a) exec \<Rightarrow> (http_state, 'a) exec" where
  "in_world = on_part world_of (\<lambda>f (c, s). (c, sv_app_update (ws_world_update f) s))"

definition in_hub :: "(hub, 'a) exec \<Rightarrow> (http_state, 'a) exec" where
  "in_hub = on_part (\<lambda>s. ws_hub (sv_app (snd s))) (\<lambda>f (c, s). (c, sv_app_update (ws_hub_update f) s))"

definition on_ctx :: "(ctx \<Rightarrow> ctx) \<Rightarrow> (http_state, unit) exec" where
  "on_ctx f = modify (\<lambda>(c, s). (f c, s))"

section \<open>Dependencies\<close>

text \<open>\<open>get_session\<close>: a unit of work around everything that follows.\<close>

fun close_session :: "'a result \<times> http_state \<Rightarrow> 'a result \<times> http_state" where
  "close_session (Val x, t) = (Val x, snd (in_world session_commit t))"
| "close_session (r, t) = (r, snd (in_world (modify (\<lambda>w. w\<lparr>db := committed w\<rparr>)) t))"

definition get_session :: "(http_state, 'a) exec \<Rightarrow> (http_state, 'a) exec" where
  "get_session body = (\<lambda>s. close_session (bind (in_world begin_tx) (\<lambda>_. body) s))"

definition current_user :: "framework \<Rightarrow> settings \<Rightarrow> http_request \<Rightarrow> (http_state, user_row) exec" where
  "current_user fw cfg rq =
     bind (in_world (get_current_user (fw_crypto fw) (fw_uuid fw) cfg (rq_authorization rq))) (\<lambda>user.
     bind (on_ctx (\<lambda>c. c\<lparr>user_id_var := Some (uuid_str (u_id user))\<rparr>)) (\<lambda>_.
     bind (on_ctx (bind_canonical [(''user_id'', JStr (uuid_str (u_id user)))])) (\<lambda>_.
     ret user)))"

definition json_answer :: "int \<Rightarrow> json \<Rightarrow> http_response" where
  "json_answer status j = \<lparr>rs_status = status, rs_content = Some j\<rparr>"

text \<open>The answer to a request that does not fit; its text is FastAPI's.\<close>

definition unprocessable :: http_response where
  "unprocessable = \<lparr>rs_status = 422, rs_content = None\<rparr>"

definition validated_request :: "'a option \<Rightarrow> ('a \<Rightarrow> (http_state, http_response) exec) \<Rightarrow> (http_state, http_response) exec" where
  "validated_request x handler = (case x of None \<Rightarrow> ret unprocessable | Some y \<Rightarrow> handler y)"

text \<open>\<open>@limiter.limit(spec)\<close> around a handler.\<close>

definition limited :: "framework \<Rightarrow> http_request \<Rightarrow> string \<Rightarrow> (http_state, http_response) exec \<Rightarrow> (http_state, http_response) exec" where
  "limited fw rq spec handler = (if rq_within rq spec then handler else ret (fw_limited fw spec))"

definition GLOBAL_RATE_LIMIT :: string where "GLOBAL_RATE_LIMIT = ''200/minute''"

section \<open>Accounts\<close>

definition register_route :: "framework \<Rightarrow> settings \<Rightarrow> http_request \<Rightarrow> (http_state, http_response) exec" where
  "register_route fw cfg rq = get_session (validated_request (RegisterRequest fw (rq_json rq)) (\<lambda>body.
     limited fw rq ''5/minute'' (
     bind (in_world (register_user (fw_citext fw) (fw_crypto fw) cfg (rg_email body) (rg_password body))) (\<lambda>(_, tokens).
     ret (json_answer 201 (TokenResponse tokens))))))"

definition login_route :: "framework \<Rightarrow> settings \<Rightarrow> http_request \<Rightarrow> (http_state, http_response) exec" where
  "login_route fw cfg rq = get_session (validated_request (LoginRequest fw (rq_json rq)) (\<lambda>body.
     limited fw rq ''5/minute'' (
     bind (in_world (login (fw_citext fw) (fw_crypto fw) cfg (rg_email body) (rg_password body))) (\<lambda>(_, tokens).
     ret (json_answer 200 (TokenResponse tokens))))))"

definition refresh_route :: "framework \<Rightarrow> settings \<Rightarrow> http_request \<Rightarrow> (http_state, http_response) exec" where
  "refresh_route fw cfg rq = get_session (validated_request (RefreshRequest (rq_json rq)) (\<lambda>raw.
     limited fw rq ''10/minute'' (
     bind (in_world (refresh_access_token (fw_crypto fw) cfg raw)) (\<lambda>tokens.
     ret (json_answer 200 (TokenResponse tokens))))))"

text \<open>A route of a signed-in user: the session, the user, the fields, the limit, the handler.\<close>

definition signed_in ::
  "framework \<Rightarrow> settings \<Rightarrow> http_request \<Rightarrow> string \<Rightarrow> 'a option \<Rightarrow> (user_row \<Rightarrow> 'a \<Rightarrow> (http_state, http_response) exec)
     \<Rightarrow> (http_state, http_response) exec" where
  "signed_in fw cfg rq spec x handler = get_session (
     bind (current_user fw cfg rq) (\<lambda>user.
     validated_request x (\<lambda>y. limited fw rq spec (handler user y))))"

definition me_route :: "framework \<Rightarrow> settings \<Rightarrow> http_request \<Rightarrow> (http_state, http_response) exec" where
  "me_route fw cfg rq = signed_in fw cfg rq GLOBAL_RATE_LIMIT (Some ()) (\<lambda>user _.
     ret (json_answer 200 (UserResponse fw user)))"

definition logout_route :: "framework \<Rightarrow> settings \<Rightarrow> http_request \<Rightarrow> (http_state, http_response) exec" where
  "logout_route fw cfg rq = signed_in fw cfg rq GLOBAL_RATE_LIMIT (RefreshRequest (rq_json rq)) (\<lambda>user raw.
     bind (in_world (logout (u_id user) raw)) (\<lambda>_.
     ret \<lparr>rs_status = 204, rs_content = None\<rparr>))"

section \<open>The wallet\<close>

definition balance_route :: "framework \<Rightarrow> settings \<Rightarrow> http_request \<Rightarrow> (http_state, http_response) exec" where
  "balance_route fw cfg rq = signed_in fw cfg rq GLOBAL_RATE_LIMIT (Some ()) (\<lambda>user _.
     bind (in_world (get_balance (u_id user))) (\<lambda>v.
     bind (lift_sum (BalanceResponse fw (balance_view_to_dict v))) (\<lambda>j.
     ret (json_answer 200 j))))"

definition transactions_route :: "framework \<Rightarrow> settings \<Rightarrow> http_request \<Rightarrow> (http_state, http_response) exec" where
  "transactions_route fw cfg rq = signed_in fw cfg rq GLOBAL_RATE_LIMIT (page_limit fw rq) (\<lambda>user limit.
     bind (in_world (transactions_endpoint (fw_datetime fw, fw_uuid fw) (u_id user) (rq_cursor rq) limit)) (\<lambda>page.
     ret (json_answer 200 (transactions_page_json fw page))))"

text \<open>\<open>{"type": ..., **result}\<close>.\<close>

fun notification :: "string \<Rightarrow> json \<Rightarrow> exn + json" where
  "notification type (JObj kvs) = Inr (JObj (dict_update [(''type'', JStr type)] kvs))"
| "notification type _ = Inl TypeError"

text \<open>
  A request with an \<open>Idempotency-Key\<close>: the work runs under the key, and what it returned, now or
  the first time, is notified and answered.
\<close>

definition keyed_route ::
  "framework \<Rightarrow> settings \<Rightarrow> http_request \<Rightarrow> string \<Rightarrow> 'y option \<Rightarrow> (uuid \<Rightarrow> string \<Rightarrow> 'y \<Rightarrow> (world, json) exec)
     \<Rightarrow> (uuid \<Rightarrow> 'y \<Rightarrow> json \<Rightarrow> (http_state, http_response) exec) \<Rightarrow> (http_state, http_response) exec" where
  "keyed_route fw cfg rq spec body work reply =
     signed_in fw cfg rq spec (Option.bind body (\<lambda>y. map_option (Pair y) (idempotency_key_of rq))) (\<lambda>user (y, key).
     bind (in_world (run_idempotent (u_id user) key (hash_request_body (rq_body rq)) (IDEMPOTENCY_KEY_TTL_HOURS cfg)
         (work (u_id user) key y))) (reply (u_id user) y))"

definition deposit_reply :: "framework \<Rightarrow> uuid \<Rightarrow> int \<Rightarrow> json \<Rightarrow> (http_state, http_response) exec" where
  "deposit_reply fw uid amount result =
     bind (lift_sum (notification ''balance.updated'' result)) (\<lambda>m.
     bind (in_hub (publish uid m)) (\<lambda>_.
     bind (lift_sum (item_of ''balance_minor'' result)) (\<lambda>balance.
     bind (on_ctx (bind_canonical [(''amount_minor'', JInt amount), (''balance_minor'', balance)])) (\<lambda>_.
     bind (lift_sum (DepositResponse fw result)) (\<lambda>j.
     ret (json_answer 200 j))))))"

definition deposit_route :: "framework \<Rightarrow> settings \<Rightarrow> http_request \<Rightarrow> (http_state, http_response) exec" where
  "deposit_route fw cfg rq = keyed_route fw cfg rq ''30/minute'' (DepositRequest fw (rq_json rq)) (deposit_work cfg) (deposit_reply fw)"

section \<open>Roulette\<close>

definition fairness_current_route :: "framework \<Rightarrow> settings \<Rightarrow> http_request \<Rightarrow> (http_state, http_response) exec" where
  "fairness_current_route fw cfg rq = signed_in fw cfg rq GLOBAL_RATE_LIMIT (Some ()) (\<lambda>user _.
     bind (in_world (get_current_seed (u_id user))) (\<lambda>v.
     bind (lift_sum (FairnessCurrentResponse fw (current_seed_view_to_dict v))) (\<lambda>j.
     ret (json_answer 200 j))))"

definition fairness_rotate_route :: "framework \<Rightarrow> settings \<Rightarrow> http_request \<Rightarrow> (http_state, http_response) exec" where
  "fairness_rotate_route fw cfg rq = signed_in fw cfg rq GLOBAL_RATE_LIMIT (Some ()) (\<lambda>user _.
     bind (in_world (rotate_seed (u_id user))) (\<lambda>v.
     bind (lift_sum (FairnessRotateResponse (rotate_seed_view_to_dict v))) (\<lambda>j.
     ret (json_answer 200 j))))"

text \<open>\<open>any(bet["won"] for bet in bets)\<close>, up to the first bet that won.\<close>

fun truthy :: "json \<Rightarrow> bool" where
  "truthy JNull = False"
| "truthy (JBool b) = b"
| "truthy (JInt n) = (n \<noteq> 0)"
| "truthy (JStr s) = (s \<noteq> [])"
| "truthy (JList xs) = (xs \<noteq> [])"
| "truthy (JObj kvs) = (kvs \<noteq> [])"

fun any_won :: "json list \<Rightarrow> exn + bool" where
  "any_won [] = Inr False"
| "any_won (b # bs) = sbind (item_of ''won'' b) (\<lambda>won. if truthy won then Inr True else any_won bs)"

fun list_of :: "json \<Rightarrow> exn + json list" where
  "list_of (JList xs) = Inr xs"
| "list_of _ = Inl TypeError"

definition count_round :: "bool \<Rightarrow> (http_state, unit) exec" where
  "count_round b = modify (\<lambda>(c, s). (c, s\<lparr>bets_placed_total := bets_placed_total s @ [if b then ''true'' else ''false'']\<rparr>))"

definition round_reply :: "framework \<Rightarrow> uuid \<Rightarrow> bet_request list \<Rightarrow> json \<Rightarrow> (http_state, http_response) exec" where
  "round_reply fw uid reqs result =
     bind (lift_sum (notification ''round.settled'' result)) (\<lambda>m.
     bind (in_hub (publish uid m)) (\<lambda>_.
     bind (lift_sum (sbind (item_of ''bets'' result) list_of)) (\<lambda>bets.
     bind (lift_sum (any_won bets)) (\<lambda>won.
     bind (count_round won) (\<lambda>_.
     bind (lift_sum (item_of ''round_id'' result)) (\<lambda>round_id.
     bind (lift_sum (item_of ''outcome'' result)) (\<lambda>outcome.
     bind (lift_sum (item_of ''total_stake_minor'' result)) (\<lambda>staked.
     bind (lift_sum (item_of ''net_minor'' result)) (\<lambda>net.
     bind (on_ctx (bind_canonical [(''round_id'', round_id), (''outcome'', outcome), (''bet_count'', JInt (int (length bets))),
         (''won'', JBool won), (''total_stake_minor'', staked), (''net_minor'', net)])) (\<lambda>_.
     bind (lift_sum (RoundResponse fw result)) (\<lambda>j.
     ret (json_answer 201 j))))))))))))"

definition create_round_route :: "framework \<Rightarrow> settings \<Rightarrow> http_request \<Rightarrow> (http_state, http_response) exec" where
  "create_round_route fw cfg rq = keyed_route fw cfg rq ''30/minute'' (PlaceRoundRequest fw (rq_json rq)) (bet_work cfg) (round_reply fw)"

definition rounds_route :: "framework \<Rightarrow> settings \<Rightarrow> (bet_row \<Rightarrow> nat) \<Rightarrow> http_request \<Rightarrow> (http_state, http_response) exec" where
  "rounds_route fw cfg tie rq = signed_in fw cfg rq GLOBAL_RATE_LIMIT (page_limit fw rq) (\<lambda>user limit.
     bind (in_world (rounds_endpoint (fw_datetime fw, fw_uuid fw) tie (u_id user) (rq_cursor rq) limit)) (\<lambda>page.
     ret (json_answer 200 (round_history_page_json fw page))))"

section \<open>The router\<close>

type_synonym route_handler = "http_request \<Rightarrow> (http_state, http_response) exec"

definition auth_router :: "framework \<Rightarrow> settings \<Rightarrow> (string \<times> string \<times> route_handler) list" where
  "auth_router fw cfg =
     [(''POST'', ''/auth/register'', register_route fw cfg),
      (''POST'', ''/auth/login'', login_route fw cfg),
      (''POST'', ''/auth/refresh'', refresh_route fw cfg),
      (''GET'', ''/auth/me'', me_route fw cfg),
      (''POST'', ''/auth/logout'', logout_route fw cfg)]"

definition roulette_router :: "framework \<Rightarrow> settings \<Rightarrow> (bet_row \<Rightarrow> nat) \<Rightarrow> (string \<times> string \<times> route_handler) list" where
  "roulette_router fw cfg tie =
     [(''GET'', ''/roulette/fairness/current'', fairness_current_route fw cfg),
      (''POST'', ''/roulette/fairness/rotate'', fairness_rotate_route fw cfg),
      (''POST'', ''/roulette/rounds'', create_round_route fw cfg),
      (''GET'', ''/roulette/rounds'', rounds_route fw cfg tie)]"

definition wallet_router :: "framework \<Rightarrow> settings \<Rightarrow> (string \<times> string \<times> route_handler) list" where
  "wallet_router fw cfg =
     [(''GET'', ''/wallet/balance'', balance_route fw cfg),
      (''GET'', ''/wallet/transactions'', transactions_route fw cfg),
      (''POST'', ''/wallet/deposit'', deposit_route fw cfg)]"

text \<open>The socket's route is \<open>ws_endpoint\<close>.\<close>

definition build_api_v1_router ::
  "framework \<Rightarrow> settings \<Rightarrow> (bet_row \<Rightarrow> nat) \<Rightarrow> string \<Rightarrow> (string \<times> string \<times> route_handler) list" where
  "build_api_v1_router fw cfg tie api_prefix = map (\<lambda>(verb, path, handler). (verb, api_prefix @ path, handler))
     (auth_router fw cfg @ roulette_router fw cfg tie @ wallet_router fw cfg)"

text \<open>An answer as the messages of the server, and a route as the application behind the innermost middleware.\<close>

definition message_of :: "http_response \<Rightarrow> asgi_message list" where
  "message_of r = (case rs_content r of
     None \<Rightarrow> [ResponseStart (rs_status r) [], ResponseBody []]
   | Some j \<Rightarrow> [ResponseStart (rs_status r)
        [(''content-length'', dec_nat (length (response_text j))), (''content-type'', ''application/json'')],
      ResponseBody (response_text j)])"

definition serve :: "(http_state, http_response) exec \<Rightarrow> http_state asgi" where
  "serve handler = UnhandledExceptionMiddleware (route (\<lambda>_. bind handler (\<lambda>r. ret (message_of r))))"

end
