(* ===== verification/Server.thy ===== *)
theory Server
  imports Endpoints
begin

text \<open>
  The server under any sequence of requests: every route keeps the invariant of the tables,
  whatever it is sent and however it ends, and so every state a server reaches from an empty
  database has it. What a step of a request may leave behind is a contract: the committed tables
  stay sound, and the ones of the session are sound whenever the step returns.
\<close>

section \<open>Steps inside a session\<close>

named_theorems session_rules \<open>composition of steps that are safe inside a session\<close>

definition session_safe :: "('s \<Rightarrow> world) \<Rightarrow> ('s, 'a) exec \<Rightarrow> bool" where
  "session_safe wof m \<longleftrightarrow> (\<forall>s r t. m s = (r, t) \<longrightarrow> tables_ok (db (wof s)) \<longrightarrow> tables_ok (committed (wof s))
     \<longrightarrow> tables_ok (committed (wof t)) \<and> (\<forall>x. r = Val x \<longrightarrow> tables_ok (db (wof t))))"

lemma session_safeI:
  "(\<And>s r t. m s = (r, t) \<Longrightarrow> tables_ok (db (wof s)) \<Longrightarrow> tables_ok (committed (wof s)) \<Longrightarrow>
      tables_ok (committed (wof t)) \<and> (\<forall>x. r = Val x \<longrightarrow> tables_ok (db (wof t)))) \<Longrightarrow> session_safe wof m"
  unfolding session_safe_def by blast

lemma session_safeD:
  "session_safe wof m \<Longrightarrow> m s = (r, t) \<Longrightarrow> tables_ok (db (wof s)) \<Longrightarrow> tables_ok (committed (wof s)) \<Longrightarrow>
    tables_ok (committed (wof t)) \<and> (\<forall>x. r = Val x \<longrightarrow> tables_ok (db (wof t)))"
  unfolding session_safe_def by blast

lemma session_safe_keeps: "keeps (\<lambda>s. (db (wof s), committed (wof s))) m \<Longrightarrow> session_safe wof m"
  by (rule session_safeI) (auto dest: keepsD)

lemma session_safe_basic [session_rules]:
  "session_safe wof (ret x)" "session_safe wof (throw e)" "session_safe wof (lift_sum q)"
  by (auto intro!: session_safe_keeps frame_rules)

lemma session_safe_bind [session_rules]:
  assumes "session_safe wof m" "\<And>x. session_safe wof (f x)"
  shows "session_safe wof (bind m f)"
proof (rule session_safeI)
  fix s r t
  assume run: "bind m f s = (r, t)" and ok: "tables_ok (db (wof s))" "tables_ok (committed (wof s))"
  obtain q u where m: "m s = (q, u)" by force
  note mid = session_safeD [OF assms(1) m ok]
  show "tables_ok (committed (wof t)) \<and> (\<forall>x. r = Val x \<longrightarrow> tables_ok (db (wof t)))"
  proof (cases q)
    case (Val x)
    with run m have "f x u = (r, t)" by (simp add: bind_Val [of m])
    from session_safeD [OF assms(2) this] mid Val show ?thesis by simp
  qed (use run m mid in \<open>auto simp: bind_def\<close>)
qed

lemma session_safe_option [session_rules]:
  "session_safe wof m \<Longrightarrow> (\<And>x. session_safe wof (g x)) \<Longrightarrow> session_safe wof (case o' of None \<Rightarrow> m | Some x \<Rightarrow> g x)"
  by (cases o') auto

text \<open>A transaction that keeps the invariant leaves nothing uncommitted.\<close>

lemma session_safe_tx:
  assumes "\<And>w r w'. m w = (r, w') \<Longrightarrow> tables_ok (db w) \<Longrightarrow> tables_ok (db w')"
    and "\<And>w r w'. m w = (r, w') \<Longrightarrow> committed w' = db w'"
  shows "session_safe id m"
  by (rule session_safeI) (simp add: assms(2), use assms(1) in blast)

lemma unit_of_work_settled: "unit_of_work m w = (r, w') \<Longrightarrow> committed w' = db w'"
  by (auto simp: unit_of_work_def split: prod.splits result.splits)

lemma try_reserve_settled: "try_reserve uid key h ttl w = (r, w') \<Longrightarrow> committed w' = db w'"
  by (auto simp: try_reserve_def split: prod.splits result.splits if_splits dest: unit_of_work_settled)

lemma resolve_settled: "resolve_existing uid key h w = (r, w') \<Longrightarrow> committed w' = db w'"
  by (auto simp: resolve_existing_def session_scope_def split: prod.splits)

context safe_service begin

lemma in_session: "session_safe id m"
proof (rule session_safeI)
  fix w r w'
  assume run: "m w = (r, w')" and ok: "tables_ok (db (id w))" "tables_ok (committed (id w))"
  have "committed w' = committed w" using keepsD [OF own_commit run] .
  with ok keeps_tables run show "tables_ok (committed (id w')) \<and> (\<forall>x. r = Val x \<longrightarrow> tables_ok (db (id w')))" by auto
qed

end

lemma refresh_in_session: "session_safe id (refresh_access_token cr cfg raw)"
proof (rule session_safeI)
  fix w r w'
  assume run: "refresh_access_token cr cfg raw w = (r, w')" and ok: "tables_ok (db (id w))" "tables_ok (committed (id w))"
  have tok: "tokens_ok (db w)" using ok by (simp add: tables_ok_def)
  show "tables_ok (committed (id w')) \<and> (\<forall>x. r = Val x \<longrightarrow> tables_ok (db (id w')))"
  proof (cases rule: check_refresh_run [of raw w])
    case (reused row)
    with run tables_ok_tokens [OF ok(1) [unfolded id_apply] tokens_ok_revoked(2) [OF tok]] show ?thesis
      by (auto simp: refresh_access_token_def bind_Exc [of "check_refresh raw"])
  next
    case (fit stored)
    let ?w1 = "w\<lparr>ticks := Suc (ticks w)\<rparr>"
    obtain q w2 where rot: "rotate_refresh cr cfg (stored, clock w (ticks w)) ?w1 = (q, w2)" by force
    have w2: "w' = w2" "r = q" using run rot by (simp_all add: refresh_access_token_def bind_Val [of "check_refresh raw", OF fit])
    have com: "committed w' = committed w" using keepsD [OF no_commit_rotate rot] w2 by simp
    have "tables_ok (db w')" if val: "r = Val x" for x
    proof -
      from refresh_Val [OF run [unfolded val]] obtain stored row :: token_row and t where
        new: "t_id row \<notin> t_id ` set (refresh_tokens (db w))" "t_token_hash row \<notin> t_token_hash ` set (refresh_tokens (db w))"
        and d: "db w' = (db w)\<lparr>refresh_tokens := revoked_one (t_id stored) t (refresh_tokens (db w)) @ [row]\<rparr>" by auto
      have "tokens_ok (db w')" using tok new d by (simp add: tokens_ok_def)
      with tables_ok_tokens ok(1) d show ?thesis by simp
    qed
    with com ok show ?thesis by simp
  qed (use run ok in \<open>auto simp: refresh_access_token_def bind_Exc [of "check_refresh raw"]\<close>)
qed

lemma run_reserved_in_session:
  assumes plain: "plain_work work" and safe: "\<And>w b w'. work w = (Val b, w') \<Longrightarrow> tables_ok (db w) \<Longrightarrow> tables_ok (db w')"
  shows "session_safe id (run_reserved work rid)"
proof (rule session_safe_tx)
  fix w r w'
  assume run: "run_reserved work rid w = (r, w')"
  obtain q u where c: "complete_work work rid w = (q, u)" by force
  obtain x where rel: "release_key rid u = (Val (), x)" using release_key_run by metis
  have set_u: "committed u = db u" "committed x = db x"
    using c rel unit_of_work_settled unfolding complete_work_def release_key_def by blast+
  show "committed w' = db w'"
    using run c rel set_u by (cases q) (auto simp: run_reserved_def bind_Val [of "release_key rid"] exec_simps)
  assume inv: "tables_ok (db w)"
  have ok: "tables_ok (db u)" by (rule complete_keeps_tables [OF plain safe inv c])
  have "tables_ok (db x)" by (rule release_keeps_tables [OF ok rel])
  with run c rel ok show "tables_ok (db w')"
    by (cases q) (auto simp: run_reserved_def bind_Val [of "release_key rid"] exec_simps)
qed

lemma run_idempotent_in_session:
  assumes "plain_work work" and "\<And>w b w'. work w = (Val b, w') \<Longrightarrow> tables_ok (db w) \<Longrightarrow> tables_ok (db w')"
  shows "session_safe id (run_idempotent uid key h ttl work)"
  unfolding run_idempotent_def
  by (intro session_rules run_reserved_in_session [OF assms]
      session_safe_tx [OF reserve_keeps_tables try_reserve_settled] session_safe_tx [OF resolve_keeps_tables resolve_settled])

section \<open>Routes\<close>

lemma world_of_apply [simp]: "world_of (c, s) = ws_world (sv_app s)"
  by (simp add: world_of_def)

lemma in_world_run: "m (world_of s) = (r, w) \<Longrightarrow> in_world m s = (r, (fst s, sv_app_update (ws_world_update (\<lambda>_. w)) (snd s)))"
  by (cases s) (simp add: in_world_def on_part_def)

lemma in_world_cases:
  assumes "in_world m s = (r, t)"
  obtains "m (world_of s) = (r, world_of t)" "fst t = fst s" "snd t = sv_app_update (ws_world_update (\<lambda>_. world_of t)) (snd s)"
proof -
  obtain q w where m: "m (world_of s) = (q, w)" by force
  from assms have "r = q" "t = (fst s, sv_app_update (ws_world_update (\<lambda>_. w)) (snd s))"
    unfolding in_world_run [where m = m, OF m] by simp_all
  with m that show ?thesis by (simp add: world_of_def)
qed

lemma session_safe_in_world [session_rules]: "session_safe id m \<Longrightarrow> session_safe world_of (in_world m)"
  by (rule session_safeI, erule in_world_cases) (auto dest!: session_safeD [of id m])

lemma keeps_other [frame_rules]:
  "keeps world_of (in_hub n)" "keeps world_of (on_ctx f)"
  "(\<And>s. sv_app (g s) = sv_app s) \<Longrightarrow> keeps world_of (modify (\<lambda>(c, s). (c, g s)))"
  by (auto simp: keeps_def in_hub_def on_part_def on_ctx_def modify_def world_of_def split: prod.splits)

lemma session_safe_outside: "keeps world_of m \<Longrightarrow> session_safe world_of m"
  by (rule session_safe_keeps) (auto simp: keeps_def)

lemmas session_safe_other [session_rules] = keeps_other [THEN session_safe_outside]

lemma session_safe_current_user [session_rules]: "session_safe world_of (current_user fw cfg rq)"
proof -
  have "keeps (\<lambda>w. (db w, committed w)) (get_current_user cr other cfg h)" for cr other h
    unfolding get_current_user_def user_get_by_id_def decode_access_token_def by (auto intro!: frame_rules)
  then show ?thesis unfolding current_user_def
    by (intro session_rules) (auto intro!: session_safe_keeps frame_rules)
qed

lemma session_safe_validated [session_rules]:
  "(\<And>y. session_safe wof (h y)) \<Longrightarrow> session_safe wof (validated_request x h)" for wof :: "http_state \<Rightarrow> world"
  unfolding validated_request_def by (intro session_rules)

lemma session_safe_limited [session_rules]: "session_safe wof h \<Longrightarrow> session_safe wof (limited fw rq spec h)"
  unfolding limited_def by (simp add: session_rules)

text \<open>Around a session, only the tables count.\<close>

definition route_safe :: "(http_state, 'a) exec \<Rightarrow> bool" where
  "route_safe m \<longleftrightarrow> (\<forall>s r t. m s = (r, t) \<longrightarrow> tables_ok (db (world_of s)) \<longrightarrow> tables_ok (db (world_of t)))"

lemma close_session_result [simp]: "fst (close_session (r, t)) = r"
  by (cases r) simp_all

lemma close_session_db: "db (world_of (snd (close_session (r, t)))) = (case r of Val _ \<Rightarrow> db (world_of t) | _ \<Rightarrow> committed (world_of t))"
  by (cases r) (simp_all add: in_world_def on_part_def session_commit_def modify_def split: prod.split)

lemma get_session_safe: "session_safe world_of body \<Longrightarrow> route_safe (get_session body)"
  unfolding route_safe_def
proof (intro allI impI)
  fix s r t
  assume safe: "session_safe world_of body" and run: "get_session body s = (r, t)" and ok: "tables_ok (db (world_of s))"
  obtain s1 where started: "in_world begin_tx s = (Val (), s1)" "world_of s1 = start_tx (world_of s)"
    using in_world_run [of begin_tx s "Val ()" "start_tx (world_of s)"] by (simp add: begin_tx_def start_tx_def)
  obtain q s2 where body: "body s1 = (q, s2)" by (metis surj_pair)
  have s2: "tables_ok (committed (world_of s2)) \<and> (\<forall>x. q = Val x \<longrightarrow> tables_ok (db (world_of s2)))"
    by (rule session_safeD [OF safe body]) (simp_all add: started(2) ok)
  have run': "(r, t) = close_session (q, s2)"
    using run unfolding get_session_def bind_Val [of "in_world begin_tx", OF started(1)] body by simp
  show "tables_ok (db (world_of t))"
    using s2 close_session_db [of q s2] unfolding run' [symmetric] by (cases q) auto
qed

lemma signed_in_safe: "(\<And>u y. session_safe world_of (h u y)) \<Longrightarrow> route_safe (signed_in fw cfg rq spec x h)"
  unfolding signed_in_def by (intro get_session_safe session_rules)

section \<open>The server\<close>

lemma routes_safe:
  assumes "(verb, path, handler) \<in> set (build_api_v1_router fw cfg tie api_prefix)"
  shows "route_safe (handler rq)"
proof -
  have keeps_reads: "session_safe id (get_balance uid)" "session_safe id (get_current_seed uid)"
    "session_safe id (transactions_endpoint rd uid cursor limit)" "session_safe id (rounds_endpoint rd tie uid cursor limit)"
    for uid rd cursor limit
    unfolding get_balance_def get_wallet_by_user_id_def get_current_seed_def get_active_by_user_id_def
      transactions_endpoint_def list_transactions_def list_by_wallet_def rounds_endpoint_def list_rounds_def list_by_user_def
    by (auto intro!: session_safe_keeps frame_rules)
  note works = run_idempotent_in_session [OF plain_deposit_work deposit_work_keeps_tables]
    run_idempotent_in_session [OF plain_bet_work bet_work_keeps_tables]
  note services = register_safe.in_session login_safe.in_session logout_safe.in_session rotate_safe.in_session
    refresh_in_session works keeps_reads
  from assms show ?thesis
    by (auto simp: build_api_v1_router_def auth_router_def roulette_router_def wallet_router_def
        register_route_def login_route_def refresh_route_def me_route_def logout_route_def fairness_current_route_def
        fairness_rotate_route_def create_round_route_def rounds_route_def balance_route_def transactions_route_def deposit_route_def
        keyed_route_def deposit_reply_def round_reply_def count_round_def
        intro!: get_session_safe signed_in_safe session_rules services split: prod.splits)
qed

text \<open>
  What changes the state of the server: a request to any route, with any content; or, between
  two requests, a transaction of another process or of a background task.
\<close>

definition with_world :: "world \<Rightarrow> http_state \<Rightarrow> http_state" where
  "with_world w s = (fst s, sv_app_update (ws_world_update (\<lambda>_. w)) (snd s))"

inductive server_step :: "framework \<Rightarrow> settings \<Rightarrow> (bet_row \<Rightarrow> nat) \<Rightarrow> http_state \<Rightarrow> http_state \<Rightarrow> bool"
  for fw :: framework and cfg :: settings and tie :: "bet_row \<Rightarrow> nat" where
  server_request: "(verb, path, handler) \<in> set (build_api_v1_router fw cfg tie (API_V1_PREFIX cfg)) \<Longrightarrow>
     server_step fw cfg tie s (snd (handler rq s))"
| server_elsewhere: "app_step (fw_citext fw) (fw_crypto fw) cfg (world_of s) w \<Longrightarrow> server_step fw cfg tie s (with_world w s)"

definition server_init :: "http_state \<Rightarrow> bool" where
  "server_init s \<longleftrightarrow> app_init (world_of s)"

interpretation server_machine: inductive_invariant server_init "server_step fw cfg tie" "\<lambda>s. tables_ok (db (world_of s))"
proof unfold_locales
  fix s assume "server_init s"
  then show "tables_ok (db (world_of s))" by (simp add: server_init_def app_init_def empty_db_ok)
next
  fix s t assume inv: "tables_ok (db (world_of s))" and "server_step fw cfg tie s t"
  from this(2) show "tables_ok (db (world_of t))"
  proof cases
    case (server_request verb path handler rq)
    have "route_safe (handler rq)" by (rule routes_safe [OF server_request(2)])
    with inv server_request(1) surjective_pairing show ?thesis unfolding route_safe_def by blast
  next
    case (server_elsewhere w)
    with app_step_inv [OF server_elsewhere(2) inv] show ?thesis by (simp add: with_world_def world_of_def)
  qed
qed

section \<open>A request of a signed-in user\<close>

definition user_of_request :: "framework \<Rightarrow> settings \<Rightarrow> http_request \<Rightarrow> http_state \<Rightarrow> user_row result" where
  "user_of_request fw cfg rq s =
     fst (get_current_user (fw_crypto fw) (fw_uuid fw) cfg (rq_authorization rq) (start_tx (world_of s)))"

lemma get_current_user_Val:
  assumes "get_current_user cr other cfg h w = (Val user, w')"
  shows "user \<in> set (users (db w))"
proof -
  have dec: "keeps db (decode_access_token cr other t secret alg prev)" for t secret alg prev
    unfolding decode_access_token_def by (auto intro!: frame_rules)
  have found: "find P xs = Some x \<Longrightarrow> x \<in> set xs" for P and xs :: "user_row list" and x
    by (auto simp: find_Some_iff in_set_conv_nth)
  from assms obtain t uid w1 where
    "decode_access_token cr other t (JWT_SECRET cfg) (JWT_ALGORITHM cfg) (JWT_PREVIOUS_SECRETS cfg) w = (Val uid, w1)"
    "find (\<lambda>r. u_id r = uid) (users (db w1)) = Some user"
    by (auto simp: get_current_user_def exec_simps bind_Val_iff user_get_by_id_def split: option.splits if_splits)
  with keepsD [OF dec] found show ?thesis by metis
qed

lemma get_current_user_Exc:
  "fst (get_current_user cr other cfg h w) = Exc e \<Longrightarrow> e \<in> {InvalidTokenError, TokenExpiredError, UserSuspendedError}"
proof -
  assume refused: "fst (get_current_user cr other cfg h w) = Exc e"
  show ?thesis
  proof (cases "\<exists>token. h = Some token \<and> take 7 token = ''Bearer ''")
    case True
    then obtain token where h: "h = Some token" "take 7 token = ''Bearer ''" by blast
    let ?decode = "decode_access_token cr other (drop 7 token) (JWT_SECRET cfg) (JWT_ALGORITHM cfg) (JWT_PREVIOUS_SECRETS cfg)"
    obtain r w1 where run: "?decode w = (r, w1)" by force
    then show ?thesis
      using decode_results [OF run] refused h
      by (cases r) (auto simp: get_current_user_def bind_Val [of ?decode] bind_Exc [of ?decode] user_get_by_id_def exec_simps
          split: option.splits if_splits)
  qed (use refused in \<open>auto simp: get_current_user_def exec_simps split: option.splits if_splits\<close>)
qed

lemma get_current_user_returns: "fst (get_current_user cr other cfg h w) \<noteq> NoReturn"
proof (cases "\<exists>token. h = Some token \<and> take 7 token = ''Bearer ''")
  case True
  then obtain token where h: "h = Some token" "take 7 token = ''Bearer ''" by blast
  let ?decode = "decode_access_token cr other (drop 7 token) (JWT_SECRET cfg) (JWT_ALGORITHM cfg) (JWT_PREVIOUS_SECRETS cfg)"
  obtain r w1 where run: "?decode w = (r, w1)" by force
  then show ?thesis
    using decode_results [OF run] h
    by (cases r) (auto simp: get_current_user_def bind_Val [of ?decode] bind_Exc [of ?decode] user_get_by_id_def exec_simps
        split: option.splits if_splits)
qed (auto simp: get_current_user_def exec_simps split: option.splits if_splits)

text \<open>The state in which a handler starts, and what the route makes of its result.\<close>

definition handler_state :: "framework \<Rightarrow> settings \<Rightarrow> http_request \<Rightarrow> http_state \<Rightarrow> http_state" where
  "handler_state fw cfg rq s = snd (current_user fw cfg rq (with_world (start_tx (world_of s)) s))"

definition untouched :: "http_state \<Rightarrow> http_state \<Rightarrow> bool" where
  "untouched s t \<longleftrightarrow> db (world_of t) = db (world_of s) \<and> committed (world_of t) = db (world_of s)
     \<and> (sv_app (snd t))\<lparr>ws_world := world_of s\<rparr> = sv_app (snd s) \<and> bets_placed_total (snd t) = bets_placed_total (snd s)"

lemma begin_run: "in_world begin_tx s = (Val (), with_world (start_tx (world_of s)) s)"
  using in_world_run [of begin_tx s "Val ()" "start_tx (world_of s)"] by (simp add: begin_tx_def start_tx_def with_world_def)

lemma keeps_current: "keeps (\<lambda>w. (db w, committed w)) (get_current_user cr other cfg h)"
  unfolding get_current_user_def user_get_by_id_def decode_access_token_def by (auto intro!: frame_rules)

lemma current_user_run:
  shows "fst (current_user fw cfg rq (with_world (start_tx (world_of s)) s)) = user_of_request fw cfg rq s"
    and "untouched s (handler_state fw cfg rq s)"
proof -
  obtain r w1 where run: "get_current_user (fw_crypto fw) (fw_uuid fw) cfg (rq_authorization rq) (start_tx (world_of s)) = (r, w1)"
    by force
  from keepsD [OF keeps_current run] have w1: "db w1 = db (world_of s)" "committed w1 = db (world_of s)" by simp_all
  have there: "in_world (get_current_user (fw_crypto fw) (fw_uuid fw) cfg (rq_authorization rq)) (with_world (start_tx (world_of s)) s)
      = (r, with_world w1 s)"
    using run by (simp add: in_world_def on_part_def with_world_def world_of_def)
  have user: "user_of_request fw cfg rq s = r" using run by (simp add: user_of_request_def)
  have cur: "current_user fw cfg rq (with_world (start_tx (world_of s)) s) = (r, case r of
      Val user \<Rightarrow> (bind_canonical [(''user_id'', JStr (uuid_str (u_id user)))] ((fst s)\<lparr>user_id_var := Some (uuid_str (u_id user))\<rparr>),
          snd (with_world w1 s))
    | _ \<Rightarrow> with_world w1 s)"
    by (cases r) (simp_all add: current_user_def bind_def there [unfolded with_world_def] on_ctx_def modify_def ret_def with_world_def)
  show "fst (current_user fw cfg rq (with_world (start_tx (world_of s)) s)) = user_of_request fw cfg rq s"
    by (simp add: cur user)
  show "untouched s (handler_state fw cfg rq s)"
    unfolding handler_state_def cur by (cases r) (simp_all add: untouched_def with_world_def world_of_def w1)
qed

lemma signed_in_run:
  "user_of_request fw cfg rq s = Val user \<Longrightarrow> signed_in fw cfg rq spec x handler s
     = close_session (validated_request x (\<lambda>y. limited fw rq spec (handler user y)) (handler_state fw cfg rq s))"
  using current_user_run(1) [of fw cfg rq s]
  by (cases "current_user fw cfg rq (with_world (start_tx (world_of s)) s)")
    (simp add: signed_in_def get_session_def bind_Val [of "in_world begin_tx", OF begin_run] bind_Val handler_state_def)

lemma signed_in_refused:
  "user_of_request fw cfg rq s = Exc e \<Longrightarrow> signed_in fw cfg rq spec x handler s = close_session (Exc e, handler_state fw cfg rq s)"
  using current_user_run(1) [of fw cfg rq s]
  by (cases "current_user fw cfg rq (with_world (start_tx (world_of s)) s)")
    (simp add: signed_in_def get_session_def bind_Val [of "in_world begin_tx", OF begin_run] bind_Exc handler_state_def)

lemma handler_state_facts [simp]:
  "db (world_of (handler_state fw cfg rq s)) = db (world_of s)"
  "committed (world_of (handler_state fw cfg rq s)) = db (world_of s)"
  using current_user_run(2) [of s fw cfg rq] by (simp_all add: untouched_def)

lemma user_in_tables: "user_of_request fw cfg rq s = Val user \<Longrightarrow> user \<in> set (users (db (world_of s)))"
  using get_current_user_Val [of "fw_crypto fw" "fw_uuid fw" cfg "rq_authorization rq" "start_tx (world_of s)" user]
  unfolding user_of_request_def by (metis prod.collapse start_tx_simps(1))

lemma untouched_close: "untouched s t \<Longrightarrow> untouched s (snd (close_session (r, t)))"
  by (cases r) (auto simp: untouched_def in_world_def on_part_def session_commit_def modify_def world_of_def split: prod.split)

lemma untouched_closed: "untouched s (snd (close_session (r, handler_state fw cfg rq s)))"
  by (rule untouched_close [OF current_user_run(2)])

lemma handler_result:
  "user_of_request fw cfg rq s = Val user \<Longrightarrow> rq_within rq spec \<Longrightarrow>
     fst (signed_in fw cfg rq spec (Some y) handler s) = fst (handler user y (handler_state fw cfg rq s))"
  unfolding signed_in_run validated_request_def limited_def
  by (cases "handler user y (handler_state fw cfg rq s)") (simp del: close_session.simps)

lemma bind_in_world: "m (world_of s) = (Val x, w) \<Longrightarrow> bind (in_world m) f s = f x (with_world w s)"
  by (simp add: bind_Val [of "in_world m", OF in_world_run] with_world_def)

lemma fst_bind_in_world: "m (world_of s) = (Val x, w) \<Longrightarrow> fst (bind (in_world m) f s) = fst (f x (with_world w s))"
  by (simp add: bind_Val [of "in_world m", OF in_world_run] with_world_def)

lemma balance_of_user:
  assumes "tables_ok (db w)" "u \<in> set (users (db w))"
  obtains wallet where "wallet \<in> set (wallets (db w))" "w_user_id wallet = u_id u" "0 \<le> w_balance_minor wallet"
    "w_balance_minor wallet = sum_list (map l_amount_minor (entries (db w) (w_id wallet)))"
    "get_wallet_by_user_id (u_id u) w = (Val (Some wallet), w)"
proof -
  obtain wallet where found: "filter (\<lambda>r. w_user_id r = u_id u) (wallets (db w)) = [wallet]" "wallet \<in> set (wallets (db w))"
    "w_user_id wallet = u_id u" "0 \<le> w_balance_minor wallet"
    "w_balance_minor wallet = sum_list (map l_amount_minor (entries (db w) (w_id wallet)))"
    by (rule wallet_of_user [OF assms])
  have "get_wallet_by_user_id (u_id u) w = (Val (Some wallet), w)"
    by (simp add: get_wallet_by_user_id_def exec_simps bind_assoc found(1))
  with found that show ?thesis by blast
qed

lemma rounds_page_honest:
  assumes "honest_history (db w)" "decoded_cursor rd cursor = Inr k"
  shows "\<exists>p. rounds_endpoint rd tie uid cursor limit w = (Val p, w)"
proof -
  let ?pg = "keyset_query round_key k limit (filter (\<lambda>r. r_user_id r = uid) (rounds (db w)))"
  have "history_item_of (r, bets_of tie (db w) r) = Inr (shown_round tie (db w) r)" if "r \<in> set ?pg" for r
    using history_item_honest [OF assms(1)] set_keyset_query [OF that] by auto
  then have "smap history_item_of (map (\<lambda>r. (r, bets_of tie (db w) r)) ?pg) = Inr (map (shown_round tie (db w)) ?pg)"
    by (rule smap_map_Inr)
  then show ?thesis
    by (simp add: rounds_endpoint_def list_rounds_def list_by_user_def exec_simps bind_assoc bets_of_def assms(2))
qed

lemma transactions_page:
  assumes "get_wallet_by_user_id uid w = (Val (Some wallet), w)" "decoded_cursor rd cursor = Inr k"
  shows "\<exists>p. transactions_endpoint rd uid cursor limit w = (Val p, w)"
  using assms by (simp add: transactions_endpoint_def list_transactions_def bind_assoc bind_Val list_by_wallet_def exec_simps)

text \<open>The answers of the reading routes, on sound tables.\<close>

lemma balance_answers:
  assumes "framework_ok fw" "tables_ok (db (world_of s))" "user_of_request fw cfg rq s = Val user" "rq_within rq GLOBAL_RATE_LIMIT"
  shows "\<exists>wallet \<in> set (wallets (db (world_of s))). w_user_id wallet = u_id user \<and> 0 \<le> w_balance_minor wallet
      \<and> w_balance_minor wallet = sum_list (map l_amount_minor (entries (db (world_of s)) (w_id wallet)))
      \<and> fst (balance_route fw cfg rq s) = Val (json_answer 200
          (JObj [(''balance_minor'', JInt (w_balance_minor wallet)), (''currency'', JStr (w_currency wallet))]))"
proof -
  let ?s = "handler_state fw cfg rq s"
  have there: "tables_ok (db (world_of ?s))" "user \<in> set (users (db (world_of ?s)))"
    using assms(2) user_in_tables [OF assms(3)] by simp_all
  obtain wallet where w: "wallet \<in> set (wallets (db (world_of s)))" "w_user_id wallet = u_id user" "0 \<le> w_balance_minor wallet"
    "w_balance_minor wallet = sum_list (map l_amount_minor (entries (db (world_of s)) (w_id wallet)))"
    "get_wallet_by_user_id (u_id user) (world_of ?s) = (Val (Some wallet), world_of ?s)"
    using balance_of_user [OF there] by auto
  have "get_balance (u_id user) (world_of ?s) = (Val \<lparr>bv_balance_minor = w_balance_minor wallet, bv_currency = w_currency wallet\<rparr>, world_of ?s)"
    by (simp add: get_balance_def bind_Val [of "get_wallet_by_user_id (u_id user)", OF w(5)] exec_simps)
  then have "fst (balance_route fw cfg rq s) = Val (json_answer 200
      (JObj [(''balance_minor'', JInt (w_balance_minor wallet)), (''currency'', JStr (w_currency wallet))]))"
    using assms(1) by (simp add: balance_route_def handler_result [OF assms(3,4)] fst_bind_in_world exec_simps BalanceResponse_def
        balance_view_to_dict_def int_field_def framework_ok_def)
  with w show ?thesis by blast
qed

lemma seed_answers:
  assumes "framework_ok fw" "tables_ok (db (world_of s))" "user_of_request fw cfg rq s = Val user" "rq_within rq GLOBAL_RATE_LIMIT"
  shows "\<exists>pair \<in> set (seed_pairs (db (world_of s))). s_user_id pair = u_id user \<and> s_status pair = ''active''
      \<and> fst (fairness_current_route fw cfg rq s) = Val (json_answer 200
          (JObj [(''server_seed_hash'', JStr (hash_seed (s_server_seed pair))), (''client_seed'', JStr (s_client_seed pair)),
             (''nonce'', JInt (s_nonce pair))]))"
proof -
  let ?s = "handler_state fw cfg rq s"
  obtain pair where p: "filter (\<lambda>r. s_user_id r = u_id user \<and> s_status r = ''active'') (seed_pairs (db (world_of s))) = [pair]"
    "s_server_seed_hash pair = hash_seed (s_server_seed pair)"
    using pair_of_user [OF assms(2) user_in_tables [OF assms(3)]] by blast
  have "get_current_seed (u_id user) (world_of ?s) = (Val \<lparr>cs_server_seed_hash = hash_seed (s_server_seed pair),
      cs_client_seed = s_client_seed pair, cs_nonce = s_nonce pair\<rparr>, world_of ?s)"
    using get_current_seed_active [of "u_id user" "world_of ?s" pair] p by simp
  then have "fst (fairness_current_route fw cfg rq s) = Val (json_answer 200
      (JObj [(''server_seed_hash'', JStr (hash_seed (s_server_seed pair))), (''client_seed'', JStr (s_client_seed pair)),
         (''nonce'', JInt (s_nonce pair))]))"
    using assms(1) by (simp add: fairness_current_route_def handler_result [OF assms(3,4)] fst_bind_in_world exec_simps
        FairnessCurrentResponse_def current_seed_view_to_dict_def int_field_def framework_ok_def)
  with filter_eq_single [OF p(1)] show ?thesis by blast
qed

lemma histories_answer:
  assumes "tables_ok (db (world_of s))" "user_of_request fw cfg rq s = Val user" "rq_within rq GLOBAL_RATE_LIMIT"
    and "page_limit fw rq = Some n" "decoded_cursor (fw_datetime fw, fw_uuid fw) (rq_cursor rq) = Inr k"
  shows "\<exists>p. fst (transactions_route fw cfg rq s) = Val (json_answer 200 (transactions_page_json fw p))"
    and "\<exists>p. fst (rounds_route fw cfg tie rq s) = Val (json_answer 200 (round_history_page_json fw p))"
proof -
  let ?s = "handler_state fw cfg rq s"
  have there: "tables_ok (db (world_of ?s))" "user \<in> set (users (db (world_of ?s)))"
    using assms(1) user_in_tables [OF assms(2)] by simp_all
  obtain wallet where "get_wallet_by_user_id (u_id user) (world_of ?s) = (Val (Some wallet), world_of ?s)"
    using balance_of_user [OF there] by blast
  from transactions_page [OF this assms(5)] obtain p
    where "transactions_endpoint (fw_datetime fw, fw_uuid fw) (u_id user) (rq_cursor rq) n (world_of ?s) = (Val p, world_of ?s)" by blast
  then show "\<exists>p. fst (transactions_route fw cfg rq s) = Val (json_answer 200 (transactions_page_json fw p))"
    by (auto simp: transactions_route_def handler_result [OF assms(2,3)] assms(4) fst_bind_in_world exec_simps)
  have honest: "honest_history (db (world_of ?s))" using there(1) unfolding tables_ok_def consistent_def by blast
  obtain p where "rounds_endpoint (fw_datetime fw, fw_uuid fw) tie (u_id user) (rq_cursor rq) n (world_of ?s) = (Val p, world_of ?s)"
    using rounds_page_honest [OF honest assms(5)] by blast
  then show "\<exists>p. fst (rounds_route fw cfg tie rq s) = Val (json_answer 200 (round_history_page_json fw p))"
    by (auto simp: rounds_route_def handler_result [OF assms(2,3)] assms(4) fst_bind_in_world exec_simps)
qed

section \<open>Requests under a key\<close>

text \<open>
  What the work and the reply of a keyed request share: the work may run inside a transaction
  of its own, and the reply is made of the result alone, whatever the state of the server: it
  publishes one notification and touches no table.
\<close>

definition hub_of :: "http_state \<Rightarrow> hub" where
  "hub_of s = ws_hub (sv_app (snd s))"

definition hub_ready :: "hub \<Rightarrow> bool" where
  "hub_ready h \<longleftrightarrow> subscribers_ok h \<and> (\<forall>q. length (queues h q) \<le> QUEUE_MAXSIZE)"

lemma publish_ready: "hub_ready h \<Longrightarrow> fst (publish uid m h) = Val ()"
proof -
  assume "hub_ready h"
  then have "offer_all m (queues_of h uid) h = (Val (), h\<lparr>queues := (\<lambda>q. if q \<in> set (queues_of h uid) then the (offer m (queues h q)) else queues h q)\<rparr>)"
    by (intro offer_all_run) (auto simp: hub_ready_def distinct_queues)
  then show ?thesis by (simp add: publish_def)
qed

locale keyed_requests =
  fixes work :: "uuid \<Rightarrow> string \<Rightarrow> 'y \<Rightarrow> (world, json) exec"
    and reply :: "uuid \<Rightarrow> 'y \<Rightarrow> json \<Rightarrow> (http_state, http_response) exec"
    and event :: string
  assumes plain: "plain_work (work uid key y)"
    and keeps_tables: "keeps world_of (reply uid y b)"
    and same_answer: "reply uid y b s = (Val r, s') \<Longrightarrow> hub_ready (hub_of t) \<Longrightarrow> fst (reply uid y b t) = Val r"
    and one_notification: "reply uid y b s = (Val r, s') \<Longrightarrow>
      \<exists>m. notification event b = Inr m \<and> hub_of s' = snd (publish uid m (hub_of s))"
begin

lemma answered_once:
  assumes "idem_ok (db (world_of s))" "user_of_request fw cfg rq s = Val user" "rq_within rq spec" "idempotency_key_of rq = Some key"
    and "keyed_route fw cfg rq spec (Some y) work reply s = (Val r, s1)"
  shows "\<exists>b u u'. answered (db (world_of s1)) (u_id user) key (hash_request_body (rq_body rq)) b \<and> reply (u_id user) y b u = (Val r, u')"
proof -
  let ?s = "handler_state fw cfg rq s"
  let ?run = "run_idempotent (u_id user) key (hash_request_body (rq_body rq)) (IDEMPOTENCY_KEY_TTL_HOURS cfg) (work (u_id user) key y)"
  obtain q t where body: "bind (in_world ?run) (reply (u_id user) y) ?s = (q, t)" by (metis surj_pair)
  have close: "close_session (q, t) = (Val r, s1)"
    using assms(5) unfolding keyed_route_def signed_in_run [OF assms(2)] by (simp add: validated_request_def limited_def assms(3,4) body)
  then have q: "q = Val r" using close_session_result [of q t] by simp
  from body [unfolded q bind_Val_iff] obtain b u where u: "in_world ?run ?s = (Val b, u)" "reply (u_id user) y b u = (Val r, t)" by blast
  have "world_of t = world_of u" using keepsD [OF keeps_tables u(2)] .
  moreover have "?run (world_of ?s) = (Val b, world_of u)" by (rule in_world_cases [OF u(1)])
  then have "answered (db (world_of u)) (u_id user) key (hash_request_body (rq_body rq)) b"
    by (rule run_idempotent_answered [OF plain, rotated]) (simp add: assms(1))
  moreover have "db (world_of s1) = db (world_of t)" using close_session_db [of q t] close q by simp
  ultimately have "answered (db (world_of s1)) (u_id user) key (hash_request_body (rq_body rq)) b" by simp
  with u(2) show ?thesis by blast
qed

lemma retried:
  assumes "answered d (u_id user) key (hash_request_body (rq_body rq)) b" "reply (u_id user) y b u = (Val r, u')"
    and "idem_ok (db (world_of s))" "row_of (db (world_of s)) (u_id user) key = row_of d (u_id user) key"
    and "user_of_request fw cfg rq s = Val user2" "u_id user2 = u_id user" "rq_within rq spec" "idempotency_key_of rq = Some key"
    and "hub_ready (hub_of s)"
  shows "\<exists>s' m. keyed_route fw cfg rq spec (Some y) work reply s = (Val r, s') \<and> db (world_of s') = db (world_of s)
    \<and> notification event b = Inr m \<and> hub_of s' = snd (publish (u_id user) m (hub_of s))"
proof -
  let ?s = "handler_state fw cfg rq s"
  let ?run = "run_idempotent (u_id user) key (hash_request_body (rq_body rq)) (IDEMPOTENCY_KEY_TTL_HOURS cfg) (work (u_id user) key y)"
  obtain row where row: "row_of (db (world_of ?s)) (u_id user) key = Some row" "i_request_hash row = hash_request_body (rq_body rq)"
    "i_status row = ''completed''" "body_or_empty (i_response_body row) = b"
    using assms(1,4) by (auto simp: answered_def)
  obtain w where w: "?run (world_of ?s) = (Val b, w)" "db w = db (world_of s)"
    using run_idempotent_existing [OF _ row(1), of "hash_request_body (rq_body rq)"] row assms(3) by (auto simp: existing_answer_def)
  let ?u = "with_world w ?s"
  have "ws_hub ((sv_app (snd ?s))\<lparr>ws_world := world_of s\<rparr>) = ws_hub (sv_app (snd s))"
    using current_user_run(2) [of s fw cfg rq] unfolding untouched_def by simp
  then have hub: "hub_of ?u = hub_of s" by (simp add: hub_of_def with_world_def)
  obtain t where t: "reply (u_id user) y b ?u = (Val r, t)"
    using same_answer [OF assms(2), of ?u] assms(9) hub by (metis prod.collapse)
  have world: "world_of t = w" using keepsD [OF keeps_tables t] by (simp add: with_world_def world_of_def)
  have "keyed_route fw cfg rq spec (Some y) work reply s = close_session (Val r, t)"
    unfolding keyed_route_def signed_in_run [OF assms(5)]
    by (simp add: validated_request_def limited_def assms(6-8) bind_in_world [where m = ?run, OF w(1)] t
        del: close_session.simps)
  moreover have "hub_of (snd (close_session (Val r, t))) = hub_of t"
    by (simp add: hub_of_def in_world_def on_part_def session_commit_def modify_def split: prod.split)
  moreover have "db (world_of (snd (close_session (Val r, t)))) = db (world_of s)" using close_session_db [of "Val r" t] world w(2) by simp
  moreover obtain m where "notification event b = Inr m" "hub_of t = snd (publish (u_id user) m (hub_of s))"
    using one_notification [OF t] hub by auto
  ultimately show ?thesis using close_session_result [of "Val r" t] by (metis prod.collapse)
qed

end

lemma in_hub_publish:
  "in_hub (publish uid m) s = (fst (publish uid m (hub_of s)), (fst s, sv_app_update (ws_hub_update (\<lambda>_. snd (publish uid m (hub_of s)))) (snd s)))"
  by (cases s) (simp add: in_hub_def on_part_def hub_of_def split: prod.split)

lemma after_publish [simp]:
  "hub_of (c, sv_app_update (ws_hub_update (\<lambda>_. h)) s) = h" "hub_of (fst s', snd s') = hub_of s'"
  by (simp_all add: hub_of_def)

lemma bind_publish: "hub_ready (hub_of t) \<Longrightarrow> bind (in_hub (publish uid m)) f t
    = f () (fst t, sv_app_update (ws_hub_update (\<lambda>_. snd (publish uid m (hub_of t)))) (snd t))"
  by (simp add: bind_def in_hub_publish publish_ready)

interpretation deposit_keyed: keyed_requests "deposit_work cfg" "deposit_reply fw" "''balance.updated''"
proof unfold_locales
  show "plain_work (deposit_work cfg uid key y)" for uid key y by (rule plain_deposit_work)
  show "keeps world_of (deposit_reply fw uid y b)" for uid y b unfolding deposit_reply_def by (auto intro!: frame_rules)
  show "fst (deposit_reply fw uid y b t) = Val r" if "deposit_reply fw uid y b s = (Val r, s')" "hub_ready (hub_of t)" for uid y b s r s' t
    using that(1)
    by (auto simp: deposit_reply_def Val_iffs exec_simps bind_publish [OF that(2)] on_ctx_def)
  show "\<exists>m. notification ''balance.updated'' b = Inr m \<and> hub_of s' = snd (publish uid m (hub_of s))"
    if "deposit_reply fw uid y b s = (Val r, s')" for uid y b s r s'
    using that by (auto simp: deposit_reply_def Val_iffs exec_simps in_hub_publish on_ctx_def hub_of_def)
qed

interpretation round_keyed: keyed_requests "bet_work cfg" "round_reply fw" "''round.settled''"
proof unfold_locales
  show "plain_work (bet_work cfg uid key y)" for uid key y by (rule plain_bet_work)
  show "keeps world_of (round_reply fw uid y b)" for uid y b unfolding round_reply_def count_round_def by (auto intro!: frame_rules)
  show "fst (round_reply fw uid y b t) = Val r" if "round_reply fw uid y b s = (Val r, s')" "hub_ready (hub_of t)" for uid y b s r s' t
    using that(1)
    by (auto simp: round_reply_def count_round_def Val_iffs exec_simps bind_publish [OF that(2)] on_ctx_def)
  show "\<exists>m. notification ''round.settled'' b = Inr m \<and> hub_of s' = snd (publish uid m (hub_of s))"
    if "round_reply fw uid y b s = (Val r, s')" for uid y b s r s'
    using that by (auto simp: round_reply_def count_round_def Val_iffs exec_simps in_hub_publish on_ctx_def hub_of_def)
qed

text \<open>A request of Ana, who is the user 1 of the example tables, to a server that lets it through.\<close>

definition demo_framework :: framework where
  "demo_framework = \<lparr>fw_crypto = plain_crypto, fw_citext = id, fw_uuid = (\<lambda>_. None), fw_datetime = (\<lambda>_. None),
     fw_show_datetime = isoformat, fw_lax_int = (\<lambda>j. case j of JInt n \<Rightarrow> Some n | _ \<Rightarrow> None),
     fw_lax_bool = (\<lambda>j. case j of JBool b \<Rightarrow> Some b | _ \<Rightarrow> None), fw_email = Some,
     fw_limited = (\<lambda>_. \<lparr>rs_status = 429, rs_content = None\<rparr>)\<rparr>"

definition demo_http :: "world \<Rightarrow> http_state" where
  "demo_http w = (demo_ctx, \<lparr>sv_app = demo_ws\<lparr>ws_world := w\<rparr>, bets_placed_total = []\<rparr>)"

definition demo_rq :: "string \<Rightarrow> json \<Rightarrow> http_request" where
  "demo_rq token body = \<lparr>rq_authorization = Some (''Bearer '' @ token), rq_idempotency_key = Some ''k'', rq_cursor = None,
     rq_limit = None, rq_body = [], rq_json = body, rq_within = (\<lambda>_. True)\<rparr>"

definition demo_token :: "uuid \<Rightarrow> string" where
  "demo_token u = jwt_encode plain_crypto (uuid_str u) 0 1000000000000 (JWT_SECRET default_settings) (JWT_ALGORITHM default_settings)"

lemma with_world_demo: "with_world w' (with_world w (demo_http v)) = demo_http w'"
  by (simp add: with_world_def demo_http_def)

lemma demo_framework_ok: "framework_ok demo_framework"
  by (simp add: framework_ok_def demo_framework_def)

lemma demo_user:
  assumes "u < 2 ^ 128" "find (\<lambda>r. u_id r = u) (users (db w)) = Some user" "u_status user = ''active''"
    and "0 \<le> clock w (Suc (ticks w))" "clock w (Suc (ticks w)) < 1000000000000"
  shows "user_of_request demo_framework default_settings (demo_rq (demo_token u) body) (demo_http w) = Val user"
proof -
  let ?decode = "decode_access_token plain_crypto (\<lambda>_. None) (demo_token u) (JWT_SECRET default_settings) (JWT_ALGORITHM default_settings) (JWT_PREVIOUS_SECRETS default_settings)"
  obtain r w1 where run: "?decode (start_tx w) = (r, w1)" by force
  have "unix_seconds (clock w (Suc (ticks w))) < unix_seconds 1000000000000" using assms(5) by (simp add: unix_seconds_def)
  then have "r = Val u"
    using decode_signed [of plain_crypto 0 "start_tx w" u "\<lambda>_. None" 1000000000000 "JWT_SECRET default_settings" "JWT_ALGORITHM default_settings"
        "JWT_SECRET default_settings" "JWT_PREVIOUS_SECRETS default_settings"] plain_crypto_contracts assms(1,4) run
    by (simp add: demo_token_def start_tx_def)
  moreover have "keeps db ?decode" unfolding decode_access_token_def by (auto intro!: frame_rules)
  ultimately show ?thesis using run assms(2,3) keepsD [of db ?decode "start_tx w" r w1]
    by (simp add: user_of_request_def demo_framework_def demo_rq_def demo_http_def get_current_user_def bind_Val [of ?decode]
        user_get_by_id_def exec_simps world_of_def)
qed

section \<open>Properties\<close>


text \<open>
  C35: a cursor that cannot be read is answered as an internal error: the exception of
  \<open>decode_cursor\<close> is caught by no route and named by no handler, so any signed-in client gets 500
  from both histories by sending a broken cursor, and the error is logged as a bug of the server.
\<close>

theorem broken_cursor_is_internal_error:
  assumes "user_of_request fw cfg rq s = Val user" and "rq_within rq GLOBAL_RATE_LIMIT"
    and "page_limit fw rq = Some n" and "decoded_cursor (fw_datetime fw, fw_uuid fw) (rq_cursor rq) = Inl e"
    and "sc_type sc = HttpScope"
  shows "e = InvalidCursorError \<and> map_of ERROR_MAP e = None
    \<and> fst (serve (transactions_route fw cfg rq) sc s) = json_response 500 ''internal error''
    \<and> fst (serve (rounds_route fw cfg tie rq) sc s) = json_response 500 ''internal error''"
proof -
  let ?s = "handler_state fw cfg rq s"
  have e: "e = InvalidCursorError" using assms(4)
    by (cases "decode_cursor (fw_datetime fw) (fw_uuid fw) (the (rq_cursor rq))")
      (auto simp: decoded_cursor_def dest: decode_cursor_error split: option.splits if_splits)
  have "transactions_endpoint (fw_datetime fw, fw_uuid fw) (u_id user) (rq_cursor rq) n (world_of ?s) = (Exc e, world_of ?s)"
    "rounds_endpoint (fw_datetime fw, fw_uuid fw) tie (u_id user) (rq_cursor rq) n (world_of ?s) = (Exc e, world_of ?s)"
    by (simp_all add: transactions_endpoint_def rounds_endpoint_def assms(4) exec_simps)
  then have "fst (transactions_route fw cfg rq s) = Exc e" "fst (rounds_route fw cfg tie rq s) = Exc e"
    by (simp_all add: transactions_route_def rounds_route_def handler_result [OF assms(1,2)] assms(3)
        bind_Exc [OF in_world_run])
  then obtain t u where "transactions_route fw cfg rq s = (Exc e, t)" "rounds_route fw cfg tie rq s = (Exc e, u)"
    by (metis prod.collapse)
  then show ?thesis
    using assms(5) e by (simp add: serve_def UnhandledExceptionMiddleware_def route_def bind_Exc map_of_error_handlers
        ERROR_MAP_def handle_unexpected_error_def)
qed




lemma demo_broken: "urlsafe_b64decode ''A'' = None"
  by code_simp

theorem broken_cursor_is_internal_error_witness:
  "fst (serve (transactions_route demo_framework default_settings (demo_rq (demo_token 1) JNull\<lparr>rq_cursor := Some ''A''\<rparr>))
     (demo_scope ''0'') (demo_http demo_world)) = json_response 500 ''internal error''"
proof -
  let ?rq = "demo_rq (demo_token 1) JNull\<lparr>rq_cursor := Some ''A''\<rparr>"
  have "user_of_request demo_framework default_settings (demo_rq (demo_token 1) JNull) (demo_http demo_world)
      = Val \<lparr>u_id = 1, u_email = ''ana@mail.com'', u_password_hash = ''h'', u_status = ''active'', u_created_at = 0\<rparr>"
    by (rule demo_user) (simp_all add: demo_defs)
  then have user: "user_of_request demo_framework default_settings ?rq (demo_http demo_world)
      = Val \<lparr>u_id = 1, u_email = ''ana@mail.com'', u_password_hash = ''h'', u_status = ''active'', u_created_at = 0\<rparr>"
    by (simp add: user_of_request_def)
  have "rq_within ?rq GLOBAL_RATE_LIMIT" "page_limit demo_framework ?rq = Some 20" "sc_type (demo_scope ''0'') = HttpScope"
    by (simp_all add: demo_rq_def page_limit_def demo_scope_def)
  moreover have "decoded_cursor (fw_datetime demo_framework, fw_uuid demo_framework) (rq_cursor ?rq) = Inl InvalidCursorError"
    using demo_broken by (simp add: decoded_cursor_def decode_cursor_def)
  ultimately show ?thesis using broken_cursor_is_internal_error [OF user] by blast
qed


text \<open>A server that has answered a deposit of 5 euros under the key \<open>k\<close>, and the deposit again.\<close>

definition demo_deposit :: http_request where
  "demo_deposit = demo_rq (demo_token 1) (JObj [(''amount_minor'', JInt 500)])"

definition demo_answered :: http_state where
  "demo_answered = demo_http (demo_world\<lparr>db := demo_db\<lparr>idem_keys :=
     [(pending_row 1 ''k'' (hash_request_body []) 50 1000000 0)\<lparr>i_status := ''completed'', i_response_body := Some demo_body\<rparr>]\<rparr>\<rparr>)"

lemma demo_deposit_facts:
  "rq_within demo_deposit ''30/minute''" "idempotency_key_of demo_deposit = Some ''k''" "hub_ready (hub_of demo_answered)"
  "idem_ok (db (world_of demo_answered))" "DepositRequest demo_framework (rq_json demo_deposit) = Some 500" "rq_body demo_deposit = []"
  "user_of_request demo_framework default_settings demo_deposit demo_answered
     = Val \<lparr>u_id = 1, u_email = ''ana@mail.com'', u_password_hash = ''h'', u_status = ''active'', u_created_at = 0\<rparr>"
proof -
  show "user_of_request demo_framework default_settings demo_deposit demo_answered
     = Val \<lparr>u_id = 1, u_email = ''ana@mail.com'', u_password_hash = ''h'', u_status = ''active'', u_created_at = 0\<rparr>"
    unfolding demo_deposit_def demo_answered_def by (rule demo_user) (simp_all add: demo_defs)
qed (simp_all add: demo_deposit_def demo_rq_def idempotency_key_of_def length_within_def py_len_def IDEMPOTENCY_KEY_MAX_LENGTH_def
    demo_answered_def demo_http_def demo_ws_def hub_of_def hub_ready_def subscribers_ok_def new_hub_def idem_ok_def world_of_def
    DepositRequest_def only_fields_def int_field_def MAX_DEPOSIT_MINOR_def demo_framework_def)

lemma demo_reply: "\<exists>u'. deposit_reply demo_framework 1 500 demo_body demo_answered
    = (Val (json_answer 200 (JObj [(''balance_minor'', JInt 1500), (''currency'', JStr ''EUR'')])), u')"
  by (simp add: deposit_reply_def exec_simps demo_body_def bind_publish demo_deposit_facts(3) on_ctx_def DepositResponse_def BalanceResponse_def
      int_field_def demo_framework_def split: prod.split)


end
