(* ===== verification/Lifecycle.thy ===== *)
theory Lifecycle
  imports Config Events Endpoints
begin

text \<open>
  \<open>app/api/health.py\<close>, \<open>app/infra/kafka.py\<close> and the start and stop of \<open>app/main.py\<close>: the registry of
  readiness checks and what \<open>/ready\<close> answers, the options of the producer, the state \<open>create_app\<close>
  builds, and the lifespan as the calls it makes to the outside, in their order. How such a call
  ends is a parameter.
\<close>

section \<open>Readiness\<close>

text \<open>A check returns, raises (a \<open>TimeoutError\<close> of its own or another exception), or hangs.\<close>

datatype check_outcome = CheckReturns | CheckRaises bool | CheckHangs

type_synonym 'c readiness = "(string \<times> 'c) list"

definition readiness_register :: "string \<Rightarrow> 'c \<Rightarrow> 'c readiness \<Rightarrow> exn + 'c readiness" where
  "readiness_register name check checks =
     (if name \<in> fst ` set checks then Inl ValueError else Inr (checks @ [(name, check)]))"

text \<open>\<open>wait_for\<close> turns a check that takes longer than \<open>CHECK_TIMEOUT_SECONDS\<close> into a \<open>TimeoutError\<close>.\<close>

fun run_one :: "check_outcome \<Rightarrow> string" where
  "run_one CheckReturns = ''ok''"
| "run_one CheckHangs = ''timeout''"
| "run_one (CheckRaises is_timeout) = (if is_timeout then ''timeout'' else ''fail'')"

definition run_checks :: "('c \<Rightarrow> check_outcome) \<Rightarrow> 'c readiness \<Rightarrow> (string \<times> string) list" where
  "run_checks probe checks = map (\<lambda>(name, check). (name, run_one (probe check))) checks"

definition ready :: "('c \<Rightarrow> check_outcome) \<Rightarrow> 'c readiness \<Rightarrow> http_response" where
  "ready probe registry =
     (let checks = run_checks probe registry; healthy = list_all (\<lambda>(_, state). state = ''ok'') checks in
      json_answer (if healthy then 200 else 503)
        (JObj [(''status'', JStr (if healthy then ''ready'' else ''degraded'')),
          (''checks'', JObj (map (\<lambda>(name, state). (name, JStr state)) checks))]))"

definition health :: "settings \<Rightarrow> http_response" where
  "health cfg = json_answer 200 (JObj [(''status'', JStr ''ok''), (''name'', JStr (APP_NAME cfg)),
     (''version'', JStr (APP_VERSION cfg)), (''env'', JStr (APP_ENV cfg))])"

section \<open>Kafka\<close>

definition kafka_check_topic :: "settings \<Rightarrow> exn + string" where
  "kafka_check_topic cfg = (case map_of EVENT_TOPIC_SUFFIXES ''bet.placed'' of
     None \<Rightarrow> Inl KeyError | Some sfx \<Rightarrow> Inr (KAFKA_TOPIC_PREFIX cfg @ ''.'' @ sfx))"

record producer_options =
  po_bootstrap_servers :: string
  po_security_protocol :: string
  po_acks :: string
  po_enable_idempotence :: bool
  po_sasl :: "(string \<times> string) list"

text \<open>\<open>x or ""\<close> on an optional text.\<close>

fun or_empty :: "string option \<Rightarrow> string" where
  "or_empty None = []"
| "or_empty (Some s) = s"

definition create_producer :: "settings \<Rightarrow> producer_options" where
  "create_producer cfg = \<lparr>po_bootstrap_servers = KAFKA_BOOTSTRAP_SERVERS cfg,
     po_security_protocol = KAFKA_SECURITY_PROTOCOL cfg, po_acks = ''all'', po_enable_idempotence = True,
     po_sasl = (if take 4 (KAFKA_SECURITY_PROTOCOL cfg) = ''SASL''
       then [(''sasl_mechanism'', or_empty (KAFKA_SASL_MECHANISM cfg)),
         (''sasl_plain_username'', or_empty (KAFKA_SASL_USERNAME cfg)),
         (''sasl_plain_password'', or_empty (KAFKA_SASL_PASSWORD cfg))]
       else [])\<rparr>"

section \<open>Clients of the database, of Redis and of the limiter\<close>

text \<open>What the constructors of the libraries are called with.\<close>

definition STATEMENT_TIMEOUT_MS :: nat where "STATEMENT_TIMEOUT_MS = 30000"

record engine_options =
  eo_url :: string
  eo_pool_size :: int
  eo_pool_pre_ping :: bool
  eo_pool_timeout :: int
  eo_connect_args :: "(string \<times> string) list"

definition create_engine :: "string \<Rightarrow> int \<Rightarrow> engine_options" where
  "create_engine url pool_size = \<lparr>eo_url = url, eo_pool_size = pool_size, eo_pool_pre_ping = True, eo_pool_timeout = 30,
     eo_connect_args = [(''options'', ''-c statement_timeout='' @ dec_nat STATEMENT_TIMEOUT_MS)]\<rparr>"

record session_options =
  so_engine :: engine_options
  so_expire_on_commit :: bool

definition create_session_factory :: "engine_options \<Rightarrow> session_options" where
  "create_session_factory engine = \<lparr>so_engine = engine, so_expire_on_commit = False\<rparr>"

definition create_redis_client :: "settings \<Rightarrow> string" where
  "create_redis_client cfg = REDIS_URL cfg"

text \<open>
  \<open>get_settings\<close> with its cache: the environment is read until it gives settings, and then never
  again. The limiter of the module takes its storage from there.
\<close>

definition get_settings :: "(exn + settings) \<Rightarrow> (settings option, settings) exec" where
  "get_settings environment = (\<lambda>cache. case cache of
     Some s \<Rightarrow> (Val s, cache)
   | None \<Rightarrow> (case environment of Inl e \<Rightarrow> (Exc e, None) | Inr s \<Rightarrow> (Val s, Some s)))"

definition limiter_storage :: "(exn + settings) \<Rightarrow> (settings option, string) exec" where
  "limiter_storage environment = bind (get_settings environment) (\<lambda>s. ret (REDIS_URL s))"

section \<open>The application\<close>

datatype probe = ProbeDatabase | ProbeRedis | ProbeKafka

datatype action =
    ProducerStart producer_options | StartRelay | StartPurge | CloseSocket nat int
  | CancelRelay | CancelPurge | ProducerStop | RedisClose | EngineDispose

record app_state =
  as_settings :: settings
  as_engine :: engine_options
  as_session_factory :: session_options
  as_redis :: string
  as_readiness :: "probe readiness"
  as_connections :: registry
  as_connections_limit :: int
  as_broadcaster :: hub
  as_connect_limiter :: "int \<times> rat"
  as_docs_url :: "string option"
  as_openapi_url :: "string option"
  as_actions :: "action list"

definition app_state_of :: "settings \<Rightarrow> exn + app_state" where
  "app_state_of cfg =
     sbind (readiness_register ''database'' ProbeDatabase []) (\<lambda>checks.
     sbind (readiness_register ''redis'' ProbeRedis checks) (\<lambda>checks.
     let engine = create_engine (DATABASE_URL cfg) (DB_POOL_SIZE cfg) in
     Inr \<lparr>as_settings = cfg, as_engine = engine, as_session_factory = create_session_factory engine,
       as_redis = create_redis_client cfg, as_readiness = checks,
       as_connections = \<lparr>max_connections = WS_MAX_CONNECTIONS cfg, connections = [], ws_connections_active = 0, ws_connections_total = 0\<rparr>,
       as_connections_limit = WS_MAX_CONNECTIONS cfg, as_broadcaster = new_hub,
       as_connect_limiter = (WS_CONNECT_RATE_LIMIT_ATTEMPTS cfg, WS_CONNECT_RATE_LIMIT_WINDOW_S cfg),
       as_docs_url = (if is_production cfg then None else Some ''/docs''),
       as_openapi_url = (if is_production cfg then None else Some ''/openapi.json''),
       as_actions = []\<rparr>))"

text \<open>The dependencies that read the state of the request's application, not the cached settings.\<close>

definition get_app_settings :: "app_state \<Rightarrow> settings" where "get_app_settings app = as_settings app"
definition get_session_factory :: "app_state \<Rightarrow> session_options" where "get_session_factory app = as_session_factory app"
definition get_broadcaster :: "app_state \<Rightarrow> hub" where "get_broadcaster app = as_broadcaster app"

text \<open>A call to the outside, and one whose exception is suppressed.\<close>

definition perform :: "(action \<Rightarrow> exn option) \<Rightarrow> action \<Rightarrow> (app_state, unit) exec" where
  "perform fails a = (\<lambda>s. (case fails a of None \<Rightarrow> Val () | Some e \<Rightarrow> Exc e, s\<lparr>as_actions := as_actions s @ [a]\<rparr>))"

fun close_sockets :: "(nat \<times> int) list \<Rightarrow> (app_state, unit) exec" where
  "close_sockets [] = ret ()"
| "close_sockets ((ws, code) # rest) = bind (modify (\<lambda>s. s\<lparr>as_actions := as_actions s @ [CloseSocket ws code]\<rparr>)) (\<lambda>_. close_sockets rest)"

definition startup :: "(action \<Rightarrow> exn option) \<Rightarrow> (app_state, unit) exec" where
  "startup fails =
     bind (gets as_settings) (\<lambda>cfg.
     bind (perform fails (ProducerStart (create_producer cfg))) (\<lambda>_.
     bind (gets as_readiness) (\<lambda>checks.
     bind (lift_sum (readiness_register ''kafka'' ProbeKafka checks)) (\<lambda>checks.
     bind (modify (\<lambda>s. s\<lparr>as_readiness := checks\<rparr>)) (\<lambda>_.
     bind (perform fails StartRelay) (\<lambda>_.
     perform fails StartPurge))))))"

text \<open>
  \<open>task.cancel()\<close> and \<open>await task\<close> are one call: it raises when the task had ended with an
  exception other than the cancellation.
\<close>

definition shutdown :: "(action \<Rightarrow> exn option) \<Rightarrow> (app_state, unit) exec" where
  "shutdown fails =
     bind (on_part as_connections as_connections_update (close_all 1001)) (\<lambda>frames.
     bind (close_sockets frames) (\<lambda>_.
     bind (perform fails CancelRelay) (\<lambda>_.
     bind (perform fails CancelPurge) (\<lambda>_.
     bind (perform fails ProducerStop) (\<lambda>_.
     bind (perform fails RedisClose) (\<lambda>_.
     perform fails EngineDispose))))))"

text \<open>The lifespan around whatever the application does while it is up.\<close>

definition lifespan :: "(action \<Rightarrow> exn option) \<Rightarrow> (app_state \<Rightarrow> app_state) \<Rightarrow> (app_state, unit) exec" where
  "lifespan fails during =
     bind (startup fails) (\<lambda>_. bind (modify during) (\<lambda>_. shutdown fails))"

section \<open>Properties\<close>

lemma close_sockets_run: "close_sockets frames s = (Val (), s\<lparr>as_actions := as_actions s @ map (\<lambda>(ws, code). CloseSocket ws code) frames\<rparr>)"
  by (induction frames arbitrary: s) (auto simp: exec_simps)

lemma perform_run: "fails a = None \<Longrightarrow> bind (perform fails a) f s = f () (s\<lparr>as_actions := as_actions s @ [a]\<rparr>)"
  "fails a = Some e \<Longrightarrow> bind (perform fails a) f s = (Exc e, s\<lparr>as_actions := as_actions s @ [a]\<rparr>)"
  by (simp_all add: bind_def perform_def)

lemma shutdown_run:
  assumes "\<And>a. fails a = None"
  shows "shutdown fails s = (Val (), s\<lparr>as_connections := (as_connections s)\<lparr>connections := [],
        ws_connections_active := ws_connections_active (as_connections s) - int (length (connections (as_connections s)))\<rparr>,
      as_actions := as_actions s @ map (\<lambda>ws. CloseSocket ws 1001) (connections (as_connections s))
        @ [CancelRelay, CancelPurge, ProducerStop, RedisClose, EngineDispose]\<rparr>)"
  by (simp add: shutdown_def on_part_def close_all_def bind_Val [OF close_sockets_run] bind_def close_sockets_run perform_def assms o_def)

lemma app_state_run:
  assumes "app_state_of cfg = Inr s0"
  shows "as_readiness s0 = [(''database'', ProbeDatabase), (''redis'', ProbeRedis)]" "as_actions s0 = []" "as_settings s0 = cfg"
  using assms by (auto simp: app_state_of_def Let_def readiness_register_def)

text \<open>An application works with the settings it was created with, whatever the cache holds.\<close>

lemma dependencies_of_app:
  assumes "app_state_of cfg = Inr app"
  shows "get_app_settings app = cfg \<and> so_engine (get_session_factory app) = as_engine app
    \<and> eo_url (as_engine app) = DATABASE_URL cfg \<and> eo_pool_size (as_engine app) = DB_POOL_SIZE cfg
    \<and> as_redis app = REDIS_URL cfg"
  using assms by (auto simp: app_state_of_def Let_def readiness_register_def get_app_settings_def get_session_factory_def
      create_session_factory_def create_engine_def create_redis_client_def Let_def)

lemma get_settings_once:
  "get_settings env cache = (Val s, cache') \<Longrightarrow> cache' = Some s \<and> get_settings env' cache' = (Val s, cache')"
  by (auto simp: get_settings_def split: option.splits sum.splits)

lemma startup_Val:
  assumes "as_readiness s0 = [(''database'', ProbeDatabase), (''redis'', ProbeRedis)]" and "startup fails s0 = (Val (), s)"
  shows "s = s0\<lparr>as_readiness := [(''database'', ProbeDatabase), (''redis'', ProbeRedis), (''kafka'', ProbeKafka)],
      as_actions := as_actions s0 @ [ProducerStart (create_producer (as_settings s0)), StartRelay, StartPurge]\<rparr>"
  using assms by (auto simp: startup_def bind_Val_iff perform_def exec_simps readiness_register_def split: option.splits)

lemma startup_runs:
  assumes "as_readiness s0 = [(''database'', ProbeDatabase), (''redis'', ProbeRedis)]" and "\<And>a. fails a = None"
  obtains s where "startup fails s0 = (Val (), s)"
proof -
  have "perform fails a s = (Val (), s\<lparr>as_actions := as_actions s @ [a]\<rparr>)" for a s by (simp add: perform_def assms(2))
  with assms that show ?thesis by (simp add: startup_def perform_run exec_simps readiness_register_def)
qed

text \<open>A second start of the same application finds the name of the Kafka check taken, after its producer has started.\<close>

lemma second_startup:
  assumes "\<And>a. fails a = None" "''kafka'' \<in> fst ` set (as_readiness s)"
  shows "startup fails s = (Exc ValueError, s\<lparr>as_actions := as_actions s @ [ProducerStart (create_producer (as_settings s))]\<rparr>)"
  using assms by (simp add: startup_def perform_run exec_simps readiness_register_def)

text \<open>
  \<open>/ready\<close> is ready when the application is: a fresh application that has started checks the
  database, Redis and Kafka, each under its own name; it answers 200 exactly when all three
  checks return in time, and otherwise 503 with the state of each; a name can only be taken once.
\<close>

theorem readiness_covers_dependencies:
  assumes "app_state_of cfg = Inr s0" and "startup fails s0 = (Val (), s)"
  shows "map fst (as_readiness s) = [''database'', ''redis'', ''kafka'']
    \<and> (rs_status (ready probe (as_readiness s)) = 200 \<longleftrightarrow> (\<forall>p \<in> {ProbeDatabase, ProbeRedis, ProbeKafka}. probe p = CheckReturns))
    \<and> rs_status (ready probe (as_readiness s)) \<in> {200, 503}
    \<and> (\<forall>name check. name \<in> set [''database'', ''redis'', ''kafka''] \<longrightarrow> readiness_register name check (as_readiness s) = Inl ValueError)"
proof -
  note s = startup_Val [OF app_state_run(1) [OF assms(1)] assms(2)]
  have one: "run_one r = ''ok'' \<longleftrightarrow> r = CheckReturns" for r by (cases r) auto
  show ?thesis by (auto simp: s ready_def run_checks_def Let_def json_answer_def one readiness_register_def)
qed

theorem readiness_covers_dependencies_witness:
  "\<exists>s :: app_state. rs_status (ready (\<lambda>p. if p = ProbeRedis then CheckHangs else CheckReturns) (as_readiness s)) = 503 \<and> as_actions s \<noteq> []"
proof -
  obtain s0 where s0: "app_state_of default_settings = Inr s0" by (auto simp: app_state_of_def Let_def readiness_register_def)
  obtain s where s: "startup (\<lambda>_. None) s0 = (Val (), s)"
    by (rule startup_runs [OF app_state_run(1) [OF s0], of "\<lambda>_. None"]) simp_all
  have "as_actions s \<noteq> []" using startup_Val [OF app_state_run(1) [OF s0] s] by simp
  with readiness_covers_dependencies [OF s0 s, of "\<lambda>p. if p = ProbeRedis then CheckHangs else CheckReturns"]
  show ?thesis by (intro exI [of _ s]) auto
qed

text \<open>
  C36: an orderly stop: however many connections are open, a stop without failures tells each
  of them that the server goes away (code 1001) before anything else is taken down, ends both
  background tasks before the producer they use, closes Redis and the engine last, and leaves no
  connection registered and the gauge at zero. The same application cannot be started again.
\<close>

theorem orderly_stop:
  assumes "app_state_of cfg = Inr s0" and "\<And>a. fails a = None"
    and "registry_ok (as_connections (during s1))" and "startup fails s0 = (Val (), s1)" and "as_actions (during s1) = as_actions s1"
    and "as_readiness (during s1) = as_readiness s1"
  shows "\<exists>s. lifespan fails during s0 = (Val (), s)
    \<and> as_actions s = [ProducerStart (create_producer cfg), StartRelay, StartPurge]
        @ map (\<lambda>ws. CloseSocket ws 1001) (connections (as_connections (during s1)))
        @ [CancelRelay, CancelPurge, ProducerStop, RedisClose, EngineDispose]
    \<and> connections (as_connections s) = [] \<and> ws_connections_active (as_connections s) = 0
    \<and> fst (lifespan fails during s) = Exc ValueError"
proof -
  note s1 = startup_Val [OF app_state_run(1) [OF assms(1)] assms(4)]
  have acts: "as_actions (during s1) = [ProducerStart (create_producer cfg), StartRelay, StartPurge]"
    using assms(5) s1 app_state_run(2,3) [OF assms(1)] by simp
  obtain s where s: "shutdown fails (during s1) = (Val (), s)" "s = (during s1)\<lparr>as_connections := (as_connections (during s1))\<lparr>connections := [],
        ws_connections_active := ws_connections_active (as_connections (during s1)) - int (length (connections (as_connections (during s1))))\<rparr>,
      as_actions := as_actions (during s1) @ map (\<lambda>ws. CloseSocket ws 1001) (connections (as_connections (during s1)))
        @ [CancelRelay, CancelPurge, ProducerStop, RedisClose, EngineDispose]\<rparr>"
    using shutdown_run [where fails = fails and s = "during s1", OF assms(2)] by blast
  have "lifespan fails during s0 = (Val (), s)"
    by (simp add: lifespan_def bind_Val [of "startup fails", OF assms(4)] exec_simps s(1))
  moreover have "fst (lifespan fails during s) = Exc ValueError"
    using second_startup [where fails = fails and s = s, OF assms(2)] s(2) assms(6) s1 by (simp add: lifespan_def bind_Exc)
  moreover have "connections (as_connections s) = []" "ws_connections_active (as_connections s) = 0"
    using assms(3) s(2) by (simp_all add: registry_ok_def)
  ultimately show ?thesis using s(2) acts by (intro exI [of _ s]) simp
qed

theorem orderly_stop_witness:
  "\<exists>s0 s. lifespan (\<lambda>_. None) (\<lambda>s. s\<lparr>as_connections := (as_connections s)\<lparr>connections := [5], ws_connections_active := 1\<rparr>\<rparr>) s0 = (Val (), s)
    \<and> as_actions s = [ProducerStart (create_producer default_settings), StartRelay, StartPurge, CloseSocket 5 1001,
        CancelRelay, CancelPurge, ProducerStop, RedisClose, EngineDispose]"
proof -
  let ?during = "\<lambda>s. s\<lparr>as_connections := (as_connections s)\<lparr>connections := [5], ws_connections_active := 1\<rparr>\<rparr>"
  obtain s0 where s0: "app_state_of default_settings = Inr s0" by (auto simp: app_state_of_def Let_def readiness_register_def)
  obtain s1 where s1: "startup (\<lambda>_. None) s0 = (Val (), s1)"
    by (rule startup_runs [OF app_state_run(1) [OF s0], of "\<lambda>_. None"]) simp_all
  have "max_connections (as_connections s0) = 1000" using s0 by (auto simp: app_state_of_def Let_def readiness_register_def default_settings_def)
  then have ok: "registry_ok (as_connections (?during s1))"
    using startup_Val [OF app_state_run(1) [OF s0] s1] by (simp add: registry_ok_def)
  show ?thesis
    using orderly_stop [where fails = "\<lambda>_. None" and during = ?during, OF s0 refl ok s1] startup_Val [OF app_state_run(1) [OF s0] s1]
      app_state_run(3) [OF s0] by auto
qed

end
