(* ===== verification/Metrics.thy ===== *)
theory Metrics
  imports Lifecycle
begin

text \<open>
  \<open>app/infra/metrics.py\<close> and the \<open>/metrics\<close> route: the declared families and what a scrape of the
  process reads from the states of the components that count (finished requests, resolved rounds,
  the registry of connections, the limit set by \<open>create_app\<close>). The text format is
  \<open>prometheus_client\<close>'s: \<open>generate_latest\<close> and its content type are parameters. Of the
  histogram only the number of observations is modelled, durations are not.
\<close>

section \<open>The declared families\<close>

datatype metric_kind = Counter | Gauge | Histogram

record metric =
  mt_kind :: metric_kind
  mt_name :: string
  mt_documentation :: string
  mt_labels :: "string list"

definition http_requests_total_metric :: metric where
  "http_requests_total_metric = \<lparr>mt_kind = Counter, mt_name = ''http_requests_total'',
     mt_documentation = ''Completed HTTP requests'', mt_labels = [''method'', ''path'', ''status_code'']\<rparr>"

definition http_request_duration_seconds :: metric where
  "http_request_duration_seconds = \<lparr>mt_kind = Histogram, mt_name = ''http_request_duration_seconds'',
     mt_documentation = ''HTTP request duration'', mt_labels = [''method'', ''path'']\<rparr>"

definition ws_connections_active_metric :: metric where
  "ws_connections_active_metric = \<lparr>mt_kind = Gauge, mt_name = ''ws_connections_active'',
     mt_documentation = ''WebSocket connections active right now'', mt_labels = []\<rparr>"

definition ws_connections_limit :: metric where
  "ws_connections_limit = \<lparr>mt_kind = Gauge, mt_name = ''ws_connections_limit'',
     mt_documentation = ''Configured cap on simultaneous WebSocket connections (WS_MAX_CONNECTIONS)'', mt_labels = []\<rparr>"

definition ws_connections_total_metric :: metric where
  "ws_connections_total_metric = \<lparr>mt_kind = Counter, mt_name = ''ws_connections_total'',
     mt_documentation = ''WebSocket connections accepted since the process started'', mt_labels = []\<rparr>"

definition bets_placed_total_metric :: metric where
  "bets_placed_total_metric = \<lparr>mt_kind = Counter, mt_name = ''bets_placed_total'',
     mt_documentation = ''Roulette rounds resolved'', mt_labels = [''won'']\<rparr>"

section \<open>A scrape\<close>

type_synonym series = "string list \<times> int"

text \<open>One series per label values that were counted, in the order of their first count.\<close>

definition counted :: "string list list \<Rightarrow> series list" where
  "counted labels = map (\<lambda>l. (l, int (count_list labels l))) (rev (remdups (rev labels)))"

text \<open>\<open>str(status_code)\<close>\<close>

definition status_label :: "int option \<Rightarrow> string" where
  "status_label s = (case s of None \<Rightarrow> ''None'' | Some n \<Rightarrow> dec_int n)"

definition scrape :: "app_state \<Rightarrow> http_state \<Rightarrow> (metric \<times> series list) list" where
  "scrape app s = (let g = ws_registry (sv_app (snd s)); requests = http_requests_total (fst s) in
     [(http_requests_total_metric, counted (map (\<lambda>(m, p, st). [m, p, status_label st]) requests)),
      (http_request_duration_seconds, counted (map (\<lambda>(m, p, st). [m, p]) requests)),
      (ws_connections_active_metric, [([], ws_connections_active g)]),
      (ws_connections_limit, [([], as_connections_limit app)]),
      (ws_connections_total_metric, [([], ws_connections_total g)]),
      (bets_placed_total_metric, counted (map (\<lambda>b. [b]) (bets_placed_total (snd s))))])"

text \<open>\<open>generate_latest\<close> and \<open>CONTENT_TYPE_LATEST\<close> are those of the library.\<close>

definition render_latest :: "((metric \<times> series list) list \<Rightarrow> bytes) \<Rightarrow> string \<Rightarrow> (metric \<times> series list) list \<Rightarrow> bytes \<times> string" where
  "render_latest generate_latest content_type_latest registry = (generate_latest registry, content_type_latest)"

record raw_response =
  rr_status :: int
  rr_body :: bytes
  rr_media_type :: string

definition metrics :: "((metric \<times> series list) list \<Rightarrow> bytes) \<Rightarrow> string \<Rightarrow> (metric \<times> series list) list \<Rightarrow> raw_response" where
  "metrics generate_latest content_type_latest registry =
     (case render_latest generate_latest content_type_latest registry of
        (body, content_type) \<Rightarrow> \<lparr>rr_status = 200, rr_body = body, rr_media_type = content_type\<rparr>)"

section \<open>What a scrape says\<close>

lemma counted_total: "sum_list (map snd (counted labels)) = int (length labels)"
proof -
  let ?keys = "rev (remdups (rev labels))"
  have "sum_list (map snd (counted labels)) = sum_list (map (\<lambda>l. int (count_list labels l)) ?keys)"
    by (simp add: counted_def comp_def)
  also have "\<dots> = (\<Sum>l \<in> set ?keys. int (count_list labels l))" by (rule sum_list_distinct_conv_sum_set) simp
  also have "\<dots> = int (\<Sum>l \<in> set labels. count_list labels l)" by simp
  also have "(\<Sum>l \<in> set labels. count_list labels l) = length labels" by (rule sum_count_set) simp_all
  finally show ?thesis .
qed

lemma counted_labels: "map fst (counted labels) = rev (remdups (rev labels))"
  by (simp add: counted_def comp_def)

text \<open>
  What a scrape of a started application says: every family is declared once and each of its
  series has one value per declared label and labels of its own; the counters add up to the
  requests that finished and the rounds that were resolved; and the connections gauge is the number
  of registered connections, never above the limit it is compared with.
\<close>

theorem scrape_accounts:
  assumes "app_state_of cfg = Inr app" and "registry_ok (ws_registry (sv_app (snd s)))"
    and "max_connections (ws_registry (sv_app (snd s))) = max_connections (as_connections app)"
  shows "distinct (map (mt_name \<circ> fst) (scrape app s))
    \<and> list_all (\<lambda>(m, ss). distinct (map fst ss) \<and> list_all (\<lambda>x. length (fst x) = length (mt_labels m)) ss) (scrape app s)
    \<and> sum_list (map snd (the (map_of (scrape app s) http_requests_total_metric))) = int (length (http_requests_total (fst s)))
    \<and> sum_list (map snd (the (map_of (scrape app s) bets_placed_total_metric))) = int (length (bets_placed_total (snd s)))
    \<and> (\<exists>n limit. map_of (scrape app s) ws_connections_active_metric = Some [([], n)]
        \<and> map_of (scrape app s) ws_connections_limit = Some [([], limit)]
        \<and> n = int (length (connections (ws_registry (sv_app (snd s))))) \<and> n \<le> limit)"
proof -
  let ?kinds = "[http_requests_total_metric, http_request_duration_seconds, ws_connections_active_metric,
    ws_connections_limit, ws_connections_total_metric, bets_placed_total_metric]"
  note defs = http_requests_total_metric_def http_request_duration_seconds_def ws_connections_active_metric_def
    ws_connections_limit_def ws_connections_total_metric_def bets_placed_total_metric_def
  have limit: "as_connections_limit app = max_connections (as_connections app)"
    using assms(1) by (auto simp: app_state_of_def Let_def sbind_Inr_iff)
  have series: "distinct (map fst (counted ls))" "list_all (\<lambda>x. length (fst x) = n) (counted ls)"
    if "\<And>l. l \<in> set ls \<Longrightarrow> length l = n" for ls n
    using that by (simp_all add: counted_labels) (auto simp: counted_def list_all_iff)
  show ?thesis
  proof (intro conjI)
    show "distinct (map (mt_name \<circ> fst) (scrape app s))" by (simp add: scrape_def Let_def defs)
    show "list_all (\<lambda>(m, ss). distinct (map fst ss) \<and> list_all (\<lambda>x. length (fst x) = length (mt_labels m)) ss) (scrape app s)"
      by (auto simp: scrape_def Let_def defs intro!: series)
    show "sum_list (map snd (the (map_of (scrape app s) http_requests_total_metric))) = int (length (http_requests_total (fst s)))"
      by (simp add: scrape_def Let_def counted_total)
    show "sum_list (map snd (the (map_of (scrape app s) bets_placed_total_metric))) = int (length (bets_placed_total (snd s)))"
      by (simp add: scrape_def Let_def counted_total) (simp add: defs counted_total)
    show "\<exists>n limit. map_of (scrape app s) ws_connections_active_metric = Some [([], n)]
        \<and> map_of (scrape app s) ws_connections_limit = Some [([], limit)]
        \<and> n = int (length (connections (ws_registry (sv_app (snd s))))) \<and> n \<le> limit"
      using assms(2,3) limit by (simp add: scrape_def Let_def defs registry_ok_def)
  qed
qed

end
