(* ===== verification/Schema.thy ===== *)
theory Schema
  imports Db_Model Migrations
begin

text \<open>
  The store of the model against the schema of the migrations. A catalog is read the way
  PostgreSQL enforces it: a row has the columns of its table, each value fits its column's type,
  \<open>NOT NULL\<close>, checks (three-valued: an unknown condition passes), keys and unique indexes
  (nulls are distinct, a partial index only sees the rows of its condition) and foreign keys.
  Every table of the model is shown as such rows, and the checks that \<open>Db_Model\<close> makes before an
  insertion are exactly those of the schema that the revisions build.
\<close>

section \<open>Values and rows\<close>

datatype document = JsonDocument json | SelectionDocument selection | EnvelopeDocument envelope

datatype sql_value = Null | Uuid uuid | Text string | Num int | Timestamp time | Binary bytes | Document document

type_synonym sql_row = "(string \<times> sql_value) list"
type_synonym store = "(string \<times> sql_row list) list"

definition field :: "sql_row \<Rightarrow> string \<Rightarrow> sql_value" where
  "field r k = (case map_of r k of None \<Rightarrow> Null | Some v \<Rightarrow> v)"

definition stored :: "store \<Rightarrow> string \<Rightarrow> sql_row list" where
  "stored st t = (case map_of st t of None \<Rightarrow> [] | Some rows \<Rightarrow> rows)"

fun fits :: "sql_type \<Rightarrow> sql_value \<Rightarrow> bool" where
  "fits t Null = True"
| "fits t (Uuid u) = (t = SqlUuid)"
| "fits t (Text s) = (t \<in> {SqlString, SqlCitext})"
| "fits t (Num n) = (t = SqlInteger \<and> int4 n \<or> t = SqlBigInteger \<and> bigint n)"
| "fits t (Timestamp x) = (t = SqlTimestamptz)"
| "fits t (Binary b) = (t = SqlLargeBinary)"
| "fits t (Document d) = (t = SqlJsonb)"

section \<open>Enforcing a catalog\<close>

text \<open>The truth value of a condition; a comparison with a null is unknown.\<close>

definition num_test :: "(int \<Rightarrow> bool) \<Rightarrow> sql_value \<Rightarrow> bool option" where
  "num_test p v = (case v of Num n \<Rightarrow> Some (p n) | _ \<Rightarrow> None)"

definition text_test :: "(string \<Rightarrow> bool) \<Rightarrow> sql_value \<Rightarrow> bool option" where
  "text_test p v = (case v of Text s \<Rightarrow> Some (p s) | _ \<Rightarrow> None)"

fun cond_value :: "sql_cond \<Rightarrow> sql_row \<Rightarrow> bool option" where
  "cond_value (ColIn k xs) r = text_test (\<lambda>s. s \<in> set xs) (field r k)"
| "cond_value (ColGe k n) r = num_test (\<lambda>x. n \<le> x) (field r k)"
| "cond_value (ColGt k n) r = num_test (\<lambda>x. n < x) (field r k)"
| "cond_value (ColEq k s) r = text_test (\<lambda>x. x = s) (field r k)"
| "cond_value (ColIsNull k) r = Some (field r k = Null)"
| "cond_value (ColNullOrBetween k a b) r =
     (if field r k = Null then Some True else num_test (\<lambda>x. a \<le> x \<and> x \<le> b) (field r k))"

definition indexed :: "sql_cond option \<Rightarrow> sql_row \<Rightarrow> bool" where
  "indexed p r = (case p of None \<Rightarrow> True | Some c \<Rightarrow> cond_value c r = Some True)"

text \<open>Equal values of a column; a \<open>CITEXT\<close> column compares by the folding \<open>ci\<close>.\<close>

definition same_value :: "(string \<Rightarrow> string) \<Rightarrow> sql_type option \<Rightarrow> sql_value \<Rightarrow> sql_value \<Rightarrow> bool" where
  "same_value ci t v x = (v \<noteq> Null \<and> x \<noteq> Null \<and>
     (if t = Some SqlCitext then (case (v, x) of (Text a, Text b) \<Rightarrow> ci a = ci b | _ \<Rightarrow> v = x) else v = x))"

definition same_key :: "(string \<Rightarrow> string) \<Rightarrow> sql_table \<Rightarrow> string list \<Rightarrow> sql_row \<Rightarrow> sql_row \<Rightarrow> bool" where
  "same_key ci tab ks r x = list_all (\<lambda>k. same_value ci (map_option column_type (map_of (table_columns tab) k)) (field r k) (field x k)) ks"

text \<open>What a constraint and a unique index ask of a new row, given the rows of its table.\<close>

fun row_satisfies :: "(string \<Rightarrow> string) \<Rightarrow> store \<Rightarrow> sql_table \<Rightarrow> sql_row list \<Rightarrow> sql_row \<Rightarrow> sql_constraint \<Rightarrow> bool" where
  "row_satisfies ci st tab rows r (PrimaryKey ks) =
     (list_all (\<lambda>k. field r k \<noteq> Null) ks \<and> \<not> list_ex (same_key ci tab ks r) rows)"
| "row_satisfies ci st tab rows r (Unique ks) = (\<not> list_ex (same_key ci tab ks r) rows)"
| "row_satisfies ci st tab rows r (ForeignKey k t' k') =
     (field r k = Null \<or> list_ex (\<lambda>x. field r k = field x k') (stored st t'))"
| "row_satisfies ci st tab rows r (Check p) = (cond_value p r \<noteq> Some False)"

definition index_satisfied :: "(string \<Rightarrow> string) \<Rightarrow> sql_table \<Rightarrow> sql_row list \<Rightarrow> sql_row \<Rightarrow> sql_index \<Rightarrow> bool" where
  "index_satisfied ci tab rows r ix = (index_unique ix \<longrightarrow> indexed (index_where ix) r \<longrightarrow>
     \<not> list_ex (\<lambda>x. indexed (index_where ix) x \<and> same_key ci tab (index_columns ix) r x) rows)"

definition columns_known :: "sql_table \<Rightarrow> sql_row \<Rightarrow> bool" where
  "columns_known tab r = list_all (\<lambda>kv. has (fst kv) (table_columns tab)) r"

definition columns_fit :: "sql_table \<Rightarrow> sql_row \<Rightarrow> bool" where
  "columns_fit tab r = list_all (\<lambda>kc. fits (column_type (snd kc)) (field r (fst kc))) (table_columns tab)"

definition columns_filled :: "sql_table \<Rightarrow> sql_row \<Rightarrow> bool" where
  "columns_filled tab r = list_all (\<lambda>kc. nullable (snd kc) \<or> field r (fst kc) \<noteq> Null) (table_columns tab)"

text \<open>An \<open>INSERT\<close> of a whole row: an unknown table or column, a value out of range, a broken constraint.\<close>

definition insert_error :: "(string \<Rightarrow> string) \<Rightarrow> (string \<times> sql_table) list \<Rightarrow> store \<Rightarrow> string \<Rightarrow> sql_row \<Rightarrow> exn option" where
  "insert_error ci schema st t r = (case map_of schema t of
     None \<Rightarrow> Some OtherError
   | Some tab \<Rightarrow>
       if \<not> columns_known tab r then Some OtherError
       else check_row (columns_fit tab r)
         (columns_filled tab r
          \<and> list_all (\<lambda>c. row_satisfies ci st tab (stored st t) r (snd c)) (table_constraints tab)
          \<and> list_all (\<lambda>i. index_satisfied ci tab (stored st t) r (snd i)) (table_indexes tab)))"

section \<open>The tables of the model as rows\<close>

definition opt :: "('a \<Rightarrow> sql_value) \<Rightarrow> 'a option \<Rightarrow> sql_value" where
  "opt f v = (case v of None \<Rightarrow> Null | Some x \<Rightarrow> f x)"

definition user_fields :: "user_row \<Rightarrow> sql_row" where
  "user_fields r = [(''id'', Uuid (u_id r)), (''email'', Text (u_email r)), (''password_hash'', Text (u_password_hash r)),
     (''status'', Text (u_status r)), (''created_at'', Timestamp (u_created_at r))]"

definition wallet_fields :: "wallet_row \<Rightarrow> sql_row" where
  "wallet_fields r = [(''id'', Uuid (w_id r)), (''user_id'', Uuid (w_user_id r)),
     (''balance_minor'', Num (w_balance_minor r)), (''currency'', Text (w_currency r))]"

definition ledger_fields :: "ledger_row \<Rightarrow> sql_row" where
  "ledger_fields r = [(''id'', Uuid (l_id r)), (''wallet_id'', Uuid (l_wallet_id r)), (''amount_minor'', Num (l_amount_minor r)),
     (''balance_after_minor'', Num (l_balance_after_minor r)), (''kind'', Text (l_kind r)),
     (''ref_type'', opt Text (l_ref_type r)), (''ref_id'', opt Uuid (l_ref_id r)), (''created_at'', Timestamp (l_created_at r))]"

definition seed_fields :: "seed_row \<Rightarrow> sql_row" where
  "seed_fields r = [(''id'', Uuid (s_id r)), (''user_id'', Uuid (s_user_id r)), (''server_seed'', Binary (s_server_seed r)),
     (''server_seed_hash'', Text (s_server_seed_hash r)), (''client_seed'', Text (s_client_seed r)), (''nonce'', Num (s_nonce r)),
     (''status'', Text (s_status r)), (''revealed_at'', opt Timestamp (s_revealed_at r)), (''created_at'', Timestamp (s_created_at r))]"

definition round_fields :: "round_row \<Rightarrow> sql_row" where
  "round_fields r = [(''id'', Uuid (r_id r)), (''user_id'', Uuid (r_user_id r)), (''seed_pair_id'', Uuid (r_seed_pair_id r)),
     (''nonce'', Num (r_nonce r)), (''outcome'', opt Num (r_outcome r)), (''status'', Text (r_status r)),
     (''created_at'', Timestamp (r_created_at r)), (''settled_at'', opt Timestamp (r_settled_at r))]"

definition bet_fields :: "bet_row \<Rightarrow> sql_row" where
  "bet_fields r = [(''id'', Uuid (b_id r)), (''round_id'', Uuid (b_round_id r)), (''bet_type'', Text (b_bet_type r)),
     (''selection'', Document (SelectionDocument (b_selection r))), (''stake_minor'', Num (b_stake_minor r)),
     (''payout_minor'', Num (b_payout_minor r)), (''status'', Text (b_status r))]"

definition idem_fields :: "idem_row \<Rightarrow> sql_row" where
  "idem_fields r = [(''id'', Uuid (i_id r)), (''user_id'', Uuid (i_user_id r)), (''key'', Text (i_key r)),
     (''request_hash'', Text (i_request_hash r)), (''response_body'', opt (\<lambda>j. Document (JsonDocument j)) (i_response_body r)),
     (''status'', Text (i_status r)), (''expires_at'', Timestamp (i_expires_at r)), (''created_at'', Timestamp (i_created_at r))]"

definition token_fields :: "token_row \<Rightarrow> sql_row" where
  "token_fields r = [(''id'', Uuid (t_id r)), (''user_id'', Uuid (t_user_id r)), (''family_id'', Uuid (t_family_id r)),
     (''token_hash'', Text (t_token_hash r)), (''created_at'', Timestamp (t_created_at r)),
     (''expires_at'', Timestamp (t_expires_at r)), (''revoked_at'', opt Timestamp (t_revoked_at r))]"

definition outbox_fields :: "outbox_row \<Rightarrow> sql_row" where
  "outbox_fields r = [(''id'', Uuid (o_id r)), (''topic'', Text (o_topic r)), (''key'', Text (o_key r)),
     (''payload'', Document (EnvelopeDocument (o_payload r))), (''headers'', opt (\<lambda>j. Document (JsonDocument j)) (o_headers r)),
     (''created_at'', Timestamp (o_created_at r)), (''published_at'', opt Timestamp (o_published_at r)),
     (''attempts'', Num (o_attempts r)), (''last_error'', opt Text (o_last_error r)),
     (''next_attempt_at'', opt Timestamp (o_next_attempt_at r))]"

definition store_of :: "database \<Rightarrow> store" where
  "store_of d = [(''users'', map user_fields (users d)), (''wallets'', map wallet_fields (wallets d)),
     (''ledger_entries'', map ledger_fields (ledger d)), (''seed_pairs'', map seed_fields (seed_pairs d)),
     (''rounds'', map round_fields (rounds d)), (''bets'', map bet_fields (bets d)),
     (''idempotency_keys'', map idem_fields (idem_keys d)), (''refresh_tokens'', map token_fields (refresh_tokens d)),
     (''outbox'', map outbox_fields (outbox d))]"

lemmas fields_defs = user_fields_def wallet_fields_def ledger_fields_def seed_fields_def round_fields_def
  bet_fields_def idem_fields_def token_fields_def outbox_fields_def

section \<open>The order of declarations does not count\<close>

lemma same_items_set: "same_items xs ys \<Longrightarrow> set xs = set ys"
proof -
  assume a: "same_items xs ys"
  then have d: "distinct xs" and sub: "set xs \<subseteq> set ys" and len: "length xs = length ys"
    by (auto simp: same_items_def list_all_iff distinct_map)
  have "card (set ys) \<le> card (set xs)" using card_length [of ys] distinct_card [OF d] len by simp
  with card_subset_eq [OF finite_set sub] card_mono [OF finite_set sub] show ?thesis by simp
qed

lemma same_items_map_of: "same_items xs ys \<Longrightarrow> map_of xs k = map_of ys k"
proof -
  assume a: "same_items xs ys"
  then have d: "distinct (map fst xs)" "length xs = length ys" by (simp_all add: same_items_def)
  have s: "set xs = set ys" by (rule same_items_set [OF a])
  have "set (map fst ys) = set (map fst xs)" using s by simp
  with d have "distinct (map fst ys)" by (metis card_distinct distinct_card length_map)
  with d(1) s show ?thesis by (metis map_of_eqI map_of_inject_set)
qed

lemma has_set: "has k kvs \<longleftrightarrow> k \<in> fst ` set kvs"
  by (auto simp: has_def list_ex_iff)

lemma same_key_table: "same_items (table_columns a) (table_columns b) \<Longrightarrow> same_key ci a = same_key ci b"
  by (intro ext) (simp add: same_key_def same_items_map_of [of "table_columns a" "table_columns b"])

lemma row_satisfies_table:
  "same_items (table_columns a) (table_columns b) \<Longrightarrow> row_satisfies ci st a rows r c = row_satisfies ci st b rows r c"
  by (cases c) (simp_all add: same_key_table [of a b])

lemma same_schema_names: "same_schema xs ys \<Longrightarrow> fst ` set xs = fst ` set ys"
proof -
  assume a: "same_schema xs ys"
  then have d: "distinct (map fst xs)" and len: "length xs = length ys" by (simp_all add: same_schema_def)
  have sub: "fst ` set xs \<subseteq> fst ` set ys"
  proof
    fix t assume "t \<in> fst ` set xs"
    then obtain x where x: "x \<in> set xs" "t = fst x" by auto
    with a obtain b where "map_of ys t = Some b" by (auto simp: same_schema_def list_all_iff split: option.splits)
    then show "t \<in> fst ` set ys" by (auto dest: map_of_SomeD intro: image_eqI [of _ fst "(t, b)"])
  qed
  have "card (fst ` set ys) \<le> card (fst ` set xs)"
    using card_length [of "map fst ys"] distinct_card [OF d] len by simp
  with card_subset_eq [OF _ sub] card_mono [OF _ sub] show ?thesis by simp
qed

text \<open>So two schemas that are the same up to order accept the same rows.\<close>

lemma insert_error_same:
  assumes "same_schema xs ys"
  shows "insert_error ci xs = insert_error ci ys"
proof (intro ext)
  fix st t r
  show "insert_error ci xs st t r = insert_error ci ys st t r"
  proof (cases "t \<in> fst ` set xs")
    case False
    then have "map_of xs t = None" "map_of ys t = None"
      using same_schema_names [OF assms] by (auto simp: map_of_eq_None_iff)
    then show ?thesis by (simp add: insert_error_def)
  next
    case True
    have d: "distinct (map fst xs)" using assms by (simp add: same_schema_def)
    obtain a where a: "(t, a) \<in> set xs" using True by auto
    then have ma: "map_of xs t = Some a" using d by simp
    from a assms obtain b where mb: "map_of ys t = Some b" and s: "same_table a b"
      by (auto simp: same_schema_def list_all_iff split: option.splits)
    have cols: "same_items (table_columns a) (table_columns b)" using s by (simp add: same_table_def)
    have sets: "set (table_columns a) = set (table_columns b)" "set (table_constraints a) = set (table_constraints b)"
      "set (table_indexes a) = set (table_indexes b)" using s by (simp_all add: same_table_def same_items_set)
    show ?thesis
      by (simp add: insert_error_def ma mb columns_known_def columns_fit_def columns_filled_def list_all_iff has_set sets
          row_satisfies_table [OF cols] index_satisfied_def same_key_table [OF cols])
  qed
qed

section \<open>The checks of the store are those of the schema\<close>

definition migrated_schema :: "(string \<times> sql_table) list" where
  "migrated_schema = (case upgrade_head alembic_versions empty_catalog of None \<Rightarrow> [] | Some c \<Rightarrow> tables c)"

lemma migrated_declared: "same_schema migrated_schema metadata"
proof -
  have "map_option (\<lambda>c. same_schema (tables c) metadata) (upgrade_head alembic_versions empty_catalog) = Some True"
    by (rule upgraded_as_declared)
  then show ?thesis by (auto simp: migrated_schema_def)
qed

lemma metadata_tables:
  "map_of metadata ''users'' = Some (snd (declared User))" "map_of metadata ''wallets'' = Some (snd (declared Wallet))"
  "map_of metadata ''ledger_entries'' = Some (snd (declared LedgerEntry))"
  "map_of metadata ''seed_pairs'' = Some (snd (declared SeedPair))" "map_of metadata ''rounds'' = Some (snd (declared Round))"
  "map_of metadata ''bets'' = Some (snd (declared Bet))"
  "map_of metadata ''idempotency_keys'' = Some (snd (declared IdempotencyKey))"
  "map_of metadata ''refresh_tokens'' = Some (snd (declared RefreshToken))"
  "map_of metadata ''outbox'' = Some (snd (declared OutboxEvent))"
  by (code_simp | simp)+

lemmas migrated_insert_error = insert_error_same [OF migrated_declared]

lemmas declared_defs = declared_def column_of_def col_def mapped_def optional_def id_column_def created_at_column_def
  bigint_column_def key_to_def column_constraints_def column_indexes_def

lemmas enforced_defs = insert_error_def columns_known_def columns_fit_def columns_filled_def has_def field_def stored_def
  index_satisfied_def indexed_def same_key_def same_value_def num_test_def text_test_def store_of_def

lemma opt_simps [simp]:
  "fits t (opt f v) \<longleftrightarrow> (\<forall>x \<in> set_option v. fits t (f x))"
  "(\<And>x. f x \<noteq> Null) \<Longrightarrow> opt f v = Null \<longleftrightarrow> v = None"
  "opt f None = Null" "opt f (Some y) = f y"
  by (auto simp: opt_def split: option.splits)

lemma insert_error_check:
  assumes "map_of schema t = Some tab" "columns_known tab r" "columns_fit tab r \<longleftrightarrow> a"
    and "columns_filled tab r \<and> list_all (\<lambda>c. row_satisfies ci st tab (stored st t) r (snd c)) (table_constraints tab)
      \<and> list_all (\<lambda>i. index_satisfied ci tab (stored st t) r (snd i)) (table_indexes tab) \<longleftrightarrow> b"
  shows "insert_error ci schema st t r = check_row a b"
  using assms by (simp add: insert_error_def)

lemma user_insert: "insert_error ci metadata (store_of d) ''users'' (user_fields r) = check_user ci d r"
  unfolding check_user_def
  by (rule insert_error_check [OF metadata_tables(1)]) (auto simp: User_def declared_defs enforced_defs fields_defs image_iff list_ex_iff)

lemma wallet_insert: "insert_error ci metadata (store_of d) ''wallets'' (wallet_fields r) = check_wallet d r"
  unfolding check_wallet_def
  by (rule insert_error_check [OF metadata_tables(2)]) (auto simp: Wallet_def declared_defs enforced_defs fields_defs image_iff list_ex_iff)

lemma ledger_insert: "insert_error ci metadata (store_of d) ''ledger_entries'' (ledger_fields r) = check_ledger d r"
  unfolding check_ledger_def
  by (rule insert_error_check [OF metadata_tables(3)]) (auto simp: LedgerEntry_def declared_defs enforced_defs fields_defs image_iff list_ex_iff LEDGER_KINDS_def)

lemma seed_insert: "insert_error ci metadata (store_of d) ''seed_pairs'' (seed_fields r) = check_seed d r"
  unfolding check_seed_def
  by (rule insert_error_check [OF metadata_tables(4)]) (auto simp: SeedPair_def declared_defs enforced_defs fields_defs image_iff list_ex_iff)

lemma round_insert: "insert_error ci metadata (store_of d) ''rounds'' (round_fields r) = check_round d r"
  unfolding check_round_def
  by (rule insert_error_check [OF metadata_tables(5)]) (auto simp: Round_def declared_defs enforced_defs fields_defs image_iff list_ex_iff)

lemma bet_insert: "insert_error ci metadata (store_of d) ''bets'' (bet_fields r) = check_bet d r"
  unfolding check_bet_def
  by (rule insert_error_check [OF metadata_tables(6)]) (auto simp: Bet_def declared_defs enforced_defs fields_defs image_iff list_ex_iff)

lemma idem_insert: "insert_error ci metadata (store_of d) ''idempotency_keys'' (idem_fields r) = check_idem d r"
  unfolding check_idem_def
  by (rule insert_error_check [OF metadata_tables(7)]) (auto simp: IdempotencyKey_def declared_defs enforced_defs fields_defs image_iff list_ex_iff)

lemma token_insert: "insert_error ci metadata (store_of d) ''refresh_tokens'' (token_fields r) = check_token d r"
  unfolding check_token_def
  by (rule insert_error_check [OF metadata_tables(8)]) (auto simp: RefreshToken_def declared_defs enforced_defs fields_defs image_iff list_ex_iff)

lemma outbox_insert: "insert_error ci metadata (store_of d) ''outbox'' (outbox_fields r) = check_outbox d r"
  unfolding check_outbox_def
  by (rule insert_error_check [OF metadata_tables(9)]) (auto simp: OutboxEvent_def declared_defs enforced_defs fields_defs image_iff list_ex_iff)

lemmas insert_as_checked = user_insert wallet_insert ledger_insert seed_insert round_insert bet_insert idem_insert
  token_insert outbox_insert

text \<open>
  C37: the checks that the store makes before an insertion, for every table and every row, are
  exactly what the schema built by the revisions enforces: the ranges of its column types, its
  \<open>NOT NULL\<close> and check constraints, its keys, unique and partial unique indexes and foreign keys.
\<close>

theorem store_enforces_migrated_schema:
  "insert_error ci migrated_schema (store_of d) ''users'' (user_fields u) = check_user ci d u
   \<and> insert_error ci migrated_schema (store_of d) ''wallets'' (wallet_fields w) = check_wallet d w
   \<and> insert_error ci migrated_schema (store_of d) ''ledger_entries'' (ledger_fields l) = check_ledger d l
   \<and> insert_error ci migrated_schema (store_of d) ''seed_pairs'' (seed_fields s) = check_seed d s
   \<and> insert_error ci migrated_schema (store_of d) ''rounds'' (round_fields r) = check_round d r
   \<and> insert_error ci migrated_schema (store_of d) ''bets'' (bet_fields b) = check_bet d b
   \<and> insert_error ci migrated_schema (store_of d) ''idempotency_keys'' (idem_fields i) = check_idem d i
   \<and> insert_error ci migrated_schema (store_of d) ''refresh_tokens'' (token_fields t) = check_token d t
   \<and> insert_error ci migrated_schema (store_of d) ''outbox'' (outbox_fields e) = check_outbox d e"
  by (simp only: migrated_insert_error insert_as_checked simp_thms)

end
