(* ===== verification/Schema_Safety.thy ===== *)
theory Schema_Safety
  imports Schema Application
begin

text \<open>
  The schema as an invariant of the running application: in every state that its transactions
  reach, every row of every table is one the migrated schema accepts. The model checks an
  insertion and the updates of balances, nonces and attempts; the theorem says that the updates
  and deletions it runs without a check (revealing a seed, completing or deleting a key, revoking
  tokens, marking and purging events) would never have been refused either.
\<close>

named_theorems store_rules \<open>statements and programs that keep the store within its schema\<close>

section \<open>A store that conforms to a schema\<close>

text \<open>Every row is accepted after the rows before it, against all the other tables as they are.\<close>

fun accepted :: "('r list \<Rightarrow> 'r \<Rightarrow> exn option) \<Rightarrow> 'r list \<Rightarrow> 'r list \<Rightarrow> bool" where
  "accepted chk before [] = True"
| "accepted chk before (r # rs) = (chk before r = None \<and> accepted chk (before @ [r]) rs)"

definition conforms :: "(string \<Rightarrow> string) \<Rightarrow> (string \<times> sql_table) list \<Rightarrow> database \<Rightarrow> bool" where
  "conforms ci schema d \<longleftrightarrow>
     accepted (\<lambda>rs r. insert_error ci schema (store_of (d\<lparr>users := rs\<rparr>)) ''users'' (user_fields r)) [] (users d)
   \<and> accepted (\<lambda>rs r. insert_error ci schema (store_of (d\<lparr>wallets := rs\<rparr>)) ''wallets'' (wallet_fields r)) [] (wallets d)
   \<and> accepted (\<lambda>rs r. insert_error ci schema (store_of (d\<lparr>ledger := rs\<rparr>)) ''ledger_entries'' (ledger_fields r)) [] (ledger d)
   \<and> accepted (\<lambda>rs r. insert_error ci schema (store_of (d\<lparr>seed_pairs := rs\<rparr>)) ''seed_pairs'' (seed_fields r)) [] (seed_pairs d)
   \<and> accepted (\<lambda>rs r. insert_error ci schema (store_of (d\<lparr>rounds := rs\<rparr>)) ''rounds'' (round_fields r)) [] (rounds d)
   \<and> accepted (\<lambda>rs r. insert_error ci schema (store_of (d\<lparr>bets := rs\<rparr>)) ''bets'' (bet_fields r)) [] (bets d)
   \<and> accepted (\<lambda>rs r. insert_error ci schema (store_of (d\<lparr>idem_keys := rs\<rparr>)) ''idempotency_keys'' (idem_fields r)) [] (idem_keys d)
   \<and> accepted (\<lambda>rs r. insert_error ci schema (store_of (d\<lparr>refresh_tokens := rs\<rparr>)) ''refresh_tokens'' (token_fields r)) [] (refresh_tokens d)
   \<and> accepted (\<lambda>rs r. insert_error ci schema (store_of (d\<lparr>outbox := rs\<rparr>)) ''outbox'' (outbox_fields r)) [] (outbox d)"

text \<open>The same, table by table, as distinct keys and conditions of single rows.\<close>

definition users_kept :: "(string \<Rightarrow> string) \<Rightarrow> database \<Rightarrow> bool" where
  "users_kept ci d \<longleftrightarrow> distinct (map u_id (users d)) \<and> distinct (map (ci \<circ> u_email) (users d))
     \<and> (\<forall>r \<in> set (users d). u_status r \<in> {''active'', ''suspended''})"

definition wallets_kept :: "database \<Rightarrow> bool" where
  "wallets_kept d \<longleftrightarrow> distinct (map w_id (wallets d)) \<and> distinct (map w_user_id (wallets d))
     \<and> (\<forall>r \<in> set (wallets d). w_user_id r \<in> u_id ` set (users d) \<and> wallet_row_ok r = None)"

definition ledger_kept :: "database \<Rightarrow> bool" where
  "ledger_kept d \<longleftrightarrow> distinct (map l_id (ledger d))
     \<and> (\<forall>r \<in> set (ledger d). check_ledger (d\<lparr>ledger := []\<rparr>) r = None)"

definition seeds_kept :: "database \<Rightarrow> bool" where
  "seeds_kept d \<longleftrightarrow> distinct (map s_id (seed_pairs d))
     \<and> distinct (map s_user_id (filter (\<lambda>r. s_status r = ''active'') (seed_pairs d)))
     \<and> (\<forall>r \<in> set (seed_pairs d). check_seed (d\<lparr>seed_pairs := []\<rparr>) r = None)"

definition rounds_kept :: "database \<Rightarrow> bool" where
  "rounds_kept d \<longleftrightarrow> distinct (map r_id (rounds d)) \<and> distinct (map (\<lambda>x. (r_seed_pair_id x, r_nonce x)) (rounds d))
     \<and> (\<forall>r \<in> set (rounds d). check_round (d\<lparr>rounds := []\<rparr>) r = None)"

definition bets_kept :: "database \<Rightarrow> bool" where
  "bets_kept d \<longleftrightarrow> distinct (map b_id (bets d)) \<and> (\<forall>r \<in> set (bets d). check_bet (d\<lparr>bets := []\<rparr>) r = None)"

definition idem_kept :: "database \<Rightarrow> bool" where
  "idem_kept d \<longleftrightarrow> idem_ok d \<and> (\<forall>r \<in> set (idem_keys d). check_idem (d\<lparr>idem_keys := []\<rparr>) r = None)"

definition tokens_kept :: "database \<Rightarrow> bool" where
  "tokens_kept d \<longleftrightarrow> tokens_ok d \<and> (\<forall>r \<in> set (refresh_tokens d). t_user_id r \<in> u_id ` set (users d))"

definition outbox_kept :: "database \<Rightarrow> bool" where
  "outbox_kept d \<longleftrightarrow> distinct (map o_id (outbox d)) \<and> (\<forall>r \<in> set (outbox d). int4 (o_attempts r))"

definition schema_kept :: "(string \<Rightarrow> string) \<Rightarrow> database \<Rightarrow> bool" where
  "schema_kept ci d \<longleftrightarrow> users_kept ci d \<and> wallets_kept d \<and> ledger_kept d \<and> seeds_kept d \<and> rounds_kept d
     \<and> bets_kept d \<and> idem_kept d \<and> tokens_kept d \<and> outbox_kept d"

lemmas kept_defs = users_kept_def wallets_kept_def ledger_kept_def seeds_kept_def rounds_kept_def bets_kept_def
  idem_kept_def tokens_kept_def outbox_kept_def idem_ok_def tokens_ok_def

lemma acceptedI: "(\<And>pre r post. rows = pre @ r # post \<Longrightarrow> chk (before @ pre) r = None) \<Longrightarrow> accepted chk before rows"
proof (induction rows arbitrary: before)
  case (Cons r rows)
  have "accepted chk (before @ [r]) rows"
  proof (rule Cons.IH)
    fix pre q post assume "rows = pre @ q # post"
    then show "chk ((before @ [r]) @ pre) q = None" using Cons.prems [of "r # pre" q post] by simp
  qed
  with Cons.prems [of "[]" r rows] show ?case by simp
qed simp

lemma schema_kept_conforms:
  assumes "schema_kept ci d"
  shows "conforms ci migrated_schema d"
  unfolding conforms_def migrated_insert_error insert_as_checked
proof (intro conjI acceptedI)
  fix pre r post assume "users d = pre @ r # post"
  with assms show "check_user ci (d\<lparr>users := [] @ pre\<rparr>) r = None" by (auto simp: schema_kept_def kept_defs check_user_def)
next
  fix pre r post assume "wallets d = pre @ r # post"
  with assms show "check_wallet (d\<lparr>wallets := [] @ pre\<rparr>) r = None"
    by (auto simp: schema_kept_def kept_defs check_wallet_def wallet_row_ok_def)
next
  fix pre r post assume "ledger d = pre @ r # post"
  with assms show "check_ledger (d\<lparr>ledger := [] @ pre\<rparr>) r = None" by (auto simp: schema_kept_def kept_defs check_ledger_def)
next
  fix pre r post assume "seed_pairs d = pre @ r # post"
  with assms show "check_seed (d\<lparr>seed_pairs := [] @ pre\<rparr>) r = None"
    by (auto simp: schema_kept_def kept_defs check_seed_def)
next
  fix pre r post assume "rounds d = pre @ r # post"
  with assms show "check_round (d\<lparr>rounds := [] @ pre\<rparr>) r = None" by (auto simp: schema_kept_def kept_defs check_round_def)
next
  fix pre r post assume "bets d = pre @ r # post"
  with assms show "check_bet (d\<lparr>bets := [] @ pre\<rparr>) r = None" by (auto simp: schema_kept_def kept_defs check_bet_def)
next
  fix pre r post assume "idem_keys d = pre @ r # post"
  with assms show "check_idem (d\<lparr>idem_keys := [] @ pre\<rparr>) r = None" by (auto simp: schema_kept_def kept_defs check_idem_def)
next
  fix pre r post assume "refresh_tokens d = pre @ r # post"
  with assms show "check_token (d\<lparr>refresh_tokens := [] @ pre\<rparr>) r = None" by (auto simp: schema_kept_def kept_defs check_token_def)
next
  fix pre r post assume "outbox d = pre @ r # post"
  with assms show "check_outbox (d\<lparr>outbox := [] @ pre\<rparr>) r = None" by (auto simp: schema_kept_def kept_defs check_outbox_def)
qed

section \<open>Statements\<close>

definition store_kept :: "(string \<Rightarrow> string) \<Rightarrow> world \<Rightarrow> bool" where
  "store_kept ci w \<longleftrightarrow> schema_kept ci (db w) \<and> schema_kept ci (committed w)"

abbreviation schema_safe :: "(string \<Rightarrow> string) \<Rightarrow> (world, 'a) exec \<Rightarrow> bool" where
  "schema_safe ci \<equiv> maintains (store_kept ci)"

lemma maintains_basic [store_rules]:
  "maintains I (ret x)" "maintains I (throw e)" "maintains I diverge" "maintains I (gets g)" "maintains I (lift_sum q)"
  "maintains I (unless_raise b e)"
  by (rule maintains_keeps [where f = id and J = I]; simp add: frame_rules)+

lemma maintains_if [store_rules]: "(b \<Longrightarrow> maintains I m) \<Longrightarrow> (\<not> b \<Longrightarrow> maintains I n) \<Longrightarrow> maintains I (if b then m else n)"
  by simp

lemma maintains_option [store_rules]:
  "maintains I m \<Longrightarrow> (\<And>x. maintains I (g x)) \<Longrightarrow> maintains I (case v of None \<Rightarrow> m | Some x \<Rightarrow> g x)"
  by (cases v) auto

lemma maintains_prod [store_rules]: "(\<And>x y. maintains I (g x y)) \<Longrightarrow> maintains I (case p of (x, y) \<Rightarrow> g x y)"
  by (cases p) auto

lemmas maintains_bind_rule [store_rules] = maintains_bind

lemma maintains_mapx [store_rules]: "(\<And>x. maintains I (g x)) \<Longrightarrow> maintains I (mapx g xs)"
  by (induction xs) (auto intro!: store_rules)

lemma maintains_zip_run [store_rules]: "(\<And>x y. maintains I (g x y)) \<Longrightarrow> maintains I (zip_run g xs ys)"
  by (induction g xs ys rule: zip_run.induct) (auto intro!: store_rules)

lemma safe_reads [store_rules]:
  "schema_safe ci now_utc" "schema_safe ci uuid4" "schema_safe ci (token_bytes n)" "schema_safe ci db_now"
  "schema_safe ci (select_rows tbl p)" "schema_safe ci session_commit" "schema_safe ci begin_tx"
  by (auto simp: maintains_def store_kept_def now_utc_def uuid4_def token_bytes_def db_now_def select_rows_def
      session_commit_def begin_tx_def exec_simps)

lemma schema_safe_insert:
  assumes "\<And>d. schema_kept ci d \<Longrightarrow> chk d r = None \<Longrightarrow> schema_kept ci (upd (\<lambda>rs. rs @ [r]) d)"
  shows "schema_safe ci (insert_into upd chk r)"
  using assms by (auto simp: maintains_def store_kept_def insert_into_def split: option.splits)

lemma schema_safe_update:
  assumes "\<And>d. schema_kept ci d \<Longrightarrow> schema_kept ci (upd (update_where p f) d)"
  shows "schema_safe ci (update_rows upd p f)"
  using assms by (auto simp: maintains_def store_kept_def update_rows_def exec_simps)

lemma safe_inserts [store_rules]:
  "schema_safe ci (insert_into users_update (check_user ci) u)"
  "schema_safe ci (insert_into wallets_update check_wallet w)"
  "schema_safe ci (insert_into ledger_update check_ledger l)"
  "schema_safe ci (insert_into seed_pairs_update check_seed s)"
  "schema_safe ci (insert_into rounds_update check_round r)"
  "schema_safe ci (insert_into bets_update check_bet b)"
  "schema_safe ci (insert_into idem_keys_update check_idem i)"
  "schema_safe ci (insert_into refresh_tokens_update check_token t)"
  "schema_safe ci (insert_into outbox_update check_outbox e)"
  by (rule schema_safe_insert, auto simp: schema_kept_def kept_defs check_defs)+

lemma image_update_where [simp]: "(\<And>r. p r \<Longrightarrow> k (f r) = k r) \<Longrightarrow> k ` set (update_where p f rows) = k ` set rows"
  by (metis map_update_where set_map)

lemma in_update_where: "(\<forall>r \<in> set (update_where p f rows). P r) \<longleftrightarrow> (\<forall>r \<in> set rows. P (if p r then f r else r))"
  by (auto simp: set_update_where)

lemma distinct_map_filter_weaker:
  "distinct (map k (filter p xs)) \<Longrightarrow> (\<And>x. q x \<Longrightarrow> p x) \<Longrightarrow> distinct (map k (filter q xs))"
proof -
  assume d: "distinct (map k (filter p xs))" and qp: "\<And>x. q x \<Longrightarrow> p x"
  have "filter q (filter p xs) = filter q xs" using qp by (auto intro: filter_cong)
  with distinct_map_filter [OF d, of q] show ?thesis by simp
qed

text \<open>An update that leaves the keys alone and whose new rows meet the conditions of single rows.\<close>

lemma wallets_update_kept:
  assumes "schema_kept ci d" "\<And>r. p r \<Longrightarrow> w_id (f r) = w_id r" "\<And>r. p r \<Longrightarrow> w_user_id (f r) = w_user_id r"
    and "\<And>r. r \<in> set (wallets d) \<Longrightarrow> p r \<Longrightarrow> wallet_row_ok (f r) = None"
  shows "schema_kept ci (wallets_update (update_where p f) d)"
  using assms by (auto simp: schema_kept_def kept_defs in_update_where check_defs)

lemma seeds_update_kept:
  assumes "schema_kept ci d" "\<And>r. p r \<Longrightarrow> s_id (f r) = s_id r" "\<And>r. p r \<Longrightarrow> s_user_id (f r) = s_user_id r"
    and "\<And>r. p r \<Longrightarrow> s_status (f r) \<in> {s_status r, ''revealed''}"
    and "\<And>r. r \<in> set (seed_pairs d) \<Longrightarrow> p r \<Longrightarrow> int4 (s_nonce r) \<Longrightarrow> int4 (s_nonce (f r))"
  shows "schema_kept ci (seed_pairs_update (update_where p f) d)"
proof -
  let ?a = "\<lambda>r :: seed_row. s_status r = ''active''"
  have a: "?a (if p r then f r else r) \<Longrightarrow> ?a r" for r using assms(4) [of r] by (auto split: if_splits)
  have "filter ?a (update_where p f rows) = update_where p f (filter (\<lambda>r. ?a (if p r then f r else r)) rows)" for rows
    by (induction rows) simp_all
  moreover have "map s_user_id (update_where p f rows) = map s_user_id rows" for rows using assms(3) by simp
  moreover have "distinct (map s_user_id (filter (\<lambda>r. ?a (if p r then f r else r)) (seed_pairs d)))"
    by (rule distinct_map_filter_weaker [where p = ?a, OF _ a]) (use assms(1) in \<open>simp add: schema_kept_def seeds_kept_def\<close>)
  ultimately have active: "distinct (map s_user_id (filter ?a (update_where p f (seed_pairs d))))" by simp
  have row: "check_seed (d\<lparr>seed_pairs := []\<rparr>) (if p r then f r else r) = None" if r: "r \<in> set (seed_pairs d)" for r
  proof -
    have "check_seed (d\<lparr>seed_pairs := []\<rparr>) r = None" using assms(1) r by (simp add: schema_kept_def seeds_kept_def)
    with assms(3) [of r] assms(4) [of r] assms(5) [OF r] show ?thesis by (auto simp: check_seed_def)
  qed
  have "seeds_kept (d\<lparr>seed_pairs := update_where p f (seed_pairs d)\<rparr>)"
    using assms(1) active row assms(2) by (simp add: schema_kept_def seeds_kept_def in_update_where check_seed_def)
  then show ?thesis using assms(1) assms(2) by (simp add: schema_kept_def kept_defs check_defs)
qed

lemma idem_update_kept:
  assumes "schema_kept ci d" "\<And>r. p r \<Longrightarrow> i_id (f r) = i_id r \<and> i_user_id (f r) = i_user_id r \<and> i_key (f r) = i_key r"
    and "\<And>r. p r \<Longrightarrow> i_status (f r) \<in> {''pending'', ''completed''}"
  shows "schema_kept ci (idem_keys_update (update_where p f) d)"
  using assms by (auto simp: schema_kept_def kept_defs in_update_where check_defs)

lemma tokens_update_kept:
  assumes "schema_kept ci d" "\<And>r. p r \<Longrightarrow> t_id (f r) = t_id r \<and> t_user_id (f r) = t_user_id r \<and> t_token_hash (f r) = t_token_hash r"
  shows "schema_kept ci (refresh_tokens_update (update_where p f) d)"
  using assms by (auto simp: schema_kept_def kept_defs in_update_where check_defs)

lemma outbox_update_kept:
  assumes "schema_kept ci d" "\<And>r. p r \<Longrightarrow> o_id (f r) = o_id r" "\<And>r. p r \<Longrightarrow> int4 (o_attempts r) \<Longrightarrow> int4 (o_attempts (f r))"
  shows "schema_kept ci (outbox_update (update_where p f) d)"
  using assms by (auto simp: schema_kept_def kept_defs in_update_where check_defs)

text \<open>A deleted key or event leaves no dangling reference.\<close>

lemma deleted_kept:
  "schema_kept ci d \<Longrightarrow> schema_kept ci (idem_keys_update (filter q) d)"
  "schema_kept ci d \<Longrightarrow> schema_kept ci (outbox_update (filter q') d)"
  by (auto simp: schema_kept_def kept_defs check_defs distinct_map_filter)

section \<open>Repositories and services\<close>

lemma schema_safe_update_returning:
  assumes "\<And>d. schema_kept ci d \<Longrightarrow> (\<And>r. r \<in> set (tbl d) \<Longrightarrow> p r \<Longrightarrow> chk (f r) = None) \<Longrightarrow> schema_kept ci (upd (update_where p f) d)"
  shows "schema_safe ci (update_returning tbl upd chk p f)"
  using assms by (auto simp: maintains_def store_kept_def update_returning_def Let_def first_error_None_iff split: option.splits)

lemma safe_repositories [store_rules]:
  "schema_safe ci (get_wallet_by_user_id uid)" "schema_safe ci (wallet_debit wid m)" "schema_safe ci (wallet_credit wid m)"
  "schema_safe ci (ledger_append wid m b k rt ri)"
  "schema_safe ci (get_active_by_user_id uid)" "schema_safe ci (create_active uid seed h cs)" "schema_safe ci (consume_nonce pid)"
  "schema_safe ci (reveal_and_deactivate pid)"
  unfolding get_wallet_by_user_id_def wallet_debit_def wallet_credit_def ledger_append_def get_active_by_user_id_def
    create_active_def consume_nonce_def reveal_and_deactivate_def
  by (intro store_rules schema_safe_update_returning schema_safe_update; (erule wallets_update_kept seeds_update_kept)?;
      auto simp: seed_row_ok_def)+

lemma safe_stores [store_rules]:
  "schema_safe ci (insert_bet rid bi)" "schema_safe ci (create_settled_round uid pid n outcome inputs)"
  "schema_safe ci (idem_get uid key)" "schema_safe ci (create_pending uid key h ex)" "schema_safe ci (mark_completed rid body)"
  "schema_safe ci (idem_delete rid)"
  "schema_safe ci (user_get_by_email ci email)" "schema_safe ci (user_create ci email ph)" "schema_safe ci (wallet_create uid)"
  "schema_safe ci (token_get_by_hash h)" "schema_safe ci (token_create uid fam h ex)" "schema_safe ci (token_revoke tid t)"
  "schema_safe ci (revoke_family fam t)"
  "schema_safe ci (new_envelope et data ik)" "schema_safe ci (enqueue_event cfg env key)"
  subgoal unfolding insert_bet_def by (intro store_rules)
  subgoal unfolding create_settled_round_def insert_bet_def by (intro store_rules)
  subgoal unfolding idem_get_def by (intro store_rules)
  subgoal unfolding create_pending_def by (intro store_rules)
  subgoal unfolding mark_completed_def by (rule schema_safe_update) (erule idem_update_kept; simp)
  subgoal by (auto simp: idem_delete_def maintains_def store_kept_def exec_simps deleted_kept)
  subgoal unfolding user_get_by_email_def by (intro store_rules)
  subgoal unfolding user_create_def by (intro store_rules)
  subgoal unfolding wallet_create_def by (intro store_rules)
  subgoal unfolding token_get_by_hash_def by (intro store_rules)
  subgoal unfolding token_create_def by (intro store_rules)
  subgoal unfolding token_revoke_def by (rule schema_safe_update) (erule tokens_update_kept; simp)
  subgoal unfolding revoke_family_def by (rule schema_safe_update) (erule tokens_update_kept; simp)
  subgoal unfolding new_envelope_def by (intro store_rules)
  subgoal unfolding enqueue_event_def by (intro store_rules)
  done

lemma safe_services [store_rules]:
  "schema_safe ci (deposit cfg uid key amount)" "schema_safe ci (place_bet cfg uid key reqs)" "schema_safe ci (rotate_seed uid)"
  "schema_safe ci (register_user ci cr cfg email password)" "schema_safe ci (login ci cr cfg email password)"
  "schema_safe ci (refresh_access_token cr cfg raw)" "schema_safe ci (logout uid raw)"
proof -
  have spin: "schema_safe ci (run_spin m)" for m
    unfolding run_spin_def by (intro store_rules)
  have events: "schema_safe ci (enqueue_round_events cfg ctx)" for ctx
    unfolding enqueue_round_events_def Let_def by (intro store_rules)
  have issue: "schema_safe ci (issue_tokens cr cfg u fam)" for u fam
    unfolding issue_tokens_def create_access_token_def generate_refresh_token_def token_urlsafe_def by (intro store_rules)
  show "schema_safe ci (deposit cfg uid key amount)" unfolding deposit_def by (intro store_rules)
  show "schema_safe ci (place_bet cfg uid key reqs)" unfolding place_bet_def Let_def by (intro store_rules spin events)
  show "schema_safe ci (rotate_seed uid)"
    unfolding rotate_seed_def new_server_seed_def generate_client_seed_def by (intro store_rules)
  show "schema_safe ci (register_user ci cr cfg email password)"
    unfolding register_user_def hash_password_def new_server_seed_def generate_client_seed_def by (intro store_rules issue)
  show "schema_safe ci (login ci cr cfg email password)" unfolding login_def by (intro store_rules issue)
  show "schema_safe ci (refresh_access_token cr cfg raw)"
    unfolding refresh_access_token_def check_refresh_def rotate_refresh_def by (intro store_rules issue)
  show "schema_safe ci (logout uid raw)" unfolding logout_def by (intro store_rules)
qed

section \<open>Every transaction\<close>

lemma unit_of_work_schema:
  assumes "schema_safe ci m" "schema_kept ci (db w)"
  shows "schema_kept ci (db (snd (unit_of_work m w)))"
proof -
  have "store_kept ci (start_tx w)" using assms(2) by (simp add: store_kept_def)
  moreover obtain q w1 where m: "m (start_tx w) = (q, w1)" by force
  ultimately have "store_kept ci w1" using maintainsD [OF assms(1) m] by simp
  with m show ?thesis by (cases q) (auto simp: unit_of_work_def exec_simps store_kept_def)
qed

lemma session_scope_schema:
  assumes "schema_safe ci m" "schema_kept ci (db w)"
  shows "schema_kept ci (db (snd (session_scope m w)))"
proof -
  have "store_kept ci (start_tx w)" using assms(2) by (simp add: store_kept_def)
  moreover obtain q w1 where m: "m (start_tx w) = (q, w1)" by force
  ultimately have "store_kept ci w1" using maintainsD [OF assms(1) m] by simp
  with m show ?thesis by (simp add: session_scope_def exec_simps store_kept_def)
qed

lemma safe_work [store_rules]:
  "schema_safe ci (deposit_work cfg uid key amount)" "schema_safe ci (bet_work cfg uid key reqs)"
  unfolding deposit_work_def bet_work_def by (intro store_rules)+

lemma keys_schema:
  assumes "schema_kept ci (db w)"
  shows "schema_kept ci (db (snd (try_reserve uid key h ttl w)))" "schema_kept ci (db (snd (resolve_existing uid key h w)))"
    "schema_safe ci work \<Longrightarrow> schema_kept ci (db (snd (complete_work work rid w)))" "schema_kept ci (db (snd (release_key rid w)))"
proof -
  let ?m = "bind now_utc (\<lambda>now. bind (create_pending uid key h (now + hours ttl)) (\<lambda>row. ret (i_id row)))"
  have "schema_safe ci ?m" by (intro store_rules)
  from unit_of_work_schema [OF this assms] show "schema_kept ci (db (snd (try_reserve uid key h ttl w)))"
    by (auto simp: try_reserve_def split: prod.splits result.splits)
  show "schema_kept ci (db (snd (resolve_existing uid key h w)))"
    unfolding resolve_existing_def by (rule session_scope_schema [OF _ assms]) (intro store_rules)
  show "schema_kept ci (db (snd (complete_work work rid w)))" if "schema_safe ci work"
    unfolding complete_work_def by (rule unit_of_work_schema [OF _ assms]) (intro store_rules that)
  show "schema_kept ci (db (snd (release_key rid w)))"
    unfolding release_key_def by (rule unit_of_work_schema [OF _ assms]) (intro store_rules)
qed

lemma purge_schema: "schema_kept ci (db w) \<Longrightarrow> schema_kept ci (db (snd (purge_once retention w)))"
proof -
  have "schema_safe ci (purge_published t)" for t
    by (auto simp: maintains_def store_kept_def purge_published_def deleted_kept)
  then show "schema_kept ci (db w) \<Longrightarrow> ?thesis" by (simp add: purge_once_def exec_simps unit_of_work_schema)
qed

lemma maintains_on_world [store_rules]: "schema_safe ci m \<Longrightarrow> maintains (\<lambda>s. store_kept ci (rworld s)) (on_world m)"
  by (auto simp: maintains_def on_world_def split: prod.splits)

lemma safe_marks [store_rules]: "schema_safe ci (mark_published eid)" "schema_safe ci (mark_failed eid k e)"
proof -
  have upd: "schema_safe ci (update_rows outbox_update (\<lambda>r. o_id r = eid) f)"
    if "\<And>r. o_id (f r) = o_id r" "\<And>r. int4 (o_attempts r) \<Longrightarrow> int4 (o_attempts (f r))" for f
    by (rule schema_safe_update, rule outbox_update_kept) (use that in auto)
  show "schema_safe ci (mark_published eid)"
    unfolding mark_published_def by (intro store_rules upd) simp_all
  show "schema_safe ci (mark_failed eid k e)"
  proof (cases "int4 k")
    case True
    then show ?thesis unfolding mark_failed_def by (intro store_rules upd) simp_all
  next
    case False
    have "mark_failed eid k e = bind now_utc (\<lambda>t. throw DataError)" using False by (simp add: mark_failed_def exec_simps)
    then show ?thesis by (simp only:) (intro store_rules)
  qed
qed

lemma safe_send [store_rules]: "maintains (\<lambda>s. store_kept ci (rworld s)) (send_and_wait row)"
  by (rule maintains_keeps [where f = rworld and J = "store_kept ci"])
    (simp_all add: keeps_def send_and_wait_def Let_def split: send_outcome.splits)

lemma safe_rows [store_rules]: "maintains (\<lambda>s. store_kept ci (rworld s)) (relay_rows rows)"
proof (induction rows)
  case (Cons row rows)
  show ?case unfolding relay_rows.simps by (intro store_rules Cons.IH)
qed (simp add: store_rules)

lemma relay_schema:
  assumes "schema_kept ci (db (rworld s))"
  shows "schema_kept ci (db (rworld (snd (relay_once tie locked n s))))"
proof -
  let ?I = "\<lambda>s. store_kept ci (rworld s)"
  have lock: "schema_safe ci (lock_unpublished_batch tie locked n)"
    unfolding lock_unpublished_batch_def by (intro store_rules)
  have "maintains ?I (bind (on_world (lock_unpublished_batch tie locked n)) (\<lambda>rows.
        if rows = [] then ret 0 else bind (relay_rows rows) (\<lambda>_. ret (length rows))))" (is "maintains ?I ?body")
    by (intro store_rules lock)
  note body = this
  obtain q t where b: "?body (s\<lparr>rworld := start_tx (rworld s)\<rparr>) = (q, t)" by (rule prod.exhaust)
  have "?I (s\<lparr>rworld := start_tx (rworld s)\<rparr>)" using assms by (simp add: store_kept_def)
  from maintainsD [OF body b this] have "schema_kept ci (db (rworld t))" "schema_kept ci (committed (rworld t))"
    by (simp_all add: store_kept_def)
  then show ?thesis
    by (cases q) (simp_all add: relay_once_def relay_transaction_def b del: bind_simps if_split)
qed

lemma app_step_schema: "app_step ci cr cfg w w' \<Longrightarrow> schema_kept ci (db w) \<Longrightarrow> schema_kept ci (db w')"
  by (induction rule: app_step.induct)
    (auto intro: unit_of_work_schema store_rules keys_schema purge_schema relay_schema)

interpretation schema_machine: inductive_invariant app_init "app_step ci cr cfg" "\<lambda>w. schema_kept ci (db w)"
proof unfold_locales
  show "schema_kept ci (db w)" if "app_init w" for w
    using that by (simp add: app_init_def empty_db_def schema_kept_def kept_defs)
qed (rule app_step_schema)

text \<open>
  C2: in every state the application reaches from an empty database, whatever transactions ran,
  failed or interleaved, the tables conform to the schema of the migrations: each row would be
  accepted by it, so no statement the application runs unchecked breaks a constraint.
\<close>

theorem reachable_states_conform:
  assumes "reach app_init (app_step ci cr cfg) w"
  shows "conforms ci migrated_schema (db w)"
  by (rule schema_kept_conforms [OF schema_machine.inv_reach [OF assms]])

theorem reachable_states_conform_witness:
  "\<exists>w u. reach app_init (app_step id plain_crypto default_settings) w \<and> users (db w) = [u]
     \<and> conforms id migrated_schema (db w)"
proof -
  obtain up w' u where run: "unit_of_work (register_user id plain_crypto default_settings ''ana@mail.com'' ''secret'') empty_world = (Val up, w')"
    and some: "users (db w') = [u]" using first_registration by blast
  have "reach app_init (app_step id plain_crypto default_settings) empty_world"
    by (rule reach_init) (simp add: app_init_def empty_world_def)
  from reach_step [OF this app_register] run
  have w': "reach app_init (app_step id plain_crypto default_settings) w'" by (metis snd_conv)
  from reachable_states_conform [OF w'] w' some show ?thesis by blast
qed

end
