(* ===== verification/Event_Order.thy ===== *)
theory Event_Order
  imports Schema_Safety Round_Properties "HOL-Library.Multiset"
begin

text \<open>
  The order in which the events of one play reach the broker. The contract of
  \<open>contracts/events/README.md\<close> promises their order; the rows of one transaction have one creation
  time and the relay orders by it alone, so any order is possible.
\<close>

section \<open>Ties\<close>

lemma sort_key_equal: "(\<And>x. x \<in> set xs \<Longrightarrow> f x = c) \<Longrightarrow> sort_key f xs = xs"
  by (rule sort_key_id_if_sorted) (simp add: sorted_iff_nth_mono)

text \<open>Some key puts the elements of a list into any given order.\<close>

lemma some_tie:
  assumes "distinct ys" "mset ys = mset xs"
  shows "\<exists>tie :: 'a \<Rightarrow> nat. sort_key tie xs = ys"
proof -
  let ?tie = "\<lambda>x. length (takeWhile (\<lambda>y. y \<noteq> x) ys)"
  have at: "?tie (ys ! i) = i" if "i < length ys" for i
  proof -
    have "ys = take i ys @ ys ! i # drop (Suc i) ys" using that by (rule id_take_nth_drop)
    moreover have "ys ! i \<notin> set (take i ys)" using assms(1) that by (auto simp: in_set_conv_nth nth_eq_iff_index_eq)
    ultimately have "takeWhile (\<lambda>y. y \<noteq> ys ! i) ys = take i ys"
      by (subst \<open>ys = _\<close>) (subst takeWhile_append2; auto)
    with that show ?thesis by simp
  qed
  have inj: "inj_on ?tie (set ys)" by (auto simp: inj_on_def in_set_conv_nth at)
  have "sort_key ?tie xs = ys"
  proof (rule properties_for_sort_key)
    show "mset ys = mset xs" by (rule assms(2))
    show "sorted (map ?tie ys)" by (simp add: sorted_iff_nth_mono at)
    fix k assume k: "k \<in> set ys"
    have "distinct xs" "set xs = set ys" using assms by (metis mset_eq_imp_distinct_iff, metis mset_eq_setD)
    moreover have "filter (\<lambda>x. ?tie k = ?tie x) zs = filter (\<lambda>x. x = k) zs" if "set zs = set ys" for zs
      by (rule filter_cong [OF refl]) (use inj k that in \<open>auto dest: inj_onD\<close>)
    ultimately show "filter (\<lambda>x. ?tie k = ?tie x) ys = filter (\<lambda>x. ?tie k = ?tie x) xs"
      using filter_key_singleton [of id ys k] filter_key_singleton [of id xs k] assms(1) k by simp
  qed
  then show ?thesis by blast
qed

section \<open>A healthy broker\<close>

lemma relay_rows_healthy:
  "(\<And>i. sends s \<le> i \<Longrightarrow> outcomes s i = Acked) \<Longrightarrow>
     \<exists>t. relay_rows batch s = (Val (), t) \<and> sent t = sent s @ map message_of batch"
proof (induction batch arbitrary: s)
  case (Cons row rows)
  let ?s = "s\<lparr>sends := sends s + 1, sent := sent s @ [message_of row]\<rparr>"
  obtain w where w: "mark_published (o_id row) (rworld ?s) = (Val (), w)"
    by (simp add: mark_published_def update_rows_def exec_simps)
  have "send_and_wait row s = (Val None, ?s)" using Cons.prems [of "sends s"] by (simp add: send_and_wait_def Let_def)
  then have run: "relay_rows (row # rows) s = relay_rows rows (?s\<lparr>rworld := w\<rparr>)"
    using w by (simp add: bind_def on_world_def)
  obtain t where "relay_rows rows (?s\<lparr>rworld := w\<rparr>) = (Val (), t)" "sent t = sent ?s @ map message_of rows"
    using Cons.IH [of "?s\<lparr>rworld := w\<rparr>"] Cons.prems by auto
  with run show ?case by auto
qed (simp add: exec_simps)

lemma relay_once_healthy:
  assumes "\<And>i. sends s \<le> i \<Longrightarrow> outcomes s i = Acked"
  shows "\<exists>s'. relay_once tie locked n s = (Val (length (cycle_batch tie locked n s)), s')
    \<and> sent s' = sent s @ map message_of (cycle_batch tie locked n s)"
proof -
  obtain t where t: "relay_rows (cycle_batch tie locked n s) (cycle_start s) = (Val (), t)"
    "sent t = sent s @ map message_of (cycle_batch tie locked n s)"
    using relay_rows_healthy [of "cycle_start s" "cycle_batch tie locked n s"] assms by auto
  then show ?thesis by (simp add: relay_once_run relay_transaction_def bind_def t(1) exec_simps)
qed

section \<open>The events of a play\<close>

lemma play_rows:
  assumes "consistent (db w)" "outbox (db w) = []" "unit_of_work (place_bet cfg uid ik reqs) w = (Val res, w')"
    and "r \<in> set (outbox (db w'))"
  shows "o_created_at r = clock w (ticks w) \<and> o_published_at r = None \<and> o_next_attempt_at r = None"
proof -
  obtain w1 where w1: "place_bet cfg uid ik reqs (start_tx w) = (Val res, w1)" "db w' = db w1"
    using assms(3) by (auto simp: unit_of_work_Val)
  have "wallets_ok (db (start_tx w))" "seeds_ok (db (start_tx w))"
    using assms(1) by (simp_all add: consistent_def books_balance_def)
  from place_bet_Val [OF this w1(1)] w1(2) assms(2) obtain es where
    "list_all2 (pending_event cfg (uuid_str uid) (Some ik) (clock w (ticks w))) es (outbox (db w'))"
    unfolding settles_def Let_def by force
  then have "\<exists>e. pending_event cfg (uuid_str uid) (Some ik) (clock w (ticks w)) e r"
    using assms(4) by (metis in_set_conv_nth list_all2_conv_all_nth)
  then show ?thesis by (simp add: pending_event_def)
qed

text \<open>
  C38: the events of one play have no order. After a play from an empty outbox, for every order
  of its rows there is a way to break the tie of their creation times such that one cycle of the
  relay, with a broker that acknowledges every send, publishes them in exactly that order.
\<close>

theorem play_events_any_order:
  assumes "consistent (db w)" and "schema_kept ci (db w)" and "outbox (db w) = []"
    and "unit_of_work (place_bet cfg uid ik reqs) w = (Val res, rworld s)"
    and "mset order = mset (rows_of s)" and "length order \<le> n"
    and "\<And>i. sends s \<le> i \<Longrightarrow> outcomes s i = Acked"
  shows "\<exists>tie s'. relay_once tie {} n s = (Val (length order), s') \<and> sent s' = sent s @ map message_of order"
proof -
  note row = play_rows [OF assms(1,3,4)]
  have "schema_kept ci (db (rworld s))"
    using unit_of_work_schema [OF _ assms(2), of "place_bet cfg uid ik reqs"] assms(4) by (simp add: store_rules)
  then have "distinct (rows_of s)" by (auto simp: schema_kept_def outbox_kept_def distinct_map)
  then have "distinct order" by (rule mset_eq_imp_distinct_iff [OF assms(5), THEN iffD2])
  then obtain tie :: "outbox_row \<Rightarrow> nat" where tie: "sort_key tie (rows_of s) = order" using some_tie assms(5) by blast
  have set: "set order = set (rows_of s)" using assms(5) by (rule mset_eq_setD)
  have "filter (eligible t {}) (rows_of s) = rows_of s" for t
    using row by (auto simp: filter_id_conv eligible_def)
  moreover have "sort_key o_created_at order = order"
    by (rule sort_key_equal [where c = "clock w (ticks w)"]) (use row set in auto)
  ultimately have "cycle_batch tie {} n s = order"
    using assms(6) tie by (simp add: cycle_batch_def locked_batch_def)
  with relay_once_healthy [OF assms(7), of tie "{}" n] show ?thesis by auto
qed

text \<open>The known round of the demo: its events in reverse.\<close>

definition demo_relay :: relay_state where
  "demo_relay = \<lparr>rworld = snd (unit_of_work (place_bet default_settings 1 ''k'' demo_requests) demo_world),
     sent = [], outcomes = (\<lambda>_. Acked), sends = 0\<rparr>"

lemma demo_play: "fst (unit_of_work (place_bet default_settings 1 ''k'' demo_requests) demo_world) = Val demo_result"
proof -
  have "fst (place_bet default_settings 1 ''k'' demo_requests (start_tx demo_world)) = Val demo_result"
    by (simp add: place_bet_run start_tx_def)
  then obtain w where "place_bet default_settings 1 ''k'' demo_requests (start_tx demo_world) = (Val demo_result, w)"
    by (metis prod.collapse)
  then show ?thesis by (simp add: unit_of_work_def exec_simps)
qed

lemma demo_schema: "schema_kept id demo_db"
  by (simp add: schema_kept_def kept_defs check_defs check_row_def bigint_def int4_def LEDGER_KINDS_def demo_db_def)

theorem play_events_any_order_witness:
  "\<exists>tie s'. fst (relay_once tie {} (length (rows_of demo_relay)) demo_relay) = Val (length (rows_of demo_relay))
     \<and> snd (relay_once tie {} (length (rows_of demo_relay)) demo_relay) = s'
     \<and> sent s' = map message_of (rev (rows_of demo_relay))"
proof -
  have "unit_of_work (place_bet default_settings 1 ''k'' demo_requests) demo_world = (Val demo_result, rworld demo_relay)"
    using demo_play by (simp add: demo_relay_def prod_eq_iff)
  from play_events_any_order [OF demo_consistent _ _ this, where ci = id and order = "rev (rows_of demo_relay)"
      and n = "length (rows_of demo_relay)"]
  show ?thesis using demo_schema by (auto simp: demo_relay_def demo_world_def demo_db_def) (metis fst_conv snd_conv)
qed

end
