(* ===== verification/Spec2Isabelle.thy ===== *)
theory Spec2Isabelle
  imports Prelude Codec Sha256 Spin_Vector Spin_Demo Money Roulette_Table Roulette_Bets Fair_Outcome
    Roulette_Engine Db_Model Demo_World Config Wallet_Store Seed_Store Events Wallet_Service
    Round_Store Fair_History Roulette_Service Round_Properties Fairness_Service Outbox_Relay
    Outbox_Machine Idempotency Idempotency_Machine Cursor Keyset History Security Token_Vector
    Auth_Store Auth_Service Accounts Application Migrations Broadcaster Ws_Rate_Limit Ws_Endpoint Http
    Json_Text Logging Requests Endpoints Server Lifecycle
    Metrics Alembic_Env Schema Schema_Safety Event_Order
begin

text \<open>
  A verification library for \<open>theclub-api\<close>, the casino API of this repository: a FastAPI program
  over PostgreSQL, Kafka and Redis that keeps wallets with a ledger, plays provably fair
  roulette, and tells the outside about it through an outbox and web sockets. The program is
  modelled shallowly: its data are records and datatypes, its pure functions HOL functions of
  type \<open>exn + 'a\<close> where they raise, its stateful ones state transformers \<open>('s, 'a) exec\<close> that return,
  raise or never return, its races step relations. Every definition evaluates, and every theorem
  with a hypothesis is followed by a witness that applies it to a concrete input.

  The parts of the program, from the inside out, and the theories that model them.

  \<^item> \<open>app/domain\<close>: \<open>Money\<close> (amounts with a currency), \<open>Roulette_Table\<close>, \<open>Roulette_Bets\<close>,
    \<open>Roulette_Engine\<close> (the table, what a bet covers, what a round pays), \<open>Fair_Outcome\<close> (the outcome
    of a spin from the seeds, by rejection sampling on HMAC-SHA256; \<open>Sha256\<close> defines the hash,
    \<open>Spin_Vector\<close> and \<open>Spin_Demo\<close> check it and one spin by evaluation). Proved: the figures of the
    table are what the geometry says, the pay table returns 36/37 of the stakes whatever is
    staked, the sampler is unbiased, and a spin is the first accepted chunk of the hash chain
    (its loop is partial, so that it returns is part of the statement).
  \<^item> \<open>app/models\<close> and \<open>app/infra/db.py\<close>: \<open>Db_Model\<close>, the rows, the tables as lists of rows in insertion
    order, the checks, keys and ranges PostgreSQL enforces, statements, and the unit of work that
    commits on return and rolls back on an exception. \<open>alembic/versions\<close>: \<open>Migrations\<close>, the DDL of
    the four revisions run against a catalog; they build exactly the schema the models declare.
    \<open>Schema\<close> reads such a catalog as PostgreSQL enforces it and shows that the checks of \<open>Db_Model\<close>
    are exactly those of the migrated schema; \<open>Schema_Safety\<close> that every reachable state conforms
    to it. \<open>alembic/env.py\<close>: \<open>Alembic_Env\<close>, how the URL of the settings reaches a migration run.
  \<^item> \<open>app/repositories\<close> and \<open>app/services\<close>: \<open>Wallet_Store\<close>, \<open>Seed_Store\<close>, \<open>Round_Store\<close>, \<open>Auth_Store\<close>,
    \<open>Keyset\<close> (history queries), \<open>Wallet_Service\<close>, \<open>Fairness_Service\<close>, \<open>Roulette_Service\<close>,
    \<open>Auth_Service\<close> with \<open>Security\<close> (passwords and tokens), \<open>Events\<close> (payloads and the outbox writer),
    \<open>Idempotency\<close>. Proved of each operation: what it returns and does to the tables on every
    branch. \<open>Fair_History\<close>, \<open>Round_Properties\<close>, \<open>Accounts\<close> hold the invariants: the books balance, the
    seeds commit, every settled round can be recomputed from its seed, every user has a wallet
    and an active seed.
  \<^item> Races: \<open>Wallet_Store\<close> and \<open>Seed_Store\<close> run any interleaving of single statements,
    \<open>Idempotency_Machine\<close> any interleaving of the transactions of requests with keys,
    \<open>Outbox_Machine\<close> writers, relays with failing brokers and the purge, \<open>Application\<close> all transactions
    of the program from an empty database.
  \<^item> \<open>app/events/relay.py\<close> and \<open>app/events/outbox_cleanup.py\<close>: \<open>Outbox_Relay\<close>; \<open>Event_Order\<close> shows that
    the events of one play can reach the broker in any order.
  \<^item> \<open>app/ws\<close> and \<open>app/api/v1/ws.py\<close>: \<open>Broadcaster\<close> (bounded queues that drop the oldest message),
    \<open>Ws_Rate_Limit\<close> (a window counted in Redis), \<open>Ws_Endpoint\<close> (the registry and the life of a
    connection).
  \<^item> \<open>app/api\<close>: \<open>Cursor\<close> and \<open>History\<close> (pagination), \<open>Http\<close> (exception handlers, body limit, request
    context and their order), \<open>Json_Text\<close> and \<open>Logging\<close> (\<open>app/infra/logging.py\<close>), \<open>Requests\<close> (request and
    response models), \<open>Endpoints\<close> (every HTTP route with its dependencies), \<open>Server\<close> (the routes as
    one machine), \<open>Lifecycle\<close> (health, readiness, start and stop, the options of
    the clients), \<open>Metrics\<close> (\<open>app/infra/metrics.py\<close>, what a scrape reads).
  \<^item> \<open>app/config.py\<close>: \<open>Config\<close>.

  How state corresponds. A \<open>world\<close> holds the tables of the running transaction and the committed
  ones, and the sources of time, identifiers and random bytes as streams with a position; a
  \<open>server\<close> adds the notification hub, Redis, the connections and the counters; the context of a
  request is the record \<open>ctx\<close>. Two concurrent requests meet at the granularity of transactions
  or, where the code relies on a single atomic statement, of statements; inside the event loop
  the in-memory parts run without interruption between awaits.

  Interfaces are locales, interpreted on the definitions of the components that provide them:
  inductive invariants of step relations (\<open>inductive_invariant\<close>), keyset pagination, services that
  are safe inside a transaction (\<open>safe_service\<close>), and requests under a key (\<open>keyed_requests\<close>).

  What is outside and how it enters. argon2, PyJWT, the case folding of CITEXT, the lenient
  readings of pydantic, the decisions of slowapi, the middlewares of Starlette and the broker
  are parameters; what is assumed of them is named (\<open>jwt_contract\<close>, \<open>argon_contract\<close>,
  \<open>framework_ok\<close>, \<open>relays\<close>, \<open>responds_or_raises\<close>) and each is shown to be possible by a concrete
  instance. Redis is modelled by its documented \<open>INCR\<close> and \<open>EXPIRE\<close>, JSON and base64 by what the
  standard library does. No fuel is used where the code loops on data; the relay loop, which
  runs until it is cancelled, is run for a given number of iterations, and the number that
  drains a backlog is stated. Interpolation of options nests at most ten deep, the bound of
  \<open>configparser\<close>.

  Not modelled: logging calls other than the formatter and the canonical line, durations and
  the sums of the histogram, the text format of \<open>/metrics\<close>, the OpenAPI export, sleeping and
  the moment of cancellation, and the traffic of a socket between its two tasks: pure I/O of
  the libraries. When FastAPI closes the session of a request relative to the sending of the
  response is the framework's; the model closes it before.
\<close>

end
